(* ===== verification/Prelude.thy ===== *)
theory Prelude
  imports "HOL-Library.Word" "HOL-Library.AList" "HOL-Library.Sublist"
begin

text \<open>
  Shared vocabulary of the development.  Rust strings are byte strings, so a
  \<open>&str\<close> is a HOL \<open>string\<close> (a list of 8-bit characters holding the UTF-8
  bytes) and \<open>len\<close> is the number of bytes.  The theory models the functions of
  Rust's \<open>str\<close> that several components call, together with the rules the
  component proofs simplify with, and the result type of fallible code.
\<close>

named_theorems str_simps \<open>evaluation rules for the string functions\<close>
named_theorems store_simps \<open>laws of the in-memory stores\<close>

section \<open>Results\<close>

text \<open>\<open>Result<T, E>\<close> is the sum type with the error on the left, as an early
  return by \<open>?\<close> takes it.\<close>

type_synonym ('e, 'a) result = "'e + 'a"

abbreviation Err :: "'e \<Rightarrow> ('e, 'a) result" where
  "Err \<equiv> Inl"

abbreviation Ok :: "'a \<Rightarrow> ('e, 'a) result" where
  "Ok \<equiv> Inr"

fun and_then :: "('e, 'a) result \<Rightarrow> ('a \<Rightarrow> ('e, 'b) result) \<Rightarrow> ('e, 'b) result" where
  "and_then (Inl e) f = Inl e"
| "and_then (Inr a) f = f a"

lemma and_then_Ok_iff [str_simps]:
  "and_then r f = Ok b \<longleftrightarrow> (\<exists>a. r = Ok a \<and> f a = Ok b)"
  by (cases r) auto

definition ok_or :: "'e \<Rightarrow> 'a option \<Rightarrow> ('e, 'a) result" where
  "ok_or e x = (case x of None \<Rightarrow> Inl e | Some a \<Rightarrow> Inr a)"

lemma ok_or_simps [simp]:
  "ok_or e None = Inl e" "ok_or e (Some a) = Inr a"
  by (simp_all add: ok_or_def)

lemma ok_or_Ok_iff [simp]: "ok_or e x = Ok a \<longleftrightarrow> x = Some a"
  by (cases x) auto

section \<open>Strings\<close>

type_synonym byte = "8 word"

text \<open>\<open>str::strip_prefix\<close> and \<open>str::strip_suffix\<close>.\<close>

fun strip_prefix :: "string \<Rightarrow> string \<Rightarrow> string option" where
  "strip_prefix [] s = Some s"
| "strip_prefix (p # ps) [] = None"
| "strip_prefix (p # ps) (c # cs) = (if p = c then strip_prefix ps cs else None)"

lemma strip_prefix_Some_iff [str_simps]:
  "strip_prefix p s = Some r \<longleftrightarrow> s = p @ r"
  by (induction p s rule: strip_prefix.induct) auto

lemma strip_prefix_append [simp]: "strip_prefix p (p @ r) = Some r"
  by (simp add: strip_prefix_Some_iff)

lemma strip_prefix_None_iff: "strip_prefix p s = None \<longleftrightarrow> \<not> prefix p s"
  using strip_prefix_Some_iff [of p s] by (cases "strip_prefix p s") (auto simp: prefix_def)

definition strip_suffix :: "string \<Rightarrow> string \<Rightarrow> string option" where
  "strip_suffix p s = map_option rev (strip_prefix (rev p) (rev s))"

lemma strip_suffix_Some_iff [str_simps]:
  "strip_suffix p s = Some r \<longleftrightarrow> s = r @ p"
proof -
  have "strip_suffix p s = Some r \<longleftrightarrow> strip_prefix (rev p) (rev s) = Some (rev r)"
    by (auto simp: strip_suffix_def)
  also have "\<dots> \<longleftrightarrow> rev s = rev (r @ p)"
    by (simp add: strip_prefix_Some_iff)
  finally show ?thesis
    by (simp only: rev_is_rev_conv)
qed

lemma strip_suffix_append [simp]: "strip_suffix p (r @ p) = Some r"
  by (simp add: strip_suffix_Some_iff)

definition starts_with :: "string \<Rightarrow> string \<Rightarrow> bool" where
  "starts_with s p = (strip_prefix p s \<noteq> None)"

lemma starts_with_iff [str_simps]: "starts_with s p \<longleftrightarrow> (\<exists>r. s = p @ r)"
  by (auto simp: starts_with_def strip_prefix_Some_iff)

definition ends_with :: "string \<Rightarrow> string \<Rightarrow> bool" where
  "ends_with s p = (strip_suffix p s \<noteq> None)"

lemma ends_with_iff [str_simps]: "ends_with s p \<longleftrightarrow> (\<exists>r. s = r @ p)"
  by (auto simp: ends_with_def strip_suffix_Some_iff)

text \<open>\<open>str::contains\<close> for a string.\<close>

definition contains_str :: "string \<Rightarrow> string \<Rightarrow> bool" where
  "contains_str s needle = list_ex (\<lambda>i. starts_with (drop i s) needle) [0..<Suc (length s)]"

text \<open>\<open>str::split_once\<close> and \<open>str::rsplit_once\<close> on a one-byte separator.\<close>

fun split_once :: "char \<Rightarrow> string \<Rightarrow> (string \<times> string) option" where
  "split_once d [] = None"
| "split_once d (c # cs) =
     (if c = d then Some ([], cs)
      else case split_once d cs of None \<Rightarrow> None | Some (a, b) \<Rightarrow> Some (c # a, b))"

lemma split_once_Some_iff [str_simps]:
  "split_once d s = Some (a, b) \<longleftrightarrow> s = a @ d # b \<and> d \<notin> set a"
proof (induction s arbitrary: a b)
  case (Cons c cs)
  show ?case
  proof (cases "c = d")
    case False
    then have "split_once d (c # cs) = Some (a, b) \<longleftrightarrow>
        (\<exists>a'. a = c # a' \<and> split_once d cs = Some (a', b))"
      by (auto split: option.splits)
    with False show ?thesis
      by (auto simp: Cons.IH Cons_eq_append_conv)
  qed (auto simp: Cons_eq_append_conv)
qed simp

lemma split_once_None_iff [str_simps]: "split_once d s = None \<longleftrightarrow> d \<notin> set s"
  by (induction s) (auto split: option.splits)

definition rsplit_once :: "char \<Rightarrow> string \<Rightarrow> (string \<times> string) option" where
  "rsplit_once d s = map_option (\<lambda>(b, a). (rev a, rev b)) (split_once d (rev s))"

lemma rsplit_once_Some_iff [str_simps]:
  "rsplit_once d s = Some (a, b) \<longleftrightarrow> s = a @ d # b \<and> d \<notin> set b"
proof -
  have "rsplit_once d s = Some (a, b) \<longleftrightarrow> split_once d (rev s) = Some (rev b, rev a)"
    by (auto simp: rsplit_once_def)
  also have "\<dots> \<longleftrightarrow> rev s = rev (a @ d # b) \<and> d \<notin> set b"
    by (simp add: split_once_Some_iff)
  finally show ?thesis
    by (simp only: rev_is_rev_conv)
qed

lemma rsplit_once_None_iff [str_simps]: "rsplit_once d s = None \<longleftrightarrow> d \<notin> set s"
  by (simp add: rsplit_once_def split_once_None_iff)

text \<open>\<open>str::split\<close> on a one-byte separator: at least one piece, possibly empty.\<close>

fun split_on :: "char \<Rightarrow> string \<Rightarrow> string list" where
  "split_on d [] = [[]]"
| "split_on d (c # cs) =
     (if c = d then [] # split_on d cs
      else case split_on d cs of [] \<Rightarrow> [[c]] | p # ps \<Rightarrow> (c # p) # ps)"

lemma split_on_not_Nil [simp]: "split_on d s \<noteq> []"
  by (induction s) (auto split: list.splits)

lemma split_on_no_sep: "p \<in> set (split_on d s) \<Longrightarrow> d \<notin> set p"
proof (induction s arbitrary: p)
  case (Cons c cs)
  then show ?case
    by (cases "split_on d cs") (auto split: if_splits)
qed simp

lemma split_on_set: "p \<in> set (split_on d s) \<Longrightarrow> set p \<subseteq> set s"
proof (induction s arbitrary: p)
  case (Cons c cs)
  then show ?case
    by (cases "split_on d cs") (fastforce split: if_splits)+
qed simp

text \<open>\<open>str::lines\<close>: split at line feeds, no empty last line, a carriage return before the
  line feed removed.\<close>

definition strip_cr :: "string \<Rightarrow> string" where
  "strip_cr l = (if l \<noteq> [] \<and> last l = CHR 0x0D then butlast l else l)"

definition str_lines :: "string \<Rightarrow> string list" where
  "str_lines s =
     (let ls = split_on (CHR 0x0A) s
      in map strip_cr (butlast ls) @ (if last ls = [] then [] else [last ls]))"

text \<open>\<open>join\<close> with a separator.\<close>

fun join_with :: "string \<Rightarrow> string list \<Rightarrow> string" where
  "join_with sep [] = ''''"
| "join_with sep [s] = s"
| "join_with sep (s # ss) = s @ sep @ join_with sep ss"

text \<open>\<open>to_ascii_lowercase\<close> on one byte.\<close>

fun ascii_lower :: "char \<Rightarrow> char" where
  "ascii_lower c =
     (if 65 \<le> (of_char c :: nat) \<and> (of_char c :: nat) \<le> 90
      then char_of ((of_char c :: nat) + 32) else c)"

lemma ascii_lower_code:
  "of_char (ascii_lower c) =
    (if 65 \<le> (of_char c :: nat) \<and> (of_char c :: nat) \<le> 90 then of_char c + 32 else (of_char c :: nat))"
  by simp

section \<open>Trimming\<close>

text \<open>\<open>str::trim\<close> removes Unicode white space at both ends.  On UTF-8 bytes this
  is the repeated removal of one of the encodings below, at the front or (with the
  bytes reversed) at the back.\<close>

definition ws_seqs :: "string list" where
  "ws_seqs =
    [[CHR 0x20], [CHR 0x09], [CHR 0x0A], [CHR 0x0B], [CHR 0x0C], [CHR 0x0D],
     [CHR 0xC2, CHR 0x85], [CHR 0xC2, CHR 0xA0], [CHR 0xE1, CHR 0x9A, CHR 0x80],
     [CHR 0xE2, CHR 0x80, CHR 0x80], [CHR 0xE2, CHR 0x80, CHR 0x81],
     [CHR 0xE2, CHR 0x80, CHR 0x82], [CHR 0xE2, CHR 0x80, CHR 0x83],
     [CHR 0xE2, CHR 0x80, CHR 0x84], [CHR 0xE2, CHR 0x80, CHR 0x85],
     [CHR 0xE2, CHR 0x80, CHR 0x86], [CHR 0xE2, CHR 0x80, CHR 0x87],
     [CHR 0xE2, CHR 0x80, CHR 0x88], [CHR 0xE2, CHR 0x80, CHR 0x89],
     [CHR 0xE2, CHR 0x80, CHR 0x8A], [CHR 0xE2, CHR 0x80, CHR 0xA8],
     [CHR 0xE2, CHR 0x80, CHR 0xA9], [CHR 0xE2, CHR 0x80, CHR 0xAF],
     [CHR 0xE2, CHR 0x81, CHR 0x9F], [CHR 0xE3, CHR 0x80, CHR 0x80]]"

fun first_strip :: "string list \<Rightarrow> string \<Rightarrow> string option" where
  "first_strip [] s = None"
| "first_strip (w # ws) s =
     (case strip_prefix w s of
        Some r \<Rightarrow> if w = [] then first_strip ws s else Some r
      | None \<Rightarrow> first_strip ws s)"

lemma first_strip_shorter: "first_strip ws s = Some r \<Longrightarrow> length r < length s"
  by (induction ws) (auto simp: strip_prefix_Some_iff split: option.splits if_splits)

function strip_all :: "string list \<Rightarrow> string \<Rightarrow> string" where
  "strip_all ws s = (case first_strip ws s of None \<Rightarrow> s | Some r \<Rightarrow> strip_all ws r)"
  by pat_completeness auto
termination
  by (relation "measure (\<lambda>(ws, s). length s)") (auto dest: first_strip_shorter)

declare strip_all.simps [simp del]

definition trim :: "string \<Rightarrow> string" where
  "trim s = rev (strip_all (map rev ws_seqs) (rev (strip_all ws_seqs s)))"

lemma first_strip_None:
  "(\<And>w. w \<in> set ws \<Longrightarrow> hd w \<noteq> c) \<Longrightarrow> first_strip ws (c # s) = None"
proof (induction ws)
  case (Cons w ws)
  then have "hd w \<noteq> c"
    by simp
  with Cons show ?case
    by (cases w) (auto split: option.splits)
qed simp

lemma strip_all_id:
  assumes "\<And>w. w \<in> set ws \<Longrightarrow> hd w \<noteq> c"
  shows "strip_all ws (c # s) = c # s"
  using first_strip_None [OF assms] by (simp add: strip_all.simps)

text \<open>A string that starts and ends with printable ASCII is its own trim.\<close>

definition solid :: "char \<Rightarrow> bool" where
  "solid c = (0x20 < (of_char c :: nat) \<and> (of_char c :: nat) < 0x7F)"

lemma ws_seqs_hd: "w \<in> set ws_seqs \<Longrightarrow> \<not> solid (hd w)"
  by (auto simp: ws_seqs_def solid_def)

lemma ws_seqs_hd_rev: "w \<in> set (map rev ws_seqs) \<Longrightarrow> \<not> solid (hd w)"
  by (auto simp: ws_seqs_def solid_def)

lemma strip_ws_solid:
  "solid c \<Longrightarrow> strip_all ws_seqs (c # s) = c # s"
  "solid c \<Longrightarrow> strip_all (map rev ws_seqs) (c # s) = c # s"
  using ws_seqs_hd ws_seqs_hd_rev by (metis strip_all_id)+

lemma trim_solid:
  assumes "s \<noteq> []" "solid (hd s)" "solid (last s)"
  shows "trim s = s"
proof -
  have "strip_all ws_seqs s = s"
    using assms strip_ws_solid(1) by (cases s) auto
  moreover have "strip_all (map rev ws_seqs) (rev s) = rev s"
    using assms strip_ws_solid(2) by (cases s rule: rev_cases) auto
  ultimately show ?thesis
    by (simp add: trim_def)
qed

lemma trim_Nil [simp]: "trim [] = []"
  by (simp add: trim_def strip_all.simps ws_seqs_def)

section \<open>Association lists\<close>

lemma keys_update [simp]: "fst ` set (AList.update k v al) = insert k (fst ` set al)"
  using arg_cong [OF update_conv' [of k v al], of dom]
  by (simp add: dom_map_of_conv_image_fst)

lemma keys_delete [simp]: "fst ` set (AList.delete k al) = fst ` set al - {k}"
  using arg_cong [OF delete_conv' [of k al], of dom]
  by (simp add: dom_map_of_conv_image_fst)

lemma length_alist_update [simp]:
  "length (AList.update k v al) = (if k \<in> fst ` set al then length al else Suc (length al))"
  by (induction al) auto

lemma map_of_filter_snd:
  assumes "distinct (map fst xs)"
  shows "map_of (filter (\<lambda>(k, v). P v) xs) k =
         (case map_of xs k of Some v \<Rightarrow> if P v then Some v else None | None \<Rightarrow> None)"
  using assms
proof (induction xs)
  case (Cons x xs)
  then have "map_of xs (fst x) = None"
    by (simp add: map_of_eq_None_iff)
  with Cons show ?case
    by (cases x) (auto split: option.splits)
qed simp

section \<open>UTF-8\<close>

text \<open>A byte sequence that a Rust \<open>String\<close> can hold.\<close>

definition utf8_cont :: "char \<Rightarrow> bool" where
  "utf8_cont c = (0x80 \<le> (of_char c :: nat) \<and> (of_char c :: nat) \<le> 0xBF)"

definition utf8_within :: "nat \<Rightarrow> nat \<Rightarrow> char \<Rightarrow> bool" where
  "utf8_within lo hi c = (lo \<le> of_char c \<and> of_char c \<le> hi)"

fun utf8_valid :: "string \<Rightarrow> bool" where
  "utf8_valid [] = True"
| "utf8_valid (a # s) =
     (if (of_char a :: nat) < 0x80 then utf8_valid s
      else case s of
        [] \<Rightarrow> False
      | b # s' \<Rightarrow>
          if utf8_within 0xC2 0xDF a then utf8_cont b \<and> utf8_valid s'
          else case s' of
            [] \<Rightarrow> False
          | c # s'' \<Rightarrow>
              if utf8_within 0xE0 0xEF a
              then (if of_char a = (0xE0 :: nat) then utf8_within 0xA0 0xBF b
                    else if of_char a = (0xED :: nat) then utf8_within 0x80 0x9F b
                    else utf8_cont b) \<and> utf8_cont c \<and> utf8_valid s''
              else case s'' of
                [] \<Rightarrow> False
              | d # s''' \<Rightarrow>
                  utf8_within 0xF0 0xF4 a \<and>
                  (if of_char a = (0xF0 :: nat) then utf8_within 0x90 0xBF b
                   else if of_char a = (0xF4 :: nat) then utf8_within 0x80 0x8F b
                   else utf8_cont b) \<and> utf8_cont c \<and> utf8_cont d \<and> utf8_valid s''')"

text \<open>A slice \<open>&s[..n]\<close> of a string panics unless \<open>n\<close> is a boundary between characters.\<close>

definition is_char_boundary :: "string \<Rightarrow> nat \<Rightarrow> bool" where
  "is_char_boundary s n = (n = 0 \<or> n = length s \<or> (n < length s \<and> \<not> utf8_cont (s ! n)))"

definition slice_to :: "string \<Rightarrow> nat \<Rightarrow> string option" where
  "slice_to s n = (if is_char_boundary s n then Some (take n s) else None)"

definition ascii_string :: "string \<Rightarrow> bool" where
  "ascii_string s = list_all (\<lambda>c. (of_char c :: nat) < 0x80) s"

lemma utf8_valid_ascii: "ascii_string s \<Longrightarrow> utf8_valid s"
  by (induction s) (auto simp: ascii_string_def)

section \<open>White space and decimal numbers\<close>

text \<open>\<open>str::split_whitespace\<close>.\<close>

function split_ws :: "string \<Rightarrow> string \<Rightarrow> string list" where
  "split_ws cur s =
     (case first_strip ws_seqs s of
        Some r \<Rightarrow> (if cur = [] then [] else [rev cur]) @ split_ws [] r
      | None \<Rightarrow> (case s of
            [] \<Rightarrow> if cur = [] then [] else [rev cur]
          | c # cs \<Rightarrow> split_ws (c # cur) cs))"
  by pat_completeness auto
termination
  by (relation "measure (\<lambda>(cur, s). length s)") (auto dest: first_strip_shorter)

declare split_ws.simps [simp del]

definition split_whitespace :: "string \<Rightarrow> string list" where
  "split_whitespace s = split_ws [] s"

lemma split_ws_solid:
  assumes "solid c"
  shows "split_ws cur (c # s) = split_ws (c # cur) s"
proof -
  have "first_strip ws_seqs (c # s) = None"
    by (rule first_strip_None) (use assms ws_seqs_hd in blast)
  then show ?thesis
    by (simp add: split_ws.simps [of cur "c # s"])
qed

lemma split_ws_blank:
  "split_ws cur (CHR '' '' # s) = (if cur = [] then [] else [rev cur]) @ split_ws [] s"
  "split_ws cur (CHR 0x0D # s) = (if cur = [] then [] else [rev cur]) @ split_ws [] s"
  "split_ws cur (CHR 0x0A # s) = (if cur = [] then [] else [rev cur]) @ split_ws [] s"
  "split_ws cur [] = (if cur = [] then [] else [rev cur])"
  by (subst split_ws.simps, simp add: ws_seqs_def)+

text \<open>Printing and parsing of unsigned numbers; \<open>parse\<close> takes an optional plus sign and
  fails on an empty string, on a non-digit and above the type's maximum \<open>mx\<close>.\<close>

definition digit_char :: "nat \<Rightarrow> char" where
  "digit_char n = char_of (48 + n)"

fun show_nat :: "nat \<Rightarrow> string" where
  "show_nat n = (if n < 10 then [digit_char n] else show_nat (n div 10) @ [digit_char (n mod 10)])"

declare show_nat.simps [simp del]

lemma digit_char_lit:
  "digit_char 0 = CHR ''0''" "digit_char (Suc 0) = CHR ''1''" "digit_char 1 = CHR ''1''"
  "digit_char 2 = CHR ''2''" "digit_char 3 = CHR ''3''" "digit_char 4 = CHR ''4''"
  "digit_char 5 = CHR ''5''" "digit_char 6 = CHR ''6''" "digit_char 7 = CHR ''7''"
  "digit_char 8 = CHR ''8''" "digit_char 9 = CHR ''9''"
  by (simp_all add: digit_char_def char_of_eq_iff)

lemmas show_nat_eval = show_nat.simps digit_char_lit

definition digit_val :: "char \<Rightarrow> nat option" where
  "digit_val c = (let n = of_char c :: nat in if 48 \<le> n \<and> n \<le> 57 then Some (n - 48) else None)"

fun digits_val :: "nat \<Rightarrow> nat \<Rightarrow> string \<Rightarrow> nat option" where
  "digits_val mx acc [] = Some acc"
| "digits_val mx acc (c # cs) =
     (case digit_val c of
        None \<Rightarrow> None
      | Some d \<Rightarrow> if acc * 10 + d \<le> mx then digits_val mx (acc * 10 + d) cs else None)"

definition parse_unsigned :: "nat \<Rightarrow> string \<Rightarrow> nat option" where
  "parse_unsigned mx s =
     (let t = (case s of c # cs \<Rightarrow> if c = CHR ''+'' then cs else s | [] \<Rightarrow> s)
      in if t = [] then None else digits_val mx 0 t)"

lemma digit_val_char [simp]: "n < 10 \<Longrightarrow> digit_val (digit_char n) = Some n"
  by (simp add: digit_val_def digit_char_def)

lemma digits_val_append:
  "digits_val mx acc (s @ t) =
     (case digits_val mx acc s of None \<Rightarrow> None | Some a \<Rightarrow> digits_val mx a t)"
  by (induction mx acc s rule: digits_val.induct) (auto split: option.splits)

lemma digits_val_show:
  "n \<le> mx \<Longrightarrow> digits_val mx 0 (show_nat n) = Some n"
proof (induction n rule: show_nat.induct)
  case (1 n)
  show ?case
  proof (cases "n < 10")
    case True
    then show ?thesis
      using 1 by (simp add: show_nat.simps [of n])
  next
    case False
    then have "digits_val mx 0 (show_nat (n div 10)) = Some (n div 10)"
      using 1 by simp
    moreover have "n div 10 * 10 + n mod 10 = n"
      by simp
    ultimately show ?thesis
      using False 1 by (simp add: show_nat.simps [of n] digits_val_append)
  qed
qed

lemma digit_char_cases: "n < 10 \<Longrightarrow> 48 \<le> (of_char (digit_char n) :: nat) \<and> (of_char (digit_char n) :: nat) \<le> 57"
  by (simp add: digit_char_def)

lemma show_nat_digits: "c \<in> set (show_nat n) \<Longrightarrow> 48 \<le> (of_char c :: nat) \<and> (of_char c :: nat) \<le> 57"
proof (induction n rule: show_nat.induct)
  case (1 n)
  then show ?case
    using digit_char_cases [of "n mod 10"] digit_char_cases [of n]
    by (cases "n < 10") (auto simp: show_nat.simps [of n])
qed

lemma show_nat_not_Nil [simp]: "show_nat n \<noteq> []"
  by (subst show_nat.simps) simp

lemma parse_show_nat:
  assumes "n \<le> mx"
  shows "parse_unsigned mx (show_nat n) = Some n"
proof -
  obtain c cs where s: "show_nat n = c # cs"
    by (cases "show_nat n") auto
  then have "c \<noteq> CHR ''+''"
    using show_nat_digits [of c n] by auto
  then show ?thesis
    using s digits_val_show [OF assms] by (simp add: parse_unsigned_def)
qed

lemma digits_val_bound: "digits_val mx acc s = Some n \<Longrightarrow> acc \<le> mx \<Longrightarrow> n \<le> mx"
  by (induction mx acc s rule: digits_val.induct) (auto split: option.splits if_splits)

lemma parse_unsigned_bound: "parse_unsigned mx s = Some n \<Longrightarrow> n \<le> mx"
  using digits_val_bound [of mx 0] by (auto simp: parse_unsigned_def Let_def split: if_splits list.splits)

end
