(* ===== verification/Phantom_Token.thy ===== *)
theory Phantom_Token
  imports Prelude
begin

text \<open>
  Phantom tokens and their metadata (\<open>agentjail-phantom/src/token.rs\<close>): the token
  syntax \<open>phm_<64 hex>\<close> with its parser and printer, the path globs and scopes,
  and the record a token resolves to.  The hex decoder of the \<open>hex\<close> crate is the
  parameter \<open>dec\<close>; \<open>hex_decodes dec\<close> states what its documentation promises.
\<close>

section \<open>Services\<close>

datatype service_id = OpenAi | Anthropic | GitHub | Stripe

fun service_name :: "service_id \<Rightarrow> string" where
  "service_name OpenAi = ''openai''"
| "service_name Anthropic = ''anthropic''"
| "service_name GitHub = ''github''"
| "service_name Stripe = ''stripe''"

lemma service_name_inj [simp]: "service_name a = service_name b \<longleftrightarrow> a = b"
  by (cases a; cases b) auto

section \<open>Token syntax\<close>

type_synonym phantom_token = "byte list"

definition TOKEN_PREFIX :: string where
  "TOKEN_PREFIX = ''phm_''"

definition TOKEN_HEX_LEN :: nat where
  "TOKEN_HEX_LEN = 64"

definition token_wf :: "phantom_token \<Rightarrow> bool" where
  "token_wf t = (length t = 32)"

definition hex_digit :: "nat \<Rightarrow> char" where
  "hex_digit n = ''0123456789abcdef'' ! n"

text \<open>The formatter \<open>{b:02x}\<close>.\<close>

definition hex_of_byte :: "byte \<Rightarrow> string" where
  "hex_of_byte b = [hex_digit (unat b div 16), hex_digit (unat b mod 16)]"

definition token_display :: "phantom_token \<Rightarrow> string" where
  "token_display t = TOKEN_PREFIX @ concat (map hex_of_byte t)"

text \<open>\<open>PhantomToken::parse\<close>: trim, an optional \<open>Bearer \<close>, trim again, the prefix,
  64 hex digits.\<close>

definition token_parse :: "(string \<Rightarrow> byte list option) \<Rightarrow> string \<Rightarrow> phantom_token option" where
  "token_parse dec raw =
     (let s = trim raw;
          s = trim (case strip_prefix ''Bearer '' s of Some r \<Rightarrow> r | None \<Rightarrow> s)
      in case strip_prefix TOKEN_PREFIX s of
           None \<Rightarrow> None
         | Some hex_part \<Rightarrow>
             if length hex_part \<noteq> TOKEN_HEX_LEN then None else dec hex_part)"

definition ct_eq :: "phantom_token \<Rightarrow> phantom_token \<Rightarrow> bool" where
  "ct_eq a b = (a = b)"

text \<open>What \<open>hex::decode_to_slice\<close> documents: it accepts exactly the hex digits, two
  per byte, in either case.\<close>

definition hex_decodes :: "(string \<Rightarrow> byte list option) \<Rightarrow> bool" where
  "hex_decodes dec =
     (\<forall>s bs. dec s = Some bs \<longleftrightarrow> map ascii_lower s = concat (map hex_of_byte bs))"

lemma hex_digit_cases:
  assumes "n < 16"
  shows "hex_digit n \<in> set ''0123456789abcdef''"
  using assms unfolding hex_digit_def by (intro nth_mem) simp

lemma hex_digit_solid: "n < 16 \<Longrightarrow> solid (hex_digit n)"
  using hex_digit_cases [of n] by (auto simp: solid_def)

lemma hex_digit_lower: "n < 16 \<Longrightarrow> ascii_lower (hex_digit n) = hex_digit n"
  using hex_digit_cases [of n] by auto

lemma byte_nibbles [simp]:
  "unat (b :: byte) div 16 < 16" "unat (b :: byte) mod 16 < 16"
  using unsigned_less [of b, where ?'a = nat] by (auto simp: less_mult_imp_div_less)

lemma length_hex [simp]: "length (concat (map hex_of_byte bs)) = 2 * length bs"
  by (induction bs) (auto simp: hex_of_byte_def)

lemma hex_lower [simp]:
  "map ascii_lower (concat (map hex_of_byte bs)) = concat (map hex_of_byte bs)"
  by (induction bs) (auto simp: hex_of_byte_def hex_digit_lower simp del: ascii_lower.simps)

lemma hex_decodes_encode: "hex_decodes dec \<Longrightarrow> dec (concat (map hex_of_byte bs)) = Some bs"
  by (simp add: hex_decodes_def del: ascii_lower.simps)

lemma hex_decodes_length: "hex_decodes dec \<Longrightarrow> dec s = Some bs \<Longrightarrow> length s = 2 * length bs"
  by (metis hex_decodes_def length_hex length_map)

lemma token_display_solid:
  assumes "t \<noteq> []"
  shows "trim (token_display t) = token_display t"
proof (rule trim_solid)
  obtain bs b where "t = bs @ [b]"
    using assms by (cases t rule: rev_cases) auto
  then have "last (token_display t) = hex_digit (unat b mod 16)"
    by (simp add: token_display_def hex_of_byte_def)
  then show "solid (last (token_display t))"
    by (simp add: hex_digit_solid)
qed (simp_all add: token_display_def TOKEN_PREFIX_def solid_def)

lemma token_display_not_bearer:
  "strip_prefix ''Bearer '' (token_display t) = None"
  by (simp add: token_display_def TOKEN_PREFIX_def)

lemma trim_bearer:
  assumes "t \<noteq> []"
  shows "trim (''Bearer '' @ token_display t) = ''Bearer '' @ token_display t"
proof (rule trim_solid)
  have "token_display t \<noteq> []"
    by (simp add: token_display_def TOKEN_PREFIX_def)
  moreover obtain bs b where "t = bs @ [b]"
    using assms by (cases t rule: rev_cases) auto
  then have "last (token_display t) = hex_digit (unat b mod 16)"
    by (simp add: token_display_def hex_of_byte_def)
  ultimately show "solid (last (''Bearer '' @ token_display t))"
    by (simp add: hex_digit_solid)
qed (simp_all add: solid_def)

lemma token_parse_core:
  assumes "hex_decodes dec" "token_wf t"
  shows "strip_prefix TOKEN_PREFIX (token_display t) = Some (concat (map hex_of_byte t))"
    and "dec (concat (map hex_of_byte t)) = Some t"
    and "length (concat (map hex_of_byte t)) = TOKEN_HEX_LEN"
  using assms
  by (simp_all add: token_display_def hex_decodes_encode token_wf_def TOKEN_HEX_LEN_def)

lemma token_wf_not_Nil: "token_wf t \<Longrightarrow> t \<noteq> []"
  by (auto simp: token_wf_def)

lemma token_parse_bare:
  assumes "hex_decodes dec" "token_wf t"
  shows "token_parse dec (token_display t) = Some t"
  unfolding token_parse_def Let_def
  by (simp only: token_display_solid [OF token_wf_not_Nil [OF assms(2)]] token_display_not_bearer
        token_parse_core [OF assms] option.case simp_thms if_False)

lemma token_parse_bearer:
  assumes "hex_decodes dec" "token_wf t"
  shows "token_parse dec (''Bearer '' @ token_display t) = Some t"
  unfolding token_parse_def Let_def
  by (simp only: trim_bearer [OF token_wf_not_Nil [OF assms(2)]] strip_prefix_append
        token_display_solid [OF token_wf_not_Nil [OF assms(2)]]
        token_parse_core [OF assms] option.case simp_thms if_False)

text \<open>Every accepted string is a decorated rendering, up to the case of the digits,
  of the token it parses to.\<close>

lemma token_parse_wf:
  assumes "hex_decodes dec" "token_parse dec raw = Some t"
  shows "token_wf t"
  using assms hex_decodes_length [OF assms(1)]
  by (auto simp: token_parse_def Let_def token_wf_def TOKEN_HEX_LEN_def
           split: option.splits if_splits)

section \<open>A concrete decoder\<close>

text \<open>An executable decoder with the documented behaviour, the instance of \<open>dec\<close>
  that the concrete evaluations use.\<close>

definition hex_val :: "char \<Rightarrow> nat option" where
  "hex_val c = (let n = of_char c :: nat in
     if 48 \<le> n \<and> n \<le> 57 then Some (n - 48)
     else if 97 \<le> n \<and> n \<le> 102 then Some (n - 87)
     else if 65 \<le> n \<and> n \<le> 70 then Some (n - 55) else None)"

definition byte_of :: "nat \<Rightarrow> nat \<Rightarrow> byte" where
  "byte_of a b = word_of_nat (16 * a + b)"

fun hex_decode :: "string \<Rightarrow> byte list option" where
  "hex_decode [] = Some []"
| "hex_decode [c] = None"
| "hex_decode (h # l # cs) =
     (case (hex_val h, hex_val l, hex_decode cs) of
        (Some a, Some b, Some bs) \<Rightarrow> Some (byte_of a b # bs)
      | _ \<Rightarrow> None)"

lemma hex_digit_code:
  assumes "n < 16"
  shows "of_char (hex_digit n) = (if n < 10 then 48 + n else 87 + n)"
proof -
  have "\<forall>n\<in>set [0..<16]. of_char (hex_digit n) = (if n < 10 then 48 + n else 87 + n)"
    by code_simp
  with assms show ?thesis
    by simp
qed

lemma hex_val_spec: "hex_val c = Some n \<longleftrightarrow> n < 16 \<and> ascii_lower c = hex_digit n"
proof (cases "n < 16")
  case True
  have "ascii_lower c = hex_digit n \<longleftrightarrow> (of_char (ascii_lower c) :: nat) = of_char (hex_digit n)"
    by simp
  with True show ?thesis
    by (auto simp: hex_val_def Let_def ascii_lower_code hex_digit_code
             simp del: ascii_lower.simps of_char_eq_iff)
next
  case False
  then show ?thesis
    by (auto simp: hex_val_def Let_def)
qed

lemma unat_byte_of:
  assumes "a < 16" "b < 16"
  shows "unat (byte_of a b) = 16 * a + b"
proof -
  have "16 * a + b < 256"
    using assms by linarith
  then show ?thesis
    unfolding byte_of_def by (simp only: unsigned_of_nat take_bit_eq_mod) simp
qed

lemma div_mod_16: "b < 16 \<Longrightarrow> 16 * a + b = (n :: nat) \<longleftrightarrow> a = n div 16 \<and> b = n mod 16"
  by auto

lemma nibbles_of_byte:
  assumes "a < 16" "b < 16"
  shows "byte_of a b = w \<longleftrightarrow> a = unat w div 16 \<and> b = unat w mod 16"
proof -
  have "byte_of a b = w \<longleftrightarrow> unat (byte_of a b) = unat w"
    by (rule word_eq_iff_unsigned)
  also have "\<dots> \<longleftrightarrow> 16 * a + b = unat w"
    using unat_byte_of [OF assms] by simp
  also have "\<dots> \<longleftrightarrow> a = unat w div 16 \<and> b = unat w mod 16"
    by (rule div_mod_16 [OF assms(2)])
  finally show ?thesis .
qed

lemma hex_val_nibbles:
  "(\<exists>a b. hex_val h = Some a \<and> hex_val l = Some b \<and> byte_of a b = w) \<longleftrightarrow>
   ascii_lower h = hex_digit (unat w div 16) \<and> ascii_lower l = hex_digit (unat w mod 16)"
  (is "?L = ?R")
proof
  assume ?L
  then obtain a b where "hex_val h = Some a" "hex_val l = Some b" "byte_of a b = w"
    by blast
  moreover from this have "a = unat w div 16 \<and> b = unat w mod 16"
    by (simp add: hex_val_spec nibbles_of_byte del: ascii_lower.simps)
  ultimately show ?R
    by (simp add: hex_val_spec del: ascii_lower.simps)
next
  assume ?R
  then have "hex_val h = Some (unat w div 16)" "hex_val l = Some (unat w mod 16)"
    by (simp_all add: hex_val_spec del: ascii_lower.simps)
  moreover have "byte_of (unat w div 16) (unat w mod 16) = w"
    by (simp add: nibbles_of_byte)
  ultimately show ?L
    by blast
qed

lemma hex_decode_decodes: "hex_decodes hex_decode"
proof -
  have "hex_decode s = Some bs \<longleftrightarrow> map ascii_lower s = concat (map hex_of_byte bs)" for s bs
  proof (induction s arbitrary: bs rule: hex_decode.induct)
    case 1
    then show ?case
      by (cases bs) (auto simp: hex_of_byte_def)
  next
    case (2 c)
    then show ?case
      by (cases bs) (auto simp: hex_of_byte_def)
  next
    case (3 h l cs)
    show ?case
    proof (cases bs)
      case (Cons w ws)
      have "hex_decode (h # l # cs) = Some bs \<longleftrightarrow>
          (\<exists>a b. hex_val h = Some a \<and> hex_val l = Some b \<and> byte_of a b = w) \<and>
          hex_decode cs = Some ws"
        by (auto simp: Cons split: option.splits)
      also have "\<dots> \<longleftrightarrow> ascii_lower h = hex_digit (unat w div 16) \<and>
          ascii_lower l = hex_digit (unat w mod 16) \<and> hex_decode cs = Some ws"
        by (simp only: hex_val_nibbles simp_thms conj_assoc)
      finally show ?thesis
        by (simp add: Cons "3.IH" hex_of_byte_def del: ascii_lower.simps)
    qed (auto split: option.splits)
  qed
  then show ?thesis
    by (simp add: hex_decodes_def)
qed

section \<open>Scopes and token records\<close>

datatype path_glob = PathGlob (pattern: string)

definition glob_matches :: "path_glob \<Rightarrow> string \<Rightarrow> bool" where
  "glob_matches g path =
     (case strip_suffix ''*'' (pattern g) of
        Some pre \<Rightarrow> starts_with path pre
      | None \<Rightarrow> path = pattern g)"

datatype scope = Scope (allowed_paths: "path_glob list")

definition scope_any :: scope where
  "scope_any = Scope []"

definition allows_path :: "scope \<Rightarrow> string \<Rightarrow> bool" where
  "allows_path sc path =
     (allowed_paths sc = [] \<or> list_ex (\<lambda>g. glob_matches g path) (allowed_paths sc))"

text \<open>Wall-clock times and durations are counts of nanoseconds.\<close>

type_synonym time = nat

record token_record =
  tr_session_id :: string
  tr_tenant_id :: string
  tr_service :: service_id
  tr_scope :: scope
  tr_expires_at :: "time option"

definition is_expired :: "token_record \<Rightarrow> time \<Rightarrow> bool" where
  "is_expired r now = (case tr_expires_at r of None \<Rightarrow> False | Some e \<Rightarrow> e \<le> now)"

lemma glob_literal:
  "\<not> ends_with p ''*'' \<Longrightarrow> glob_matches (PathGlob p) path \<longleftrightarrow> path = p"
  by (auto simp: glob_matches_def ends_with_def)

lemma glob_star:
  "glob_matches (PathGlob (p @ ''*'')) path \<longleftrightarrow> (\<exists>r. path = p @ r)"
  by (simp add: glob_matches_def starts_with_iff)

lemma scope_any_allows [simp]: "allows_path scope_any path"
  by (simp add: allows_path_def scope_any_def)

section \<open>Properties\<close>

text \<open>A token survives printing and parsing: the rendering of a 32-byte token, bare
  or behind \<open>Bearer \<close>, parses back to that token.\<close>

theorem token_parse_display:
  assumes "hex_decodes dec" "token_wf t"
  shows "token_parse dec (token_display t) = Some t \<and>
         token_parse dec (''Bearer '' @ token_display t) = Some t"
  using token_parse_bare [OF assms] token_parse_bearer [OF assms] ..

theorem token_parse_display_witness:
  "token_parse hex_decode (token_display (replicate 32 0xAB)) = Some (replicate 32 0xAB) \<and>
   token_parse hex_decode (''Bearer '' @ token_display (replicate 32 0xAB)) = Some (replicate 32 0xAB)"
  using token_parse_display [OF hex_decode_decodes, of "replicate 32 0xAB"]
  by (simp add: token_wf_def)

end
