(* ===== verification/Token_Store.thy ===== *)
theory Token_Store
  imports Phantom_Token
begin

text \<open>
  Token storage (\<open>agentjail-phantom/src/token.rs\<close>): the trait \<open>TokenStore\<close> as a
  record of operations with its contract as a locale, the in-memory store, and the
  bounded cache \<open>LruTokenCache\<close> around any store.  A token drawn from the operating
  system's random generator is an argument of \<open>issue\<close>, and so is the clock.  The
  \<open>HashMap\<close> of the in-memory store is a partial map; the cache, whose length the code
  reads, keeps its entries in an association list.
\<close>

section \<open>The trait\<close>

record 's token_ops =
  ts_issue :: "time \<Rightarrow> phantom_token \<Rightarrow> string \<Rightarrow> string \<Rightarrow> service_id \<Rightarrow> scope
               \<Rightarrow> time option \<Rightarrow> 's \<Rightarrow> phantom_token \<times> 's"
  ts_lookup :: "time \<Rightarrow> phantom_token \<Rightarrow> 's \<Rightarrow> token_record option \<times> 's"
  ts_revoke :: "phantom_token \<Rightarrow> 's \<Rightarrow> 's"
  ts_revoke_session :: "string \<Rightarrow> 's \<Rightarrow> 's"

definition mk_token_record ::
  "time \<Rightarrow> string \<Rightarrow> string \<Rightarrow> service_id \<Rightarrow> scope \<Rightarrow> time option \<Rightarrow> token_record" where
  "mk_token_record now session_id tenant_id service scope ttl =
     \<lparr>tr_session_id = session_id, tr_tenant_id = tenant_id, tr_service = service,
      tr_scope = scope, tr_expires_at = map_option (\<lambda>d. now + d) ttl\<rparr>"

type_synonym token_map = "phantom_token \<rightharpoonup> token_record"

definition retain_sessions :: "string \<Rightarrow> token_map \<Rightarrow> token_map" where
  "retain_sessions sid m t =
     (case m t of Some r \<Rightarrow> if tr_session_id r \<noteq> sid then Some r else None | None \<Rightarrow> None)"

lemma retain_sessions_Some [store_simps]:
  "retain_sessions sid m t = Some r \<longleftrightarrow> m t = Some r \<and> tr_session_id r \<noteq> sid"
  by (auto simp: retain_sessions_def split: option.splits)

lemma retain_sessions_None [store_simps]:
  "retain_sessions sid m t = None \<longleftrightarrow> (\<forall>r. m t = Some r \<longrightarrow> tr_session_id r = sid)"
  by (auto simp: retain_sessions_def split: option.splits)

section \<open>In-memory store\<close>

definition mem_issue ::
  "time \<Rightarrow> phantom_token \<Rightarrow> string \<Rightarrow> string \<Rightarrow> service_id \<Rightarrow> scope \<Rightarrow> time option
   \<Rightarrow> token_map \<Rightarrow> phantom_token \<times> token_map" where
  "mem_issue now gen session_id tenant_id service scope ttl st =
     (gen, st(gen \<mapsto> mk_token_record now session_id tenant_id service scope ttl))"

definition mem_lookup ::
  "time \<Rightarrow> phantom_token \<Rightarrow> token_map \<Rightarrow> token_record option \<times> token_map" where
  "mem_lookup now token st =
     (case st token of
        None \<Rightarrow> (None, st)
      | Some rec \<Rightarrow> if is_expired rec now then (None, st) else (Some rec, st))"

definition mem_revoke :: "phantom_token \<Rightarrow> token_map \<Rightarrow> token_map" where
  "mem_revoke token st = st(token := None)"

definition mem_revoke_session :: "string \<Rightarrow> token_map \<Rightarrow> token_map" where
  "mem_revoke_session session_id st = retain_sessions session_id st"

definition mem_ops :: "token_map token_ops" where
  "mem_ops = \<lparr>ts_issue = mem_issue, ts_lookup = mem_lookup, ts_revoke = mem_revoke,
              ts_revoke_session = mem_revoke_session\<rparr>"

section \<open>The cache\<close>

record lru_inner =
  lru_map :: "(phantom_token \<times> token_record) list"
  lru_order :: "phantom_token list"

definition lru_inner_new :: lru_inner where
  "lru_inner_new = \<lparr>lru_map = [], lru_order = []\<rparr>"

fun lru_evict :: "nat \<Rightarrow> (phantom_token \<times> token_record) list \<Rightarrow> phantom_token list \<Rightarrow> lru_inner" where
  "lru_evict cap m [] = \<lparr>lru_map = m, lru_order = []\<rparr>"
| "lru_evict cap m (k # ks) =
     (if cap < length m then lru_evict cap (AList.delete k m) ks
      else \<lparr>lru_map = m, lru_order = k # ks\<rparr>)"

definition lru_put :: "phantom_token \<Rightarrow> token_record \<Rightarrow> nat \<Rightarrow> lru_inner \<Rightarrow> lru_inner" where
  "lru_put key rec cap c =
     (let m = AList.update key rec (lru_map c);
          ord = (if map_of (lru_map c) key = None then lru_order c @ [key] else lru_order c)
      in lru_evict cap m ord)"

definition lru_remove :: "phantom_token \<Rightarrow> lru_inner \<Rightarrow> lru_inner" where
  "lru_remove key c = c\<lparr>lru_map := AList.delete key (lru_map c)\<rparr>"

definition lru_clear_session :: "string \<Rightarrow> lru_inner \<Rightarrow> lru_inner" where
  "lru_clear_session sid c =
     c\<lparr>lru_map := filter (\<lambda>(k, rec). tr_session_id rec \<noteq> sid) (lru_map c)\<rparr>"

record 's lru_token_cache =
  lc_inner :: 's
  lc_cache :: lru_inner
  lc_capacity :: nat

definition lru_new :: "'s \<Rightarrow> nat \<Rightarrow> 's lru_token_cache" where
  "lru_new inner capacity =
     \<lparr>lc_inner = inner, lc_cache = lru_inner_new, lc_capacity = max capacity 1\<rparr>"

definition lru_issue ::
  "'s token_ops \<Rightarrow> time \<Rightarrow> phantom_token \<Rightarrow> string \<Rightarrow> string \<Rightarrow> service_id \<Rightarrow> scope
   \<Rightarrow> time option \<Rightarrow> 's lru_token_cache \<Rightarrow> phantom_token \<times> 's lru_token_cache" where
  "lru_issue ops now gen session_id tenant_id service scope ttl c =
     (let (token, st) = ts_issue ops now gen session_id tenant_id service scope ttl (lc_inner c);
          (found, st) = ts_lookup ops now token st;
          c = c\<lparr>lc_inner := st\<rparr>
      in (token,
          case found of
            Some rec \<Rightarrow> c\<lparr>lc_cache := lru_put token rec (lc_capacity c) (lc_cache c)\<rparr>
          | None \<Rightarrow> c))"

text \<open>A lookup takes the cache lock twice: a read of the cache, then (on a miss, after
  the inner store has answered) a write that fills it.\<close>

definition lru_lookup_hit :: "phantom_token \<Rightarrow> 's lru_token_cache \<Rightarrow> token_record option" where
  "lru_lookup_hit token c = map_of (lru_map (lc_cache c)) token"

definition lru_lookup_fill ::
  "phantom_token \<Rightarrow> token_record \<Rightarrow> 's lru_token_cache \<Rightarrow> 's lru_token_cache" where
  "lru_lookup_fill token rec c = c\<lparr>lc_cache := lru_put token rec (lc_capacity c) (lc_cache c)\<rparr>"

definition lru_lookup ::
  "'s token_ops \<Rightarrow> time \<Rightarrow> phantom_token \<Rightarrow> 's lru_token_cache
   \<Rightarrow> token_record option \<times> 's lru_token_cache" where
  "lru_lookup ops now token c =
     (case lru_lookup_hit token c of
        Some rec \<Rightarrow> (Some rec, c)
      | None \<Rightarrow>
          (let (found, st) = ts_lookup ops now token (lc_inner c);
               c = c\<lparr>lc_inner := st\<rparr>
           in case found of
                None \<Rightarrow> (None, c)
              | Some rec \<Rightarrow> (Some rec, lru_lookup_fill token rec c)))"

definition lru_revoke :: "'s token_ops \<Rightarrow> phantom_token \<Rightarrow> 's lru_token_cache \<Rightarrow> 's lru_token_cache" where
  "lru_revoke ops token c =
     c\<lparr>lc_inner := ts_revoke ops token (lc_inner c), lc_cache := lru_remove token (lc_cache c)\<rparr>"

definition lru_revoke_session :: "'s token_ops \<Rightarrow> string \<Rightarrow> 's lru_token_cache \<Rightarrow> 's lru_token_cache" where
  "lru_revoke_session ops sid c =
     c\<lparr>lc_inner := ts_revoke_session ops sid (lc_inner c),
       lc_cache := lru_clear_session sid (lc_cache c)\<rparr>"

definition lru_ops :: "'s token_ops \<Rightarrow> 's lru_token_cache token_ops" where
  "lru_ops ops = \<lparr>ts_issue = lru_issue ops, ts_lookup = lru_lookup ops, ts_revoke = lru_revoke ops,
                  ts_revoke_session = lru_revoke_session ops\<rparr>"

section \<open>Sequences of operations\<close>

datatype token_op =
    OpIssue time phantom_token string string service_id scope "time option"
  | OpLookup time phantom_token
  | OpRevoke phantom_token
  | OpRevokeSession string

fun token_step :: "'s token_ops \<Rightarrow> token_op \<Rightarrow> 's \<Rightarrow> 's" where
  "token_step ops (OpIssue now g se te sv sc ttl) s = snd (ts_issue ops now g se te sv sc ttl s)"
| "token_step ops (OpLookup now t) s = snd (ts_lookup ops now t s)"
| "token_step ops (OpRevoke t) s = ts_revoke ops t s"
| "token_step ops (OpRevokeSession sid) s = ts_revoke_session ops sid s"

fun token_run :: "'s token_ops \<Rightarrow> token_op list \<Rightarrow> 's \<Rightarrow> 's" where
  "token_run ops [] s = s"
| "token_run ops (x # xs) s = token_run ops xs (token_step ops x s)"

fun issues :: "token_op list \<Rightarrow> phantom_token list" where
  "issues [] = []"
| "issues (OpIssue now g se te sv sc ttl # xs) = g # issues xs"
| "issues (x # xs) = issues xs"

section \<open>The contract\<close>

text \<open>\<open>token_store\<close> is what both stores promise, seen through the map from tokens to
  records; \<open>strict_token_store\<close> adds the trait's documented promise that an expired
  token is not found.  Issued tokens are fresh: they are 256 random bits.\<close>

locale token_store =
  fixes ops :: "'s token_ops"
    and view :: "'s \<Rightarrow> token_map"
    and ok :: "'s \<Rightarrow> bool"
  assumes issue_law: "ok s \<Longrightarrow> view s g = None \<Longrightarrow> ts_issue ops now g se te sv sc ttl s = (t, s') \<Longrightarrow>
            t = g \<and> ok s' \<and> view s' = (view s)(g \<mapsto> mk_token_record now se te sv sc ttl)"
    and lookup_law: "ok s \<Longrightarrow> ts_lookup ops now t s = (res, s') \<Longrightarrow> ok s' \<and> view s' = view s"
    and lookup_sound: "ok s \<Longrightarrow> ts_lookup ops now t s = (Some r, s') \<Longrightarrow> view s t = Some r"
    and lookup_live: "ok s \<Longrightarrow> view s t = Some r \<Longrightarrow> \<not> is_expired r now \<Longrightarrow>
            fst (ts_lookup ops now t s) = Some r"
    and revoke_law: "ok s \<Longrightarrow> ok (ts_revoke ops t s) \<and> view (ts_revoke ops t s) = (view s)(t := None)"
    and revoke_session_law: "ok s \<Longrightarrow> ok (ts_revoke_session ops sid s) \<and>
            view (ts_revoke_session ops sid s) = retain_sessions sid (view s)"
begin

lemma lookup_absent:
  assumes "ok s" "view s t = None"
  shows "fst (ts_lookup ops now t s) = None"
proof (cases "ts_lookup ops now t s")
  case (Pair r s')
  then show ?thesis
    using assms lookup_sound [OF assms(1)] by (cases r) fastforce+
qed

lemma revoked_absent: "ok s \<Longrightarrow> fst (ts_lookup ops now t (ts_revoke ops t s)) = None"
  using revoke_law lookup_absent by simp

lemma issued_found:
  assumes "ok s" "view s g = None" "ts_issue ops now g se te sv sc ttl s = (t, s')"
    "\<not> is_expired (mk_token_record now se te sv sc ttl) later"
  shows "fst (ts_lookup ops later t s') = Some (mk_token_record now se te sv sc ttl)"
  using issue_law [OF assms(1-3)] lookup_live assms(4) by simp

text \<open>A step keeps the invariant and never brings an absent token back, unless it
  issues that token.\<close>

lemma step_absent:
  assumes "ok s" "view s t = None" "t \<notin> set (issues [x])"
    "\<And>g. g \<in> set (issues [x]) \<Longrightarrow> view s g = None"
  shows "ok (token_step ops x s) \<and> view (token_step ops x s) t = None"
proof (cases x)
  case (OpIssue now g se te sv sc ttl)
  obtain t' s' where eq: "ts_issue ops now g se te sv sc ttl s = (t', s')"
    by (cases "ts_issue ops now g se te sv sc ttl s")
  have "view s g = None" "t \<noteq> g"
    using assms(3,4) OpIssue by auto
  then show ?thesis
    using issue_law [OF assms(1) _ eq] assms(2) eq OpIssue by simp
next
  case (OpLookup now u)
  obtain r s' where eq: "ts_lookup ops now u s = (r, s')"
    by (cases "ts_lookup ops now u s")
  then show ?thesis
    using lookup_law [OF assms(1) eq] assms(2) OpLookup by simp
next
  case (OpRevoke u)
  then show ?thesis
    using revoke_law [OF assms(1)] assms by auto
next
  case (OpRevokeSession sid)
  then show ?thesis
    using revoke_session_law [OF assms(1)] assms by (auto simp: store_simps)
qed

lemma run_absent:
  assumes "ok s" "view s t = None" "t \<notin> set (issues xs)" "distinct (issues xs)"
    "\<And>g. g \<in> set (issues xs) \<Longrightarrow> view s g = None"
  shows "ok (token_run ops xs s) \<and> view (token_run ops xs s) t = None"
  using assms
proof (induction xs arbitrary: s)
  case (Cons x xs)
  have split: "issues (x # xs) = issues [x] @ issues xs"
    by (cases x) auto
  have step: "ok (token_step ops x s) \<and> view (token_step ops x s) u = None"
    if "u \<in> insert t (set (issues xs))" for u
    using Cons.prems that by (intro step_absent) (auto simp: split)
  have "ok (token_run ops xs (token_step ops x s)) \<and>
        view (token_run ops xs (token_step ops x s)) t = None"
    using step Cons.prems by (intro Cons.IH) (auto simp: split)
  then show ?case
    by simp
qed auto

lemma revoked_stays_absent:
  assumes "ok s" "t \<notin> set (issues xs)" "distinct (issues xs)"
    "\<And>g. g \<in> set (issues xs) \<Longrightarrow> view s g = None"
  shows "fst (ts_lookup ops now t (token_run ops xs (ts_revoke ops t s))) = None"
  using run_absent [of "ts_revoke ops t s" t xs] revoke_law [OF assms(1)] assms lookup_absent
  by simp

lemma revoked_session_stays_absent:
  assumes "ok s" "view s t = Some r" "tr_session_id r = sid"
    "t \<notin> set (issues xs)" "distinct (issues xs)"
    "\<And>g. g \<in> set (issues xs) \<Longrightarrow> view s g = None"
  shows "fst (ts_lookup ops now t (token_run ops xs (ts_revoke_session ops sid s))) = None"
  using run_absent [of "ts_revoke_session ops sid s" t xs] revoke_session_law [OF assms(1)]
    assms lookup_absent
  by (simp add: store_simps)

end

locale strict_token_store = token_store +
  assumes lookup_expired: "ok s \<Longrightarrow> view s t = Some r \<Longrightarrow> is_expired r now \<Longrightarrow>
            fst (ts_lookup ops now t s) = None"
begin

lemma lookup_exact:
  assumes "ok s"
  shows "fst (ts_lookup ops now t s) =
         (case view s t of Some r \<Rightarrow> if is_expired r now then None else Some r | None \<Rightarrow> None)"
  using assms lookup_expired lookup_live lookup_absent by (auto split: option.splits)

end

interpretation mem: strict_token_store mem_ops "\<lambda>m. m" "\<lambda>m. True"
  by unfold_locales
    (auto simp: mem_ops_def mem_issue_def mem_lookup_def mem_revoke_def mem_revoke_session_def
          split: option.splits if_splits)

section \<open>The cache implements the contract\<close>

definition lru_ok :: "nat \<Rightarrow> lru_inner \<Rightarrow> bool" where
  "lru_ok cap c = (distinct (map fst (lru_map c)) \<and> fst ` set (lru_map c) \<subseteq> set (lru_order c) \<and>
                   length (lru_map c) \<le> cap)"

lemma lru_ok_distinct: "lru_ok cap c \<Longrightarrow> distinct (map fst (lru_map c))"
  by (simp add: lru_ok_def)

lemma lru_evict_ok:
  assumes "distinct (map fst m)" "fst ` set m \<subseteq> set ord"
  shows "lru_ok cap (lru_evict cap m ord)"
  using assms
proof (induction cap m ord rule: lru_evict.induct)
  case (2 cap m k ks)
  then have "fst ` set (AList.delete k m) \<subseteq> set ks"
    by auto
  with 2 show ?case
    by (simp add: lru_ok_def distinct_delete)
qed (simp add: lru_ok_def)

lemma lru_evict_sub: "map_of (lru_map (lru_evict cap m ord)) k = Some r \<Longrightarrow> map_of m k = Some r"
  by (induction cap m ord rule: lru_evict.induct)
     (auto simp: delete_conv' split: if_splits)

lemma lru_put_ok: "lru_ok cap c \<Longrightarrow> lru_ok cap (lru_put key rec cap c)"
  unfolding lru_put_def Let_def
  by (rule lru_evict_ok)
     (auto simp: lru_ok_def distinct_update map_of_eq_None_iff subset_insertI2 simp del: image_subset_iff)

lemma lru_put_sub:
  "map_of (lru_map (lru_put key rec cap c)) k = Some r \<Longrightarrow>
   ((map_of (lru_map c))(key \<mapsto> rec)) k = Some r"
  unfolding lru_put_def Let_def by (drule lru_evict_sub) (simp add: update_conv')

lemma lru_remove_ok: "lru_ok cap c \<Longrightarrow> lru_ok cap (lru_remove key c)"
  using length_delete_le [of key "lru_map c"]
  by (simp add: lru_ok_def lru_remove_def distinct_delete subset_insertI2 Diff_subset [THEN subset_trans])

lemma lru_clear_session_ok: "lru_ok cap c \<Longrightarrow> lru_ok cap (lru_clear_session sid c)"
  unfolding lru_ok_def lru_clear_session_def
  by (auto simp: distinct_map_filter intro!: le_trans [OF length_filter_le])

text \<open>The cache is coherent: it is well formed and every entry is the inner store's.\<close>

definition lru_coherent ::
  "('s \<Rightarrow> token_map) \<Rightarrow> ('s \<Rightarrow> bool) \<Rightarrow> 's lru_token_cache \<Rightarrow> bool" where
  "lru_coherent view ok c =
     (ok (lc_inner c) \<and> 0 < lc_capacity c \<and> lru_ok (lc_capacity c) (lc_cache c) \<and>
      map_of (lru_map (lc_cache c)) \<subseteq>\<^sub>m view (lc_inner c))"

lemma lru_put_le:
  assumes "map_of (lru_map c) \<subseteq>\<^sub>m m" "m key = Some rec"
  shows "map_of (lru_map (lru_put key rec cap c)) \<subseteq>\<^sub>m m"
  unfolding map_le_def
proof
  fix k
  assume "k \<in> dom (map_of (lru_map (lru_put key rec cap c)))"
  then obtain r where r: "map_of (lru_map (lru_put key rec cap c)) k = Some r"
    by auto
  then have "((map_of (lru_map c))(key \<mapsto> rec)) k = Some r"
    by (rule lru_put_sub)
  then have "m k = Some r"
    using assms by (auto simp: map_le_def dom_def split: if_splits)
  with r show "map_of (lru_map (lru_put key rec cap c)) k = m k"
    by simp
qed

lemma lru_remove_le:
  "map_of (lru_map c) \<subseteq>\<^sub>m m \<Longrightarrow> map_of (lru_map (lru_remove key c)) \<subseteq>\<^sub>m m(key := None)"
  by (auto simp: lru_remove_def delete_conv' map_le_def)

lemma lru_clear_session_le:
  assumes "map_of (lru_map c) \<subseteq>\<^sub>m m" "distinct (map fst (lru_map c))"
  shows "map_of (lru_map (lru_clear_session sid c)) \<subseteq>\<^sub>m retain_sessions sid m"
  unfolding map_le_def
proof
  fix k
  assume "k \<in> dom (map_of (lru_map (lru_clear_session sid c)))"
  then obtain r where "map_of (lru_map c) k = Some r" "tr_session_id r \<noteq> sid"
    "map_of (lru_map (lru_clear_session sid c)) k = Some r"
    using assms(2)
    by (auto simp: lru_clear_session_def map_of_filter_snd split: option.splits if_splits)
  moreover from this have "m k = Some r"
    using assms(1) by (auto simp: map_le_def dom_def)
  ultimately show "map_of (lru_map (lru_clear_session sid c)) k = retain_sessions sid m k"
    by (simp add: retain_sessions_def)
qed

context token_store
begin

lemma lru_new_coherent: "ok s \<Longrightarrow> lru_coherent view ok (lru_new s cap)"
  by (simp add: lru_coherent_def lru_new_def lru_inner_new_def lru_ok_def)

lemma lru_issue_ok:
  assumes "lru_coherent view ok c" "view (lc_inner c) g = None"
    "lru_issue ops now g se te sv sc ttl c = (t, c')"
  shows "t = g \<and> lru_coherent view ok c' \<and>
         view (lc_inner c') = (view (lc_inner c))(g \<mapsto> mk_token_record now se te sv sc ttl)"
proof -
  obtain t1 s1 where i: "ts_issue ops now g se te sv sc ttl (lc_inner c) = (t1, s1)"
    by (cases "ts_issue ops now g se te sv sc ttl (lc_inner c)")
  obtain r s2 where l: "ts_lookup ops now t1 s1 = (r, s2)"
    by (cases "ts_lookup ops now t1 s1")
  have ok: "ok (lc_inner c)"
    using assms(1) by (simp add: lru_coherent_def)
  note issued = issue_law [OF ok assms(2) i]
  have s2: "ok s2" "view s2 = view s1"
    using lookup_law [OF _ l] issued by auto
  have le: "map_of (lru_map (lc_cache c)) \<subseteq>\<^sub>m view s2"
    using assms(1,2) issued s2 by (auto simp: lru_coherent_def map_le_def dom_def)
  have "map_of (lru_map (lru_put g rec cap (lc_cache c))) \<subseteq>\<^sub>m view s2" if "r = Some rec" for rec cap
    using lru_put_le [OF le] lookup_sound [of s1 now t1 rec s2] l issued s2 that by auto
  then show ?thesis
    using assms(1,3) i l issued s2 le
    by (auto simp: lru_issue_def Let_def lru_coherent_def lru_put_ok split: option.splits)
qed

lemma lru_lookup_all:
  assumes "lru_coherent view ok c" "lru_lookup ops now t c = (r, c')"
  shows "lru_coherent view ok c' \<and> view (lc_inner c') = view (lc_inner c) \<and>
         (\<forall>rec. r = Some rec \<longrightarrow> view (lc_inner c) t = Some rec) \<and>
         (\<forall>rec. view (lc_inner c) t = Some rec \<longrightarrow> \<not> is_expired rec now \<longrightarrow> r = Some rec)"
proof (cases "lru_lookup_hit t c")
  case (Some rec)
  then have "view (lc_inner c) t = Some rec"
    using assms(1) by (auto simp: lru_coherent_def lru_lookup_hit_def map_le_def dom_def)
  then show ?thesis
    using assms Some by (auto simp: lru_lookup_def)
next
  case None
  obtain r1 s1 where l: "ts_lookup ops now t (lc_inner c) = (r1, s1)"
    by (cases "ts_lookup ops now t (lc_inner c)")
  have ok: "ok (lc_inner c)"
    using assms(1) by (simp add: lru_coherent_def)
  have s1: "ok s1" "view s1 = view (lc_inner c)"
    using lookup_law [OF ok l] by auto
  have sound: "view (lc_inner c) t = Some rec" if "r1 = Some rec" for rec
    using lookup_sound [OF ok] l that by blast
  have live: "r1 = Some rec" if "view (lc_inner c) t = Some rec" "\<not> is_expired rec now" for rec
    using lookup_live [OF ok that] l by simp
  have eq: "(r, c') = (case r1 of None \<Rightarrow> (None, c\<lparr>lc_inner := s1\<rparr>)
      | Some rec \<Rightarrow> (Some rec, lru_lookup_fill t rec (c\<lparr>lc_inner := s1\<rparr>)))"
    using assms(2) None l by (simp add: lru_lookup_def Let_def)
  show ?thesis
  proof (cases r1)
    case None
    then have "r = None" "c' = c\<lparr>lc_inner := s1\<rparr>"
      using eq by simp_all
    then show ?thesis
      using assms(1) s1 live None by (auto simp: lru_coherent_def)
  next
    case (Some rec)
    then have r: "r = Some rec" "c' = lru_lookup_fill t rec (c\<lparr>lc_inner := s1\<rparr>)"
      using eq by simp_all
    have "view s1 t = Some rec"
      using sound [OF Some] s1 by simp
    then have "lru_coherent view ok c'"
      using assms(1) s1 r
      by (simp add: lru_coherent_def lru_lookup_fill_def lru_put_ok lru_put_le)
    then show ?thesis
      using r s1 sound [OF Some] by (simp add: lru_lookup_fill_def)
  qed
qed

lemma lru_lookup_ok:
  assumes "lru_coherent view ok c" "lru_lookup ops now t c = (r, c')"
  shows "lru_coherent view ok c'" "view (lc_inner c') = view (lc_inner c)"
    "r = Some rec \<Longrightarrow> view (lc_inner c) t = Some rec"
    "view (lc_inner c) t = Some rec \<Longrightarrow> \<not> is_expired rec now \<Longrightarrow> r = Some rec"
  using lru_lookup_all [OF assms] by blast+

lemma lru_revoke_ok:
  assumes "lru_coherent view ok c"
  shows "lru_coherent view ok (lru_revoke ops t c) \<and>
         view (lc_inner (lru_revoke ops t c)) = (view (lc_inner c))(t := None)"
  using assms revoke_law [of "lc_inner c" t]
  by (auto simp: lru_coherent_def lru_revoke_def lru_remove_ok lru_remove_le)

lemma lru_revoke_session_ok:
  assumes "lru_coherent view ok c"
  shows "lru_coherent view ok (lru_revoke_session ops sid c) \<and>
         view (lc_inner (lru_revoke_session ops sid c)) = retain_sessions sid (view (lc_inner c))"
  using assms revoke_session_law [of "lc_inner c" sid]
  by (auto simp: lru_coherent_def lru_revoke_session_def
           intro: lru_clear_session_ok lru_clear_session_le lru_ok_distinct)

lemma lru_is_token_store:
  "token_store (lru_ops ops) (\<lambda>c. view (lc_inner c)) (lru_coherent view ok)"
proof (unfold_locales, goal_cases)
  case (1 s g now se te sv sc ttl t s')
  from 1(3) have "lru_issue ops now g se te sv sc ttl s = (t, s')"
    by (simp add: lru_ops_def)
  from lru_issue_ok [OF 1(1,2) this] show ?case .
next
  case (2 s now t res s')
  from 2(2) have "lru_lookup ops now t s = (res, s')"
    by (simp add: lru_ops_def)
  from lru_lookup_ok(1,2) [OF 2(1) this] show ?case by blast
next
  case (3 s now t r s')
  from 3(2) have "lru_lookup ops now t s = (Some r, s')"
    by (simp add: lru_ops_def)
  from lru_lookup_ok(3) [OF 3(1) this] show ?case by blast
next
  case (4 s t r now)
  obtain res s' where eq: "lru_lookup ops now t s = (res, s')"
    by (cases "lru_lookup ops now t s")
  have "res = Some r" by (rule lru_lookup_ok(4) [OF 4(1) eq 4(2,3)])
  with eq show ?case by (simp add: lru_ops_def)
next
  case (5 s t)
  from lru_revoke_ok [OF 5] show ?case by (simp add: lru_ops_def)
next
  case (6 s sid)
  from lru_revoke_session_ok [OF 6] show ?case by (simp add: lru_ops_def)
qed

end

interpretation cached: token_store "lru_ops mem_ops" lc_inner "lru_coherent (\<lambda>m. m) (\<lambda>m. True)"
  by (rule mem.lru_is_token_store)

section \<open>Properties\<close>

text \<open>The inner store of a cache goes through the states of the store on its own.\<close>

lemma cached_step:
  assumes "lru_coherent (\<lambda>m. m) (\<lambda>m. True) c"
    "\<And>g. g \<in> set (issues [x]) \<Longrightarrow> lc_inner c g = None"
  shows "lru_coherent (\<lambda>m. m) (\<lambda>m. True) (token_step (lru_ops mem_ops) x c) \<and>
         lc_inner (token_step (lru_ops mem_ops) x c) = token_step mem_ops x (lc_inner c) \<and>
         lc_capacity (token_step (lru_ops mem_ops) x c) = lc_capacity c"
proof (cases x)
  case (OpIssue now g se te sv sc ttl)
  obtain t c' where eq: "lru_issue mem_ops now g se te sv sc ttl c = (t, c')"
    by (cases "lru_issue mem_ops now g se te sv sc ttl c")
  have "lc_capacity c' = lc_capacity c"
    using eq by (auto simp: lru_issue_def Let_def split: prod.splits option.splits)
  then show ?thesis
    using mem.lru_issue_ok [OF assms(1) _ eq] assms(2) OpIssue eq
    by (simp add: lru_ops_def mem_ops_def mem_issue_def)
next
  case (OpLookup now t)
  obtain r c' where eq: "lru_lookup mem_ops now t c = (r, c')"
    by (cases "lru_lookup mem_ops now t c")
  have "lc_capacity c' = lc_capacity c"
    using eq by (auto simp: lru_lookup_def lru_lookup_fill_def Let_def split: prod.splits option.splits)
  moreover have "snd (mem_lookup now t (lc_inner c)) = lc_inner c"
    by (simp add: mem_lookup_def split: option.splits)
  ultimately show ?thesis
    using mem.lru_lookup_ok(1,2) [OF assms(1) eq] OpLookup eq
    by (simp add: lru_ops_def mem_ops_def)
next
  case (OpRevoke t)
  then show ?thesis
    using mem.lru_revoke_ok [OF assms(1), of t]
    by (simp add: lru_ops_def mem_ops_def mem_revoke_def lru_revoke_def)
next
  case (OpRevokeSession sid)
  then show ?thesis
    using mem.lru_revoke_session_ok [OF assms(1), of sid]
    by (simp add: lru_ops_def mem_ops_def mem_revoke_session_def lru_revoke_session_def)
qed

lemma cached_run:
  assumes "lru_coherent (\<lambda>m. m) (\<lambda>m. True) c" "distinct (issues xs)"
    "\<And>g. g \<in> set (issues xs) \<Longrightarrow> lc_inner c g = None"
  shows "lru_coherent (\<lambda>m. m) (\<lambda>m. True) (token_run (lru_ops mem_ops) xs c) \<and>
         lc_inner (token_run (lru_ops mem_ops) xs c) = token_run mem_ops xs (lc_inner c) \<and>
         lc_capacity (token_run (lru_ops mem_ops) xs c) = lc_capacity c"
  using assms
proof (induction xs arbitrary: c)
  case (Cons x xs)
  have split: "issues (x # xs) = issues [x] @ issues xs"
    by (cases x) auto
  note step = cached_step [OF Cons.prems(1), of x]
  have "lc_inner (token_step (lru_ops mem_ops) x c) g = None" if "g \<in> set (issues xs)" for g
    using mem.step_absent [of "lc_inner c" g x] step Cons.prems that by (auto simp: split)
  then show ?case
    using Cons.IH [of "token_step (lru_ops mem_ops) x c"] step Cons.prems by (simp add: split)
qed simp

definition demo_ops :: "token_op list" where
  "demo_ops = [OpIssue 10 (replicate 32 1) ''sess'' ''acme'' OpenAi scope_any None,
               OpIssue 11 (replicate 32 2) ''sess'' ''acme'' GitHub scope_any (Some 5),
               OpLookup 12 (replicate 32 2), OpRevoke (replicate 32 1)]"

lemma demo_ops_issues: "issues demo_ops = [replicate 32 1, replicate 32 2]"
  by (simp add: demo_ops_def)

text \<open>C8. The cache is transparent and bounded: after any sequence of issues (of fresh
  tokens), lookups and revocations starting from an empty cache over a store \<open>m\<close>, the
  store behind the cache is in the state the store alone would be in, the cache never
  holds more than its capacity, and a lookup through the cache returns a record exactly
  when the store holds it, except that the cache may still return an expired one.\<close>

theorem lru_run_transparent:
  assumes "distinct (issues xs)" "\<forall>g\<in>set (issues xs). m g = None"
    "c = token_run (lru_ops mem_ops) xs (lru_new m cap)"
  shows "lc_inner c = token_run mem_ops xs m \<and>
         length (lru_map (lc_cache c)) \<le> max cap 1 \<and>
         (\<forall>r. fst (lru_lookup mem_ops now t c) = Some r \<longrightarrow> lc_inner c t = Some r) \<and>
         (\<forall>r. fst (mem_lookup now t (lc_inner c)) = Some r \<longrightarrow> fst (lru_lookup mem_ops now t c) = Some r)"
proof -
  have run: "lru_coherent (\<lambda>m. m) (\<lambda>m. True) c" "lc_inner c = token_run mem_ops xs m"
    "lc_capacity c = max cap 1"
    using cached_run [OF mem.lru_new_coherent, of xs m cap] assms by (auto simp: lru_new_def)
  obtain r c' where eq: "lru_lookup mem_ops now t c = (r, c')"
    by (cases "lru_lookup mem_ops now t c")
  have "length (lru_map (lc_cache c)) \<le> max cap 1"
    using run by (simp add: lru_coherent_def lru_ok_def)
  moreover have "lc_inner c t = Some rec" if "r = Some rec" for rec
    using mem.lru_lookup_ok(3) [OF run(1) eq that] .
  moreover have "r = Some rec" if "fst (mem_lookup now t (lc_inner c)) = Some rec" for rec
    using mem.lru_lookup_ok(4) [OF run(1) eq, of rec] that
    by (auto simp: mem_lookup_def split: option.splits if_splits)
  ultimately show ?thesis
    using run(2) eq by simp
qed

theorem lru_run_transparent_witness:
  "lc_inner (token_run (lru_ops mem_ops) demo_ops (lru_new Map.empty 1)) = token_run mem_ops demo_ops Map.empty \<and>
   length (lru_map (lc_cache (token_run (lru_ops mem_ops) demo_ops (lru_new Map.empty 1)))) \<le> 1"
  using lru_run_transparent [of demo_ops Map.empty _ 1] demo_ops_issues by simp

text \<open>Revocation is final: once a token is revoked, no later sequence of operations
  that does not mint the same 256-bit token again makes the cached store return it.\<close>

theorem lru_revoke_final:
  assumes "lru_coherent (\<lambda>m. m) (\<lambda>m. True) c" "t \<notin> set (issues xs)" "distinct (issues xs)"
    "\<forall>g\<in>set (issues xs). lc_inner c g = None"
  shows "fst (lru_lookup mem_ops now t (token_run (lru_ops mem_ops) xs (lru_revoke mem_ops t c))) = None"
  using cached.revoked_stays_absent [OF assms(1-3)] assms(4) by (simp add: lru_ops_def)

theorem lru_revoke_final_witness:
  "fst (lru_lookup mem_ops 50 (replicate 32 7)
     (token_run (lru_ops mem_ops) demo_ops
       (lru_revoke mem_ops (replicate 32 7) (lru_new [replicate 32 7 \<mapsto> mk_token_record 1 ''s'' ''t'' OpenAi scope_any None] 4)))) = None"
  using lru_revoke_final [OF mem.lru_new_coherent, of "replicate 32 7" demo_ops
      "[replicate 32 7 \<mapsto> mk_token_record 1 ''s'' ''t'' OpenAi scope_any None]" 4 50] demo_ops_issues
  by (simp add: lru_new_def)

text \<open>Ending a session is final for all its tokens: after \<open>revoke_session\<close> no token of
  that session is found again, whatever operations follow.\<close>

theorem lru_revoke_session_final:
  assumes "lru_coherent (\<lambda>m. m) (\<lambda>m. True) c" "lc_inner c t = Some r" "tr_session_id r = sid"
    "t \<notin> set (issues xs)" "distinct (issues xs)" "\<forall>g\<in>set (issues xs). lc_inner c g = None"
  shows "fst (lru_lookup mem_ops now t
           (token_run (lru_ops mem_ops) xs (lru_revoke_session mem_ops sid c))) = None"
  using cached.revoked_session_stays_absent [OF assms(1-5)] assms(6) by (simp add: lru_ops_def)

theorem lru_revoke_session_final_witness:
  "fst (lru_lookup mem_ops 50 (replicate 32 7)
     (token_run (lru_ops mem_ops) demo_ops
       (lru_revoke_session mem_ops ''s'' (lru_new [replicate 32 7 \<mapsto> mk_token_record 1 ''s'' ''t'' OpenAi scope_any None] 4)))) = None"
  using lru_revoke_session_final [OF mem.lru_new_coherent, of
      "[replicate 32 7 \<mapsto> mk_token_record 1 ''s'' ''t'' OpenAi scope_any None]" 4 "replicate 32 7"
      "mk_token_record 1 ''s'' ''t'' OpenAi scope_any None" "''s''" demo_ops 50] demo_ops_issues
  by (simp add: lru_new_def mk_token_record_def)

text \<open>A cache hit skips the expiry check: a token issued with a positive lifetime is
  still returned by the cache at every time after its expiry, when the store itself
  answers that there is no such token.\<close>

theorem lru_serves_expired:
  assumes "0 < ttl" "now + ttl \<le> later"
  shows "fst (lru_lookup mem_ops later g
           (snd (lru_issue mem_ops now g se te sv sc (Some ttl) (lru_new m cap)))) =
         Some (mk_token_record now se te sv sc (Some ttl)) \<and>
         fst (mem_lookup later g (snd (mem_issue now g se te sv sc (Some ttl) m))) = None"
  using assms
  by (simp add: lru_issue_def lru_new_def lru_inner_new_def lru_put_def lru_lookup_def
      lru_lookup_hit_def mem_ops_def mem_issue_def mem_lookup_def is_expired_def mk_token_record_def)

theorem lru_serves_expired_witness:
  "fst (lru_lookup mem_ops 500 (replicate 32 7)
     (snd (lru_issue mem_ops 10 (replicate 32 7) ''s'' ''t'' OpenAi scope_any (Some 5) (lru_new Map.empty 4)))) =
   Some (mk_token_record 10 ''s'' ''t'' OpenAi scope_any (Some 5)) \<and>
   fst (mem_lookup 500 (replicate 32 7) (snd (mem_issue 10 (replicate 32 7) ''s'' ''t'' OpenAi scope_any (Some 5) Map.empty))) = None"
  by (rule lru_serves_expired) simp_all

text \<open>C23. The fill of a missed lookup can overtake a revocation: if the revocation runs
  between the answer of the inner store and the write of the cache, and the cache has
  room, the revoked token keeps being served.\<close>

theorem lru_fill_after_revoke:
  assumes "lru_lookup_hit t c = None" "fst (ts_lookup ops now t (lc_inner c)) = Some r"
    "length (lru_map (lc_cache c)) < lc_capacity c"
  shows "fst (lru_lookup ops later t (lru_lookup_fill t r (lru_revoke ops t c))) = Some r"
proof -
  have "length (AList.delete t (lru_map (lc_cache c))) < lc_capacity c"
    using assms(3) length_delete_le [of t "lru_map (lc_cache c)"] by simp
  moreover have "lru_evict cap m ord = \<lparr>lru_map = m, lru_order = ord\<rparr>" if "length m \<le> cap" for cap m ord
    using that by (cases ord) auto
  ultimately show ?thesis
    by (simp add: lru_lookup_def lru_lookup_hit_def lru_lookup_fill_def lru_put_def lru_revoke_def
        lru_remove_def delete_conv' update_conv')
qed

theorem lru_fill_after_revoke_witness:
  "fst (lru_lookup mem_ops 60 (replicate 32 7)
     (lru_lookup_fill (replicate 32 7) (mk_token_record 1 ''s'' ''t'' OpenAi scope_any None)
       (lru_revoke mem_ops (replicate 32 7)
         (lru_new [replicate 32 7 \<mapsto> mk_token_record 1 ''s'' ''t'' OpenAi scope_any None] 4)))) =
   Some (mk_token_record 1 ''s'' ''t'' OpenAi scope_any None)"
  by (rule lru_fill_after_revoke [where now = 50])
     (simp_all add: lru_lookup_hit_def lru_new_def lru_inner_new_def mem_ops_def mem_lookup_def
        is_expired_def mk_token_record_def)

end
