(* ===== verification/Phantom_Proxy.thy ===== *)
theory Phantom_Proxy
  imports Token_Store
begin

text \<open>
  The phantom proxy (\<open>agentjail-phantom/src/proxy.rs\<close>) with the providers it forwards
  to (\<open>provider.rs\<close>, \<open>providers/*.rs\<close>) and the key store it takes real keys from
  (\<open>keys.rs\<close>).  A \<open>HeaderMap\<close> is the list of its name/value pairs; \<open>get\<close>, \<open>insert\<close>
  and \<open>remove\<close> are its documented multimap operations.  The checks of the \<open>http\<close>
  crate on header values and the upstream HTTP client are arguments.
\<close>

section \<open>Headers\<close>

type_synonym headers = "(string \<times> string) list"

definition hm_get :: "string \<Rightarrow> headers \<Rightarrow> string option" where
  "hm_get k h = map_of h k"

definition hm_remove :: "string \<Rightarrow> headers \<Rightarrow> headers" where
  "hm_remove k h = filter (\<lambda>(n, v). n \<noteq> k) h"

definition hm_insert :: "string \<Rightarrow> string \<Rightarrow> headers \<Rightarrow> headers" where
  "hm_insert k v h = hm_remove k h @ [(k, v)]"

definition hm_values :: "string \<Rightarrow> headers \<Rightarrow> string list" where
  "hm_values k h = map snd (filter (\<lambda>(n, v). n = k) h)"

lemma hm_values_remove [simp]:
  "hm_values k (hm_remove j h) = (if j = k then [] else hm_values k h)"
  by (induction h) (auto simp: hm_values_def hm_remove_def)

lemma hm_values_append [simp]: "hm_values k (g @ h) = hm_values k g @ hm_values k h"
  by (simp add: hm_values_def)

lemma hm_values_insert [simp]:
  "hm_values k (hm_insert j v h) = (if j = k then [v] else hm_values k h)"
  using hm_values_append [of k "hm_remove j h" "[(j, v)]"]
  by (simp add: hm_insert_def hm_values_def [of k "[(j, v)]"])

lemma hm_get_values: "hm_get k h = (case hm_values k h of [] \<Rightarrow> None | v # vs \<Rightarrow> Some v)"
  by (induction h) (auto simp: hm_get_def hm_values_def)

lemma hm_get_insert [simp]: "hm_get k (hm_insert j v h) = (if j = k then Some v else hm_get k h)"
  by (simp add: hm_get_values)

lemma hm_get_remove [simp]: "hm_get k (hm_remove j h) = (if j = k then None else hm_get k h)"
  by (simp add: hm_get_values)

section \<open>Errors and keys\<close>

datatype phantom_error =
    Bind string string | DuplicateProvider string | MissingKey string | Config string | PhantomIo string

fun phantom_error_display :: "phantom_error \<Rightarrow> string" where
  "phantom_error_display (Bind addr source) = ''bind '' @ addr @ '': '' @ source"
| "phantom_error_display (DuplicateProvider n) = ''duplicate provider: '' @ n"
| "phantom_error_display (MissingKey n) = ''no key configured for service '' @ n"
| "phantom_error_display (Config m) = ''config: '' @ m"
| "phantom_error_display (PhantomIo e) = ''io: '' @ e"

type_synonym key_map = "(string \<times> service_id) \<rightharpoonup> string"

definition ks_set :: "string \<Rightarrow> service_id \<Rightarrow> string \<Rightarrow> key_map \<Rightarrow> key_map" where
  "ks_set tenant service key m = m((tenant, service) \<mapsto> key)"

definition ks_unset :: "string \<Rightarrow> service_id \<Rightarrow> key_map \<Rightarrow> key_map" where
  "ks_unset tenant service m = m((tenant, service) := None)"

definition ks_get :: "key_map \<Rightarrow> string \<Rightarrow> service_id \<Rightarrow> string option" where
  "ks_get m tenant service = m (tenant, service)"

definition ks_from_env :: "(string \<Rightarrow> string option) \<Rightarrow> key_map" where
  "ks_from_env env =
     (let s = Map.empty;
          s = (case env ''OPENAI_API_KEY'' of Some v \<Rightarrow> ks_set ''dev'' OpenAi v s | None \<Rightarrow> s)
      in case env ''ANTHROPIC_API_KEY'' of Some v \<Rightarrow> ks_set ''dev'' Anthropic v s | None \<Rightarrow> s)"

section \<open>Providers\<close>

record provider =
  pv_id :: service_id
  pv_upstream_base :: string
  pv_inject_auth :: "headers \<Rightarrow> string \<Rightarrow> (phantom_error, headers) result"
  pv_strip :: "headers \<Rightarrow> headers"

definition strip_names :: "string list" where
  "strip_names =
     [''authorization'', ''x-api-key'', ''connection'', ''proxy-authenticate'', ''proxy-authorization'',
      ''te'', ''trailer'', ''transfer-encoding'', ''upgrade'', ''host'']"

definition strip_standard_client_headers :: "headers \<Rightarrow> headers" where
  "strip_standard_client_headers h = fold hm_remove strip_names h"

definition set_bearer ::
  "(string \<Rightarrow> bool) \<Rightarrow> headers \<Rightarrow> string \<Rightarrow> (phantom_error, headers) result" where
  "set_bearer valid h secret =
     (let value = ''Bearer '' @ secret
      in if valid value then Ok (hm_insert ''authorization'' value h)
         else Err (Config ''upstream secret not valid header''))"

definition set_api_key_header ::
  "(string \<Rightarrow> bool) \<Rightarrow> headers \<Rightarrow> string \<Rightarrow> string \<Rightarrow> (phantom_error, headers) result" where
  "set_api_key_header valid h header secret =
     (if valid secret then Ok (hm_insert header secret h)
      else Err (Config ''upstream secret not valid header''))"

definition anthropic_inject ::
  "(string \<Rightarrow> bool) \<Rightarrow> string \<Rightarrow> headers \<Rightarrow> string \<Rightarrow> (phantom_error, headers) result" where
  "anthropic_inject valid version h secret =
     and_then (set_api_key_header valid h ''x-api-key'' secret) (\<lambda>h.
       if hm_get ''anthropic-version'' h = None
       then if valid version then Ok (hm_insert ''anthropic-version'' version h)
            else Err (Config ''invalid anthropic-version'')
       else Ok h)"

definition openai_provider :: "(string \<Rightarrow> bool) \<Rightarrow> string \<Rightarrow> provider" where
  "openai_provider valid base =
     \<lparr>pv_id = OpenAi, pv_upstream_base = base, pv_inject_auth = set_bearer valid,
      pv_strip = strip_standard_client_headers\<rparr>"

definition anthropic_provider :: "(string \<Rightarrow> bool) \<Rightarrow> string \<Rightarrow> string \<Rightarrow> provider" where
  "anthropic_provider valid base version =
     \<lparr>pv_id = Anthropic, pv_upstream_base = base, pv_inject_auth = anthropic_inject valid version,
      pv_strip = strip_standard_client_headers\<rparr>"

definition github_provider :: "(string \<Rightarrow> bool) \<Rightarrow> string \<Rightarrow> provider" where
  "github_provider valid base =
     \<lparr>pv_id = GitHub, pv_upstream_base = base, pv_inject_auth = set_bearer valid,
      pv_strip = strip_standard_client_headers\<rparr>"

definition stripe_provider :: "(string \<Rightarrow> bool) \<Rightarrow> string \<Rightarrow> provider" where
  "stripe_provider valid base =
     \<lparr>pv_id = Stripe, pv_upstream_base = base, pv_inject_auth = set_bearer valid,
      pv_strip = strip_standard_client_headers\<rparr>"

text \<open>The registry is a \<open>HashMap\<close> from service to provider.\<close>

type_synonym registry = "(service_id \<times> provider) list"

definition registry_register :: "provider \<Rightarrow> registry \<Rightarrow> (phantom_error, registry) result" where
  "registry_register p reg =
     (if map_of reg (pv_id p) \<noteq> None then Err (DuplicateProvider (service_name (pv_id p)))
      else Ok (reg @ [(pv_id p, p)]))"

definition registry_get :: "service_id \<Rightarrow> registry \<Rightarrow> provider option" where
  "registry_get i reg = map_of reg i"

definition find_by_segment :: "string \<Rightarrow> registry \<Rightarrow> (service_id \<times> provider) option" where
  "find_by_segment segment reg = List.find (\<lambda>(i, p). service_name i = segment) reg"

definition registry_wf :: "registry \<Rightarrow> bool" where
  "registry_wf reg = (distinct (map fst reg) \<and> (\<forall>(i, p)\<in>set reg. pv_id p = i))"

lemma registry_register_wf:
  "registry_wf reg \<Longrightarrow> registry_register p reg = Ok reg' \<Longrightarrow> registry_wf reg'"
  by (auto simp: registry_wf_def registry_register_def map_of_eq_None_iff split: if_splits)

lemma find_by_segment_get:
  "find_by_segment seg reg = Some (i, p) \<longleftrightarrow> service_name i = seg \<and> registry_get i reg = Some p"
  unfolding find_by_segment_def registry_get_def
proof (induction reg)
  case (Cons x reg)
  obtain j q where x: "x = (j, q)"
    by (cases x)
  show ?case
  proof (cases "service_name j = seg")
    case True
    then have "service_name i = seg \<longleftrightarrow> i = j"
      using service_name_inj [of i j] by auto
    then show ?thesis
      using True x by auto
  next
    case False
    then show ?thesis
      using Cons.IH x by auto
  qed
qed simp

section \<open>The proxy\<close>

record audit_entry =
  ae_session_id :: string
  ae_service :: "service_id option"
  ae_path :: string
  ae_method :: string
  ae_status :: nat
  ae_reject_reason :: "string option"
  ae_upstream_latency :: "nat option"

record request =
  rq_method :: string
  rq_path :: string
  rq_query :: "string option"
  rq_headers :: headers
  rq_body :: string

record upstream_request =
  ur_method :: string
  ur_url :: string
  ur_headers :: headers
  ur_body :: string

record upstream_response =
  us_status :: nat
  us_headers :: headers
  us_body :: string
  us_latency :: nat

record response =
  rs_status :: nat
  rs_headers :: headers
  rs_body :: string

text \<open>The proxy's parts: the registry, the token store (a trait object), the key store's
  \<open>get\<close>, and the arguments that stand for the \<open>http\<close>, \<open>hex\<close> and \<open>reqwest\<close> crates.\<close>

record 's phantom_proxy =
  px_registry :: registry
  px_tokens :: "'s token_ops"
  px_keys :: "string \<Rightarrow> service_id \<Rightarrow> string option"
  px_to_str :: "string \<Rightarrow> bool"
  px_decode :: "string \<Rightarrow> byte list option"
  px_method :: "string \<Rightarrow> (string, string) result"
  px_upstream :: "upstream_request \<Rightarrow> (string, upstream_response) result"

text \<open>What a request changes: the token store, the audit log and the requests sent
  upstream.\<close>

record 's proxy_state =
  ps_tokens :: 's
  ps_audit :: "audit_entry list"
  ps_sent :: "upstream_request list"

definition split_service_path :: "string \<Rightarrow> (string \<times> string) option" where
  "split_service_path uri_path =
     (case strip_prefix ''/v1/'' uri_path of
        None \<Rightarrow> None
      | Some after_v1 \<Rightarrow>
          (case split_once (CHR ''/'') after_v1 of
             Some (s, rest) \<Rightarrow> Some (s, CHR ''/'' # rest)
           | None \<Rightarrow> Some (after_v1, ''/'')))"

definition phantom_of :: "'s phantom_proxy \<Rightarrow> string \<Rightarrow> headers \<Rightarrow> phantom_token option" where
  "phantom_of px name h =
     (case hm_get name h of
        None \<Rightarrow> None
      | Some v \<Rightarrow> if px_to_str px v then token_parse (px_decode px) v else None)"

definition extract_phantom :: "'s phantom_proxy \<Rightarrow> headers \<Rightarrow> phantom_token option" where
  "extract_phantom px h =
     (case phantom_of px ''authorization'' h of
        Some tok \<Rightarrow> Some tok
      | None \<Rightarrow> phantom_of px ''x-api-key'' h)"

definition is_hop_by_hop :: "string \<Rightarrow> bool" where
  "is_hop_by_hop name =
     (map ascii_lower name \<in> set
       [''connection'', ''proxy-connection'', ''keep-alive'', ''te'', ''trailer'',
        ''transfer-encoding'', ''upgrade'', ''proxy-authenticate'', ''proxy-authorization''])"

definition record_audit :: "audit_entry \<Rightarrow> 's proxy_state \<Rightarrow> 's proxy_state" where
  "record_audit e st = st\<lparr>ps_audit := ps_audit st @ [e]\<rparr>"

definition reject ::
  "token_record \<Rightarrow> string \<Rightarrow> string \<Rightarrow> nat \<Rightarrow> string \<Rightarrow> 's proxy_state \<Rightarrow> 's proxy_state" where
  "reject rec path meth status reason st =
     record_audit
       \<lparr>ae_session_id = tr_session_id rec, ae_service = Some (tr_service rec), ae_path = path,
        ae_method = meth, ae_status = status, ae_reject_reason = Some reason,
        ae_upstream_latency = None\<rparr> st"

definition plain_response :: "nat \<Rightarrow> string \<Rightarrow> response" where
  "plain_response status body = \<lparr>rs_status = status, rs_headers = [], rs_body = body\<rparr>"

definition anonymous_entry :: "string \<Rightarrow> string \<Rightarrow> nat \<Rightarrow> string \<Rightarrow> audit_entry" where
  "anonymous_entry path meth status reason =
     \<lparr>ae_session_id = [], ae_service = None, ae_path = path, ae_method = meth,
      ae_status = status, ae_reject_reason = Some reason, ae_upstream_latency = None\<rparr>"

fun copy_headers :: "headers \<Rightarrow> headers \<Rightarrow> headers" where
  "copy_headers [] acc = acc"
| "copy_headers ((k, v) # hs) acc =
     (if is_hop_by_hop k then copy_headers hs acc else copy_headers hs (hm_insert k v acc))"

text \<open>\<open>forward\<close> returns the outgoing request (if one was sent) next to its result.\<close>

definition forward ::
  "'s phantom_proxy \<Rightarrow> provider \<Rightarrow> string \<Rightarrow> request \<Rightarrow> string
   \<Rightarrow> upstream_request option \<times> (string, response \<times> nat) result" where
  "forward px p secret req upstream_path =
     (case pv_inject_auth p (pv_strip p (rq_headers req)) secret of
        Inl e \<Rightarrow> (None, Err (phantom_error_display e))
      | Inr h \<Rightarrow>
          (let url = pv_upstream_base p @ upstream_path @
                 (case rq_query req of Some q \<Rightarrow> CHR ''?'' # q | None \<Rightarrow> [])
           in case px_method px (rq_method req) of
                Inl e \<Rightarrow> (None, Err e)
              | Inr reqwest_method \<Rightarrow>
                  (let u = \<lparr>ur_method = reqwest_method, ur_url = url, ur_headers = h,
                            ur_body = rq_body req\<rparr>
                   in (Some u,
                       case px_upstream px u of
                         Inl e \<Rightarrow> Err e
                       | Inr resp \<Rightarrow>
                           Ok (\<lparr>rs_status = (if 100 \<le> us_status resp \<and> us_status resp < 1000
                                              then us_status resp else 502),
                                rs_headers = copy_headers (us_headers resp) [],
                                rs_body = us_body resp\<rparr>, us_latency resp)))))"

definition handle ::
  "'s phantom_proxy \<Rightarrow> time \<Rightarrow> request \<Rightarrow> 's proxy_state \<Rightarrow> response \<times> 's proxy_state" where
  "handle px now req st =
    (case split_service_path (rq_path req) of
       None \<Rightarrow> (plain_response 404 ''unknown service path'',
                record_audit (anonymous_entry (rq_path req) (rq_method req) 404 ''bad_path'') st)
     | Some (service_seg, upstream_path) \<Rightarrow>
    (case extract_phantom px (rq_headers req) of
       None \<Rightarrow> (plain_response 401 ''missing phantom token'',
                record_audit (anonymous_entry upstream_path (rq_method req) 401 ''no_token'') st)
     | Some presented \<Rightarrow>
    (let (found, ts) = ts_lookup (px_tokens px) now presented (ps_tokens st);
         st = st\<lparr>ps_tokens := ts\<rparr>
     in case found of
       None \<Rightarrow> (plain_response 401 ''unknown phantom token'',
                record_audit (anonymous_entry upstream_path (rq_method req) 401 ''unknown_token'') st)
     | Some rec \<Rightarrow>
    (case find_by_segment service_seg (px_registry px) of
       None \<Rightarrow> (plain_response 404 ''unknown service'',
                reject rec upstream_path (rq_method req) 404 ''unknown_service'' st)
     | Some (i, p) \<Rightarrow>
     if i \<noteq> tr_service rec
     then (plain_response 403 ''token not valid for this service'',
           reject rec upstream_path (rq_method req) 403 ''wrong_service'' st)
     else if \<not> allows_path (tr_scope rec) upstream_path
     then (plain_response 403 ''path not in scope'',
           reject rec upstream_path (rq_method req) 403 ''scope_denied'' st)
     else
    (case px_keys px (tr_tenant_id rec) (tr_service rec) of
       None \<Rightarrow> (plain_response 502 ''upstream key not configured'',
                reject rec upstream_path (rq_method req) 502 ''no_upstream_key'' st)
     | Some secret \<Rightarrow>
    (let (sent, res) = forward px p secret req upstream_path;
         st = st\<lparr>ps_sent := ps_sent st @ (case sent of Some u \<Rightarrow> [u] | None \<Rightarrow> [])\<rparr>
     in case res of
       Inl e \<Rightarrow> (plain_response 502 (''upstream: '' @ e),
                 reject rec upstream_path (rq_method req) 502 ''upstream_error'' st)
     | Inr (resp, latency) \<Rightarrow>
        (resp,
         record_audit
           \<lparr>ae_session_id = tr_session_id rec, ae_service = Some (tr_service rec),
            ae_path = upstream_path, ae_method = rq_method req, ae_status = rs_status resp,
            ae_reject_reason = None, ae_upstream_latency = Some latency\<rparr> st)))))))"

section \<open>What a request may do\<close>

text \<open>The authority a request needs before anything is sent upstream, given the records
  the token store holds.\<close>

definition authorised ::
  "'s phantom_proxy \<Rightarrow> token_map \<Rightarrow> request \<Rightarrow> string \<Rightarrow> token_record \<Rightarrow> provider \<Rightarrow> string \<Rightarrow> bool" where
  "authorised px held req upstream_path rec p secret =
     (split_service_path (rq_path req) = Some (service_name (tr_service rec), upstream_path) \<and>
      (\<exists>tok. extract_phantom px (rq_headers req) = Some tok \<and> held tok = Some rec) \<and>
      registry_get (tr_service rec) (px_registry px) = Some p \<and>
      allows_path (tr_scope rec) upstream_path \<and>
      px_keys px (tr_tenant_id rec) (tr_service rec) = Some secret)"

lemma reject_simps [simp]:
  "ps_sent (reject rec path meth status reason st) = ps_sent st"
  "ps_tokens (reject rec path meth status reason st) = ps_tokens st"
  "ps_sent (record_audit e st) = ps_sent st"
  "ps_tokens (record_audit e st) = ps_tokens st"
  "ps_audit (record_audit e st) = ps_audit st @ [e]"
  by (simp_all add: reject_def record_audit_def)

lemma plain_response_status [simp]: "rs_status (plain_response s b) = s"
  by (simp add: plain_response_def)

lemma anonymous_entry_simps [simp]:
  "ae_status (anonymous_entry path meth status reason) = status"
  "ae_reject_reason (anonymous_entry path meth status reason) = Some reason"
  "ae_session_id (anonymous_entry path meth status reason) = []"
  by (simp_all add: anonymous_entry_def)

lemma reject_audit [simp]:
  "ps_audit (reject rec path meth status reason st) = ps_audit st @
     [\<lparr>ae_session_id = tr_session_id rec, ae_service = Some (tr_service rec), ae_path = path,
        ae_method = meth, ae_status = status, ae_reject_reason = Some reason,
        ae_upstream_latency = None\<rparr>]"
  by (simp add: reject_def)

context token_store
begin

lemma handle_sends:
  assumes "px_tokens px = ops" "ok (ps_tokens st)" "handle px now req st = (resp, st')"
    "ps_sent st' \<noteq> ps_sent st"
  shows "\<exists>upath rec p secret u. authorised px (view (ps_tokens st)) req upath rec p secret \<and>
           ps_sent st' = ps_sent st @ [u] \<and> fst (forward px p secret req upath) = Some u"
proof -
  have "view (ps_tokens st) tok = Some rec"
    if "ts_lookup ops now tok (ps_tokens st) = (Some rec, ts)" for tok rec ts
    using lookup_sound [OF assms(2) that] .
  then show ?thesis
    using assms(1,3,4)
    by (auto simp: handle_def Let_def authorised_def find_by_segment_get
             split: option.splits prod.splits sum.splits if_splits)
qed

lemma handle_tokens:
  assumes "px_tokens px = ops" "ok (ps_tokens st)" "handle px now req st = (resp, st')"
  shows "ok (ps_tokens st') \<and> view (ps_tokens st') = view (ps_tokens st)"
  using lookup_law [OF assms(2)] assms
  by (auto simp: handle_def Let_def split: option.splits prod.splits sum.splits if_splits)

lemma handle_authorised:
  assumes "px_tokens px = ops" "ok (ps_tokens st)" "authorised px (view (ps_tokens st)) req upath rec p secret"
    "\<not> is_expired rec now" "forward px p secret req upath = (sent, res)"
  shows "fst (handle px now req st) = (case res of Inl e \<Rightarrow> plain_response 502 (''upstream: '' @ e) | Inr (resp, latency) \<Rightarrow> resp) \<and>
    ps_sent (snd (handle px now req st)) = ps_sent st @ (case sent of Some u \<Rightarrow> [u] | None \<Rightarrow> [])"
proof -
  obtain tok where tok: "extract_phantom px (rq_headers req) = Some tok" and held: "view (ps_tokens st) tok = Some rec"
    using assms(3) by (auto simp: authorised_def)
  obtain ts where ts: "ts_lookup (px_tokens px) now tok (ps_tokens st) = (Some rec, ts)"
    using lookup_live [OF assms(2) held assms(4)] assms(1)
    by (cases "ts_lookup (px_tokens px) now tok (ps_tokens st)") auto
  have "find_by_segment (service_name (tr_service rec)) (px_registry px) = Some (tr_service rec, p)"
    using assms(3) by (simp add: authorised_def find_by_segment_get)
  then show ?thesis
    using assms(3,5) tok ts by (simp add: handle_def authorised_def Let_def split: sum.split)
qed

lemma handle_unknown:
  assumes "px_tokens px = ops" "ok (ps_tokens st)" "extract_phantom px (rq_headers req) = Some tok"
    "view (ps_tokens st) tok = None"
  shows "rs_status (fst (handle px now req st)) \<in> {401, 404} \<and> ps_sent (snd (handle px now req st)) = ps_sent st"
proof -
  obtain ts where "ts_lookup (px_tokens px) now tok (ps_tokens st) = (None, ts)"
    using lookup_absent [OF assms(2,4), of now] assms(1) by (cases "ts_lookup (px_tokens px) now tok (ps_tokens st)") auto
  then show ?thesis
    using assms(3) by (auto simp: handle_def Let_def split: option.split)
qed

end

lemma strip_standard_values:
  "hm_values k (strip_standard_client_headers h) = (if k \<in> set strip_names then [] else hm_values k h)"
  by (auto simp: strip_standard_client_headers_def strip_names_def)

lemma forward_sent:
  assumes "fst (forward px p secret req upath) = Some u"
  shows "pv_inject_auth p (pv_strip p (rq_headers req)) secret = Ok (ur_headers u) \<and>
         ur_url u = pv_upstream_base p @ upath @
           (case rq_query req of Some q \<Rightarrow> CHR ''?'' # q | None \<Rightarrow> [])"
  using assms by (auto simp: forward_def Let_def split: sum.splits)

lemma set_bearer_values:
  "set_bearer valid h secret = Ok h' \<Longrightarrow>
   hm_values k h' = (if k = ''authorization'' then [''Bearer '' @ secret] else hm_values k h)"
  by (auto simp: set_bearer_def Let_def split: if_splits)

lemma anthropic_inject_values:
  "anthropic_inject valid version h secret = Ok h' \<Longrightarrow>
   hm_values ''x-api-key'' h' = [secret] \<and>
   hm_values ''anthropic-version'' h' =
     (case hm_values ''anthropic-version'' h of [] \<Rightarrow> [version] | vs \<Rightarrow> vs) \<and>
   (k \<notin> {''x-api-key'', ''anthropic-version''} \<longrightarrow> hm_values k h' = hm_values k h)"
  by (auto simp: anthropic_inject_def set_api_key_header_def hm_get_values
           split: if_splits list.splits)

lemma hm_values_Cons: "hm_values k ((n, v) # h) = (if n = k then v # hm_values k h else hm_values k h)"
  by (simp add: hm_values_def)

text \<open>Copied one by one, of several values of a name the last one is left.\<close>

lemma copy_headers_values:
  "hm_values k (copy_headers hs acc) =
     (if is_hop_by_hop k \<or> hm_values k hs = [] then hm_values k acc else [last (hm_values k hs)])"
proof (induction hs acc rule: copy_headers.induct)
  case (2 n v hs acc)
  then show ?case
    by (cases "is_hop_by_hop n") (auto simp: hm_values_Cons)
qed (simp add: hm_values_def)

lemma handle_keys_cong:
  assumes "\<And>tok rec. extract_phantom px (rq_headers req) = Some tok \<Longrightarrow>
      fst (ts_lookup (px_tokens px) now tok (ps_tokens st)) = Some rec \<Longrightarrow>
      keys' (tr_tenant_id rec) (tr_service rec) = px_keys px (tr_tenant_id rec) (tr_service rec)"
  shows "handle (px\<lparr>px_keys := keys'\<rparr>) now req st = handle px now req st"
proof -
  have "forward (px\<lparr>px_keys := keys'\<rparr>) = forward px"
    by (intro ext) (simp add: forward_def Let_def split: sum.split)
  moreover have "extract_phantom (px\<lparr>px_keys := keys'\<rparr>) = extract_phantom px"
    by (intro ext) (simp add: extract_phantom_def phantom_of_def split: option.split)
  ultimately show ?thesis
    using assms by (auto simp: handle_def Let_def split: option.splits prod.splits)
qed

section \<open>Properties\<close>

definition demo_token :: phantom_token where
  "demo_token = replicate 32 0xAB"

definition demo_record :: token_record where
  "demo_record = mk_token_record 1 ''sess'' ''acme'' OpenAi (Scope [PathGlob ''/v1/chat*'']) None"

definition demo_provider :: provider where
  "demo_provider = openai_provider (\<lambda>v. True) ''https://api.openai.com''"

definition demo_px :: "token_map lru_token_cache phantom_proxy" where
  "demo_px =
     \<lparr>px_registry = [(OpenAi, demo_provider)],
      px_tokens = lru_ops mem_ops,
      px_keys = ks_get (ks_set ''acme'' OpenAi ''sk-acme'' Map.empty),
      px_to_str = (\<lambda>v. True), px_decode = hex_decode, px_method = Ok,
      px_upstream = (\<lambda>u. Ok \<lparr>us_status = 200,
        us_headers = [(''content-type'', ''text/plain''), (''connection'', ''close'')],
        us_body = ''hi'', us_latency = 7\<rparr>)\<rparr>"

definition demo_req :: request where
  "demo_req =
     \<lparr>rq_method = ''POST'', rq_path = ''/v1/openai/v1/chat/completions'', rq_query = Some ''a=b'',
      rq_headers = [(''host'', ''10.0.0.1''), (''authorization'', ''Bearer '' @ token_display demo_token)],
      rq_body = ''body''\<rparr>"

definition demo_st :: "token_map lru_token_cache proxy_state" where
  "demo_st = \<lparr>ps_tokens = lru_new [demo_token \<mapsto> demo_record] 4, ps_audit = [], ps_sent = []\<rparr>"

lemma demo_px_tokens: "px_tokens demo_px = lru_ops mem_ops"
  by (simp add: demo_px_def)

lemma demo_extract: "extract_phantom demo_px (rq_headers demo_req) = Some demo_token"
proof -
  have "token_parse hex_decode (''Bearer '' @ token_display demo_token) = Some demo_token"
    by (rule token_parse_bearer [OF hex_decode_decodes]) (simp add: token_wf_def demo_token_def)
  then show ?thesis
    by (simp add: extract_phantom_def phantom_of_def demo_req_def demo_px_def hm_get_def)
qed

lemma demo_authorised:
  "authorised demo_px (lc_inner (ps_tokens demo_st)) demo_req ''/v1/chat/completions''
     demo_record demo_provider ''sk-acme''"
  unfolding authorised_def demo_extract
  by (simp add: demo_st_def lru_new_def demo_record_def mk_token_record_def demo_px_def demo_req_def
      split_service_path_def registry_get_def allows_path_def glob_matches_def strip_suffix_def
      starts_with_def ks_get_def ks_set_def)

lemma demo_lookup:
  "ts_lookup (px_tokens demo_px) 5 demo_token (ps_tokens demo_st) =
   (Some demo_record, lru_lookup_fill demo_token demo_record (ps_tokens demo_st))"
  by (simp add: demo_px_def demo_st_def lru_ops_def lru_lookup_def lru_lookup_hit_def lru_new_def
      lru_inner_new_def mem_ops_def mem_lookup_def demo_record_def is_expired_def mk_token_record_def)

definition demo_out :: "upstream_request" where
  "demo_out = \<lparr>ur_method = ''POST'', ur_url = ''https://api.openai.com/v1/chat/completions?a=b'',
     ur_headers = [(''authorization'', ''Bearer sk-acme'')], ur_body = ''body''\<rparr>"

definition demo_resp :: response where
  "demo_resp = \<lparr>rs_status = 200, rs_headers = [(''content-type'', ''text/plain'')], rs_body = ''hi''\<rparr>"

lemma demo_forward:
  "forward demo_px demo_provider ''sk-acme'' demo_req ''/v1/chat/completions'' =
   (Some demo_out, Ok (demo_resp, 7))"
  by (simp add: forward_def demo_px_def demo_provider_def demo_req_def demo_out_def demo_resp_def
      openai_provider_def set_bearer_def strip_standard_client_headers_def strip_names_def
      hm_remove_def hm_insert_def is_hop_by_hop_def)

lemma demo_coherent: "lru_coherent (\<lambda>m. m) (\<lambda>m. True) (ps_tokens demo_st)"
  unfolding demo_st_def by (simp add: mem.lru_new_coherent)

lemma demo_handle_sent: "ps_sent (snd (handle demo_px 5 demo_req demo_st)) = [demo_out]"
proof -
  have "split_service_path (rq_path demo_req) = Some (''openai'', ''/v1/chat/completions'')"
    by (simp add: demo_req_def split_service_path_def)
  moreover have "find_by_segment ''openai'' (px_registry demo_px) = Some (OpenAi, demo_provider)"
    by (simp add: demo_px_def find_by_segment_def)
  moreover have "tr_service demo_record = OpenAi" "tr_tenant_id demo_record = ''acme''"
    "allows_path (tr_scope demo_record) ''/v1/chat/completions''"
    "px_keys demo_px ''acme'' OpenAi = Some ''sk-acme''" "ps_sent demo_st = []"
    using demo_authorised
    by (simp_all add: demo_record_def mk_token_record_def authorised_def demo_st_def)
  ultimately show ?thesis
    by (simp add: handle_def demo_extract demo_lookup demo_forward)
qed

text \<open>C1. Nothing reaches an upstream without authority: if handling a request sends
  anything, it sends exactly one request, and the client presented a token the store
  holds, whose record names the addressed service, whose scope admits the path, and whose
  tenant has a key for that service; the request goes to that provider's base URL with the
  client's path and query.\<close>

theorem proxy_sends_only_authorised:
  assumes "px_tokens px = lru_ops mem_ops"
    "lru_coherent (\<lambda>m. m) (\<lambda>m. True) (ps_tokens st)"
    "handle px now req st = (resp, st')" "ps_sent st' \<noteq> ps_sent st"
  shows "\<exists>upath rec p secret u.
           authorised px (lc_inner (ps_tokens st)) req upath rec p secret \<and>
           ps_sent st' = ps_sent st @ [u] \<and>
           ur_url u = pv_upstream_base p @ upath @
             (case rq_query req of Some q \<Rightarrow> CHR ''?'' # q | None \<Rightarrow> [])"
proof -
  obtain upath rec p secret u where "authorised px (lc_inner (ps_tokens st)) req upath rec p secret"
    "ps_sent st' = ps_sent st @ [u]" and fwd: "fst (forward px p secret req upath) = Some u"
    using cached.handle_sends [OF assms] by blast
  moreover note forward_sent [OF fwd]
  ultimately show ?thesis
    by blast
qed

theorem proxy_sends_only_authorised_witness:
  "\<exists>upath rec p secret u.
     authorised demo_px (lc_inner (ps_tokens demo_st)) demo_req upath rec p secret \<and>
     ps_sent (snd (handle demo_px 5 demo_req demo_st)) = ps_sent demo_st @ [u] \<and>
     ur_url u = pv_upstream_base p @ upath @
       (case rq_query demo_req of Some q \<Rightarrow> CHR ''?'' # q | None \<Rightarrow> [])"
proof (rule proxy_sends_only_authorised [OF demo_px_tokens demo_coherent, where now = 5])
  show "handle demo_px 5 demo_req demo_st =
      (fst (handle demo_px 5 demo_req demo_st), snd (handle demo_px 5 demo_req demo_st))"
    by simp
  show "ps_sent (snd (handle demo_px 5 demo_req demo_st)) \<noteq> ps_sent demo_st"
    by (simp add: demo_handle_sent) (simp add: demo_st_def)
qed

text \<open>C11. The headers of a request sent through a built-in provider, name by name.  The header the
  provider uses for credentials has the tenant's real secret as its only value.  The client's other
  values of \<open>authorization\<close>, \<open>x-api-key\<close>, \<open>proxy-authorization\<close> and \<open>host\<close>, and of six headers that
  concern the connection, are not sent.  Anthropic gets a version if the client names none.  Every
  other header of the client is sent unchanged, cookies included.\<close>

theorem forwarded_credentials:
  assumes "fst (forward px p secret req upath) = Some u"
    "p \<in> {openai_provider valid base, github_provider valid base, stripe_provider valid base,
           anthropic_provider valid base version}"
  shows "hm_values k (ur_headers u) =
    (if k = (if pv_id p = Anthropic then ''x-api-key'' else ''authorization'')
     then [if pv_id p = Anthropic then secret else ''Bearer '' @ secret]
     else if k \<in> {''authorization'', ''x-api-key'', ''connection'', ''proxy-authenticate'', ''proxy-authorization'',
                  ''te'', ''trailer'', ''transfer-encoding'', ''upgrade'', ''host''} then []
     else if pv_id p = Anthropic \<and> k = ''anthropic-version'' \<and> hm_values k (rq_headers req) = [] then [version]
     else hm_values k (rq_headers req))"
proof -
  have inj: "pv_inject_auth p (pv_strip p (rq_headers req)) secret = Ok (ur_headers u)"
    using forward_sent [OF assms(1)] by simp
  have names: "set strip_names = {''authorization'', ''x-api-key'', ''connection'', ''proxy-authenticate'', ''proxy-authorization'',
      ''te'', ''trailer'', ''transfer-encoding'', ''upgrade'', ''host''}"
    by (simp only: strip_names_def list.set)
  have mem: "''authorization'' \<in> set strip_names" "''x-api-key'' \<in> set strip_names" "''anthropic-version'' \<notin> set strip_names"
    by (simp_all add: strip_names_def)
  have "hm_values k (ur_headers u) =
    (if k = (if pv_id p = Anthropic then ''x-api-key'' else ''authorization'')
     then [if pv_id p = Anthropic then secret else ''Bearer '' @ secret]
     else if k \<in> set strip_names then []
     else if pv_id p = Anthropic \<and> k = ''anthropic-version'' \<and> hm_values k (rq_headers req) = [] then [version]
     else hm_values k (rq_headers req))" (is ?header)
  proof (cases "pv_id p = Anthropic")
    case True
    then have "anthropic_inject valid version (strip_standard_client_headers (rq_headers req)) secret
        = Ok (ur_headers u)"
      using assms(2) inj
      by (auto simp: openai_provider_def github_provider_def stripe_provider_def anthropic_provider_def)
    from anthropic_inject_values [OF this, of k] show ?header
      using True mem by (cases "k = ''x-api-key''"; cases "k = ''anthropic-version''")
        (simp_all add: strip_standard_values split: list.split)
  next
    case False
    then have "set_bearer valid (strip_standard_client_headers (rq_headers req)) secret = Ok (ur_headers u)"
      using assms(2) inj
      by (auto simp: openai_provider_def github_provider_def stripe_provider_def anthropic_provider_def)
    from set_bearer_values [OF this, of k] show ?header
      using False mem by (simp add: strip_standard_values)
  qed
  then show ?thesis
    unfolding names .
qed

theorem forwarded_credentials_witness:
  "hm_values ''authorization'' (ur_headers demo_out) = [''Bearer sk-acme''] \<and>
   hm_values ''x-api-key'' (ur_headers demo_out) = [] \<and> hm_values ''host'' (ur_headers demo_out) = [] \<and>
   hm_values ''proxy-authorization'' (ur_headers demo_out) = []"
proof -
  have "fst (forward demo_px demo_provider ''sk-acme'' demo_req ''/v1/chat/completions'') = Some demo_out"
    "demo_provider = openai_provider (\<lambda>v. True) ''https://api.openai.com''" "pv_id demo_provider = OpenAi"
    by (simp_all only: demo_forward fst_conv) (simp_all add: demo_provider_def openai_provider_def)
  then show ?thesis
    using forwarded_credentials [of demo_px demo_provider "''sk-acme''" demo_req "''/v1/chat/completions''" demo_out
        "\<lambda>v. True" "''https://api.openai.com''" "[]"]
    by simp
qed

text \<open>C21. Every request is audited once, with the status the client gets, and an entry
  without a reject reason means that the request went upstream.\<close>

theorem handle_audits_once:
  "\<exists>e. ps_audit (snd (handle px now req st)) = ps_audit st @ [e] \<and>
       ae_status e = rs_status (fst (handle px now req st)) \<and>
       ae_method e = rq_method req \<and>
       (ps_sent (snd (handle px now req st)) = ps_sent st \<longrightarrow> ae_reject_reason e \<noteq> None)"
  by (auto simp: handle_def Let_def forward_def anonymous_entry_def
           split: option.splits prod.splits sum.splits if_splits)

theorem handle_audits_once_witness:
  "\<exists>e. ps_audit (snd (handle demo_px 5 demo_req demo_st)) = [e] \<and> ae_method e = ''POST''"
proof -
  have "ps_audit demo_st = []" "rq_method demo_req = ''POST''"
    by (simp_all add: demo_st_def demo_req_def)
  then show ?thesis
    using handle_audits_once [of demo_px 5 demo_req demo_st] by auto
qed

text \<open>C12. A tenant's requests depend on no other tenant's keys: replacing the key store
  by one that agrees on the key of the token's own tenant and service changes neither the
  response nor any effect of the request.\<close>

theorem handle_key_isolation:
  assumes "extract_phantom px (rq_headers req) = Some tok"
    "fst (ts_lookup (px_tokens px) now tok (ps_tokens st)) = Some rec"
    "keys' (tr_tenant_id rec) (tr_service rec) = px_keys px (tr_tenant_id rec) (tr_service rec)"
  shows "handle (px\<lparr>px_keys := keys'\<rparr>) now req st = handle px now req st"
  by (rule handle_keys_cong) (use assms in auto)

theorem handle_key_isolation_witness:
  "handle (demo_px\<lparr>px_keys := ks_get (ks_set ''globex'' OpenAi ''sk-globex''
       (ks_set ''acme'' OpenAi ''sk-acme'' Map.empty))\<rparr>) 5 demo_req demo_st =
   handle demo_px 5 demo_req demo_st"
proof (rule handle_key_isolation [OF demo_extract, where rec = demo_record])
  show "fst (ts_lookup (px_tokens demo_px) 5 demo_token (ps_tokens demo_st)) = Some demo_record"
    by (simp add: demo_lookup)
qed (simp add: demo_px_def demo_record_def mk_token_record_def ks_get_def ks_set_def)

text \<open>C22. An authorised request is served.  If a live token of the store authorises the request, the
  secret can be put into a header and the method is one of HTTP, then exactly one request goes upstream:
  the client's method and body, to the provider's address with the client's path and query.  If the
  upstream answers, the client gets its status, its body and its headers: none of those that concern
  the connection, and of every other name the last value.  If it does not, the client gets 502 with
  the error.\<close>

theorem proxy_serves_authorised:
  assumes "px_tokens px = lru_ops mem_ops"
    "lru_coherent (\<lambda>m. m) (\<lambda>m. True) (ps_tokens st)"
    "authorised px (lc_inner (ps_tokens st)) req upath rec p secret"
    "\<not> is_expired rec now"
    "pv_inject_auth p (pv_strip p (rq_headers req)) secret = Ok h" "px_method px (rq_method req) = Ok meth"
    "u = \<lparr>ur_method = meth,
          ur_url = pv_upstream_base p @ upath @ (case rq_query req of Some q \<Rightarrow> CHR ''?'' # q | None \<Rightarrow> []),
          ur_headers = h, ur_body = rq_body req\<rparr>"
  shows "ps_sent (snd (handle px now req st)) = ps_sent st @ [u] \<and>
    (case px_upstream px u of
       Inl e \<Rightarrow> fst (handle px now req st) = plain_response 502 (''upstream: '' @ e)
     | Inr answer \<Rightarrow>
         (100 \<le> us_status answer \<and> us_status answer < 1000 \<longrightarrow>
            rs_status (fst (handle px now req st)) = us_status answer) \<and>
         rs_body (fst (handle px now req st)) = us_body answer \<and>
         (\<forall>k. hm_values k (rs_headers (fst (handle px now req st))) =
            (if is_hop_by_hop k \<or> hm_values k (us_headers answer) = [] then []
             else [last (hm_values k (us_headers answer))])))"
proof -
  obtain sent res where fwd: "forward px p secret req upath = (sent, res)"
    by (cases "forward px p secret req upath")
  have sent: "sent = Some u" and res: "res = (case px_upstream px u of
      Inl e \<Rightarrow> Err e
    | Inr answer \<Rightarrow> Ok (\<lparr>rs_status = (if 100 \<le> us_status answer \<and> us_status answer < 1000 then us_status answer else 502),
        rs_headers = copy_headers (us_headers answer) [], rs_body = us_body answer\<rparr>, us_latency answer))"
    using fwd assms(5-7) by (auto simp: forward_def Let_def)
  have none: "hm_values k [] = []" for k
    by (simp add: hm_values_def)
  show ?thesis
    using cached.handle_authorised [OF assms(1-4) fwd] unfolding sent res
    by (simp add: copy_headers_values none split: sum.split)
qed

theorem proxy_serves_authorised_witness:
  "ps_sent (snd (handle demo_px 5 demo_req demo_st)) = [demo_out] \<and>
   rs_status (fst (handle demo_px 5 demo_req demo_st)) = 200 \<and> rs_body (fst (handle demo_px 5 demo_req demo_st)) = ''hi'' \<and>
   hm_values ''connection'' (rs_headers (fst (handle demo_px 5 demo_req demo_st))) = [] \<and>
   hm_values ''content-type'' (rs_headers (fst (handle demo_px 5 demo_req demo_st))) = [''text/plain'']"
proof -
  have live: "\<not> is_expired demo_record 5"
    by (simp add: demo_record_def mk_token_record_def is_expired_def)
  have sent: "fst (forward demo_px demo_provider ''sk-acme'' demo_req ''/v1/chat/completions'') = Some demo_out"
    by (simp add: demo_forward)
  have meth: "px_method demo_px (rq_method demo_req) = Ok (ur_method demo_out)"
    by (simp add: demo_px_def demo_req_def demo_out_def)
  have up: "px_upstream demo_px demo_out = Ok \<lparr>us_status = 200,
        us_headers = [(''content-type'', ''text/plain''), (''connection'', ''close'')], us_body = ''hi'', us_latency = 7\<rparr>"
    by (simp add: demo_px_def)
  have out: "demo_out = \<lparr>ur_method = ur_method demo_out,
      ur_url = pv_upstream_base demo_provider @ ''/v1/chat/completions'' @
        (case rq_query demo_req of Some q \<Rightarrow> CHR ''?'' # q | None \<Rightarrow> []),
      ur_headers = ur_headers demo_out, ur_body = rq_body demo_req\<rparr>"
    by (simp add: demo_out_def demo_req_def demo_provider_def openai_provider_def)
  have "ps_sent demo_st = []" "is_hop_by_hop ''connection''" "\<not> is_hop_by_hop ''content-type''"
    by (simp_all add: demo_st_def is_hop_by_hop_def)
  then show ?thesis
    using proxy_serves_authorised [OF demo_px_tokens demo_coherent demo_authorised live
        forward_sent [OF sent, THEN conjunct1] meth out]
    by (simp add: up hm_values_def)
qed

end
