(* ===== verification/Connect_Proxy.thy ===== *)
theory Connect_Proxy
  imports Prelude
begin

text \<open>
  The CONNECT proxy that enforces a jail's network allowlist
  (\<open>agentjail/src/proxy.rs\<close>): domain patterns, the \<open>host:port\<close> parser, the filter
  of routable addresses and one connection from its request line to the tunnel.
  Unicode lower-casing is the argument \<open>lc\<close> (only its behaviour on ASCII matters), and
  name resolution and \<open>connect\<close> are arguments too.  A connection is a function from the
  bytes the client sends to what the proxy writes, asks and opens.
\<close>

definition MAX_LINE_BYTES :: nat where
  "MAX_LINE_BYTES = 8192"

definition MAX_HEADER_LINES :: nat where
  "MAX_HEADER_LINES = 64"

section \<open>Domain patterns\<close>

datatype domain_pattern =
    Exact string
  | Wildcard (base: string) (suffix: string)

definition pattern_parse :: "(string \<Rightarrow> string) \<Rightarrow> string \<Rightarrow> domain_pattern" where
  "pattern_parse lc pat =
     (let lower = lc pat
      in case strip_prefix ''*.'' lower of
           Some b \<Rightarrow> Wildcard b (CHR ''.'' # b)
         | None \<Rightarrow> Exact lower)"

fun pattern_matches :: "(string \<Rightarrow> string) \<Rightarrow> domain_pattern \<Rightarrow> string \<Rightarrow> bool" where
  "pattern_matches lc (Exact domain) host = (lc host = domain)"
| "pattern_matches lc (Wildcard b suf) host = (ends_with (lc host) suf \<or> lc host = b)"

definition is_allowed :: "(string \<Rightarrow> string) \<Rightarrow> string \<Rightarrow> domain_pattern list \<Rightarrow> bool" where
  "is_allowed lc host allowlist = list_ex (\<lambda>p. pattern_matches lc p host) allowlist"

section \<open>Host and port\<close>

definition parse_host_port :: "string \<Rightarrow> (string, string \<times> nat) result" where
  "parse_host_port s =
     (case strip_prefix ''['' s of
        Some rest \<Rightarrow>
          (case split_once (CHR '']'') rest of
             None \<Rightarrow> Err ''unterminated IPv6 bracket''
           | Some (v6, tail) \<Rightarrow>
               (case strip_prefix '':'' tail of
                  Some p \<Rightarrow> and_then (ok_or ''invalid port'' (parse_unsigned 65535 p)) (\<lambda>port. Ok (v6, port))
                | None \<Rightarrow> if tail = [] then Ok (v6, 443) else Err ''garbage after IPv6 literal''))
      | None \<Rightarrow>
          (case rsplit_once (CHR '':'') s of
             Some (host, port_str) \<Rightarrow>
               if CHR '':'' \<in> set host then Err ''IPv6 literal must be bracketed''
               else and_then (ok_or ''invalid port'' (parse_unsigned 65535 port_str)) (\<lambda>port. Ok (host, port))
           | None \<Rightarrow> Ok (s, 443)))"

section \<open>Routable addresses\<close>

datatype ip_addr =
    V4 byte byte byte byte
  | V6 "16 word" "16 word" "16 word" "16 word" "16 word" "16 word" "16 word" "16 word"

unbundle bit_operations_syntax

fun ip_is_loopback :: "ip_addr \<Rightarrow> bool" where
  "ip_is_loopback (V4 a b c d) = (a = 127)"
| "ip_is_loopback (V6 s0 s1 s2 s3 s4 s5 s6 s7) =
     (s0 = 0 \<and> s1 = 0 \<and> s2 = 0 \<and> s3 = 0 \<and> s4 = 0 \<and> s5 = 0 \<and> s6 = 0 \<and> s7 = 1)"

fun ip_is_unspecified :: "ip_addr \<Rightarrow> bool" where
  "ip_is_unspecified (V4 a b c d) = (a = 0 \<and> b = 0 \<and> c = 0 \<and> d = 0)"
| "ip_is_unspecified (V6 s0 s1 s2 s3 s4 s5 s6 s7) =
     (s0 = 0 \<and> s1 = 0 \<and> s2 = 0 \<and> s3 = 0 \<and> s4 = 0 \<and> s5 = 0 \<and> s6 = 0 \<and> s7 = 0)"

fun ip_is_multicast :: "ip_addr \<Rightarrow> bool" where
  "ip_is_multicast (V4 a b c d) = (224 \<le> a \<and> a \<le> 239)"
| "ip_is_multicast (V6 s0 s1 s2 s3 s4 s5 s6 s7) = (s0 AND 0xFF00 = 0xFF00)"

definition v4_routable :: "byte \<Rightarrow> byte \<Rightarrow> byte \<Rightarrow> byte \<Rightarrow> bool" where
  "v4_routable a b c d =
     (if ip_is_loopback (V4 a b c d) \<or> ip_is_unspecified (V4 a b c d) \<or> ip_is_multicast (V4 a b c d)
      then False
      else if a = 10 then False
      else if a = 172 \<and> 16 \<le> b \<and> b \<le> 31 then False
      else if a = 192 \<and> b = 168 then False
      else if a = 169 \<and> b = 254 then False
      else if a = 100 \<and> 64 \<le> b \<and> b \<le> 127 then False
      else if a = 192 \<and> b = 0 \<and> c = 0 then False
      else if a = 192 \<and> b = 0 \<and> c = 2 then False
      else if a = 198 \<and> b = 51 \<and> c = 100 then False
      else if a = 203 \<and> b = 0 \<and> c = 113 then False
      else if a = 198 \<and> 18 \<le> b \<and> b \<le> 19 then False
      else if 240 \<le> a then False
      else True)"

definition to_ipv4_mapped :: "ip_addr \<Rightarrow> (byte \<times> byte \<times> byte \<times> byte) option" where
  "to_ipv4_mapped ip =
     (case ip of
        V4 a b c d \<Rightarrow> None
      | V6 s0 s1 s2 s3 s4 s5 s6 s7 \<Rightarrow>
          if s0 = 0 \<and> s1 = 0 \<and> s2 = 0 \<and> s3 = 0 \<and> s4 = 0 \<and> s5 = 0xFFFF
          then Some (ucast (drop_bit 8 s6), ucast s6, ucast (drop_bit 8 s7), ucast s7) else None)"

fun is_public_routable :: "ip_addr \<Rightarrow> bool" where
  "is_public_routable (V4 a b c d) = v4_routable a b c d"
| "is_public_routable (V6 s0 s1 s2 s3 s4 s5 s6 s7) =
     (let ip = V6 s0 s1 s2 s3 s4 s5 s6 s7
      in if ip_is_loopback ip \<or> ip_is_unspecified ip \<or> ip_is_multicast ip then False
         else case to_ipv4_mapped ip of
                Some (a, b, c, d) \<Rightarrow> v4_routable a b c d
              | None \<Rightarrow>
                  if s0 AND 0xFFC0 = 0xFE80 then False
                  else if s0 AND 0xFE00 = 0xFC00 then False
                  else if s0 = 0x2001 \<and> s1 = 0x0DB8 then False
                  else True)"

section \<open>One connection\<close>

type_synonym socket_addr = "ip_addr \<times> nat"

fun read_line :: "string \<Rightarrow> string \<times> string" where
  "read_line [] = ([], [])"
| "read_line (c # cs) =
     (if c = CHR 0x0A then ([c], cs) else (case read_line cs of (l, r) \<Rightarrow> (c # l, r)))"

text \<open>Returns the line and the unread input.\<close>

definition read_line_bounded :: "nat \<Rightarrow> string \<Rightarrow> (string, string \<times> string) result" where
  "read_line_bounded max_bytes input =
     (case read_line input of (line, rest) \<Rightarrow>
        if \<not> utf8_valid line then Err ''stream did not contain valid UTF-8''
        else if max_bytes < length line then Err ''line too long''
        else Ok (line, rest))"

fun consume_headers :: "nat \<Rightarrow> string \<Rightarrow> (string, string) result" where
  "consume_headers 0 input = Ok input"
| "consume_headers (Suc n) input =
     and_then (read_line_bounded MAX_LINE_BYTES input) (\<lambda>(line, rest).
       if line = [CHR 0x0D, CHR 0x0A] \<or> line = [] then Ok rest else consume_headers n rest)"

text \<open>\<open>connect\<close> answers with an error message or success; the attempts are kept.\<close>

fun try_connect ::
  "(socket_addr \<Rightarrow> string option) \<Rightarrow> socket_addr list \<Rightarrow> string option
   \<Rightarrow> socket_addr option \<times> string option \<times> socket_addr list" where
  "try_connect conn [] last_err = (None, last_err, [])"
| "try_connect conn (sa # sas) last_err =
     (case conn sa of
        None \<Rightarrow> (Some sa, last_err, [sa])
      | Some e \<Rightarrow> (case try_connect conn sas (Some e) of (s, l, att) \<Rightarrow> (s, l, sa # att)))"

record conn_trace =
  ct_reply :: string
  ct_queries :: "string list"
  ct_attempts :: "socket_addr list"
  ct_tunnel :: "socket_addr option"
  ct_error :: "string option"

definition quiet :: conn_trace where
  "quiet = \<lparr>ct_reply = [], ct_queries = [], ct_attempts = [], ct_tunnel = None, ct_error = None\<rparr>"

definition crlf2 :: string where
  "crlf2 = [CHR 0x0D, CHR 0x0A, CHR 0x0D, CHR 0x0A]"

text \<open>From an admitted host and port on: resolve once, filter, read the headers, connect.\<close>

definition open_target ::
  "(string \<Rightarrow> socket_addr list option) \<Rightarrow> (socket_addr \<Rightarrow> string option)
   \<Rightarrow> string \<Rightarrow> nat \<Rightarrow> string \<Rightarrow> conn_trace" where
  "open_target resolve conn host port rest =
    (let query = host @ '':'' @ show_nat port;
         resolved = (case resolve query of Some as \<Rightarrow> as | None \<Rightarrow> []);
         routable = filter (\<lambda>sa. is_public_routable (fst sa)) resolved;
         asked = quiet\<lparr>ct_queries := [query]\<rparr>
     in if routable = [] then asked\<lparr>ct_reply := ''HTTP/1.1 403 Forbidden'' @ crlf2\<rparr>
        else
    (case consume_headers MAX_HEADER_LINES rest of
       Inl e \<Rightarrow> asked\<lparr>ct_error := Some e\<rparr>
     | Inr rest \<Rightarrow>
    (case try_connect conn routable None of
       (None, last_err, att) \<Rightarrow>
         asked\<lparr>ct_attempts := att,
               ct_reply := ''HTTP/1.1 502 Bad Gateway'' @ crlf2 @
                 (case last_err of Some e \<Rightarrow> e | None \<Rightarrow> [])\<rparr>
     | (Some sa, last_err, att) \<Rightarrow>
         asked\<lparr>ct_attempts := att, ct_tunnel := Some sa,
               ct_reply := ''HTTP/1.1 200 Connection Established'' @ crlf2\<rparr>)))"

definition handle_connection ::
  "(string \<Rightarrow> string) \<Rightarrow> (string \<Rightarrow> socket_addr list option) \<Rightarrow> (socket_addr \<Rightarrow> string option)
   \<Rightarrow> domain_pattern list \<Rightarrow> string \<Rightarrow> conn_trace" where
  "handle_connection lc resolve conn allowlist input =
    (case read_line_bounded MAX_LINE_BYTES input of
       Inl e \<Rightarrow> quiet\<lparr>ct_error := Some e\<rparr>
     | Inr (request_line, rest) \<Rightarrow>
    (let parts = split_whitespace request_line
     in if length parts < 3 \<or> parts ! 0 \<noteq> ''CONNECT''
        then quiet\<lparr>ct_reply := ''HTTP/1.1 400 Bad Request'' @ crlf2\<rparr>
        else
    (case parse_host_port (parts ! 1) of
       Inl e \<Rightarrow> quiet\<lparr>ct_error := Some e\<rparr>
     | Inr (host, port) \<Rightarrow>
     if \<not> is_allowed lc host allowlist
     then quiet\<lparr>ct_reply := ''HTTP/1.1 403 Forbidden'' @ crlf2\<rparr>
     else open_target resolve conn host port rest)))"

section \<open>Reference notions\<close>

text \<open>What a pattern means on ASCII names: equality up to case, or for \<open>*.b\<close> the name
  \<open>b\<close> and everything that ends in a dot and \<open>b\<close>.\<close>

definition lower :: "string \<Rightarrow> string" where
  "lower s = map ascii_lower s"

definition lc_ascii :: "(string \<Rightarrow> string) \<Rightarrow> bool" where
  "lc_ascii lc = (\<forall>s. ascii_string s \<longrightarrow> lc s = lower s)"

definition names_host :: "string \<Rightarrow> string \<Rightarrow> bool" where
  "names_host pat host =
     (case strip_prefix ''*.'' pat of
        Some b \<Rightarrow> lower host = lower b \<or> (\<exists>x. lower host = x @ ''.'' @ lower b)
      | None \<Rightarrow> lower host = lower pat)"

lemma ascii_lower_special:
  "ascii_lower c = CHR ''*'' \<longleftrightarrow> c = CHR ''*''" "ascii_lower c = CHR ''.'' \<longleftrightarrow> c = CHR ''.''"
proof -
  have "ascii_lower c = d \<longleftrightarrow> (of_char (ascii_lower c) :: nat) = of_char d" for d
    by simp
  moreover have "c = d \<longleftrightarrow> (of_char c :: nat) = of_char d" for d
    by simp
  ultimately show "ascii_lower c = CHR ''*'' \<longleftrightarrow> c = CHR ''*''" "ascii_lower c = CHR ''.'' \<longleftrightarrow> c = CHR ''.''"
    by (simp_all only: ascii_lower_code) auto
qed

lemma strip_wildcard_lower:
  "strip_prefix ''*.'' (lower pat) = map_option lower (strip_prefix ''*.'' pat)"
proof (cases pat)
  case (Cons a pat')
  then show ?thesis
    by (cases pat')
       (simp_all add: lower_def ascii_lower_special eq_commute [of "CHR ''*''"]
          eq_commute [of "CHR ''.''"] del: ascii_lower.simps)
qed (simp add: lower_def)

lemma pattern_names_host:
  assumes "lc_ascii lc" "ascii_string pat" "ascii_string host"
  shows "pattern_matches lc (pattern_parse lc pat) host \<longleftrightarrow> names_host pat host"
  using assms
  by (auto simp: lc_ascii_def pattern_parse_def Let_def strip_wildcard_lower names_host_def ends_with_iff
           split: option.splits)

text \<open>The blocks that the filter of IPv4 addresses excludes, as network and prefix length.\<close>

definition v4_number :: "byte \<Rightarrow> byte \<Rightarrow> byte \<Rightarrow> byte \<Rightarrow> nat" where
  "v4_number a b c d = unat a * 2 ^ 24 + unat b * 2 ^ 16 + unat c * 2 ^ 8 + unat d"

definition in_block :: "nat \<Rightarrow> (byte \<times> byte \<times> byte \<times> byte) \<times> nat \<Rightarrow> bool" where
  "in_block n blk = (case blk of ((a, b, c, d), len) \<Rightarrow>
     n div 2 ^ (32 - len) = v4_number a b c d div 2 ^ (32 - len))"

definition special_blocks :: "((byte \<times> byte \<times> byte \<times> byte) \<times> nat) list" where
  "special_blocks =
     [((0, 0, 0, 0), 32), ((10, 0, 0, 0), 8), ((100, 64, 0, 0), 10), ((127, 0, 0, 0), 8),
      ((169, 254, 0, 0), 16), ((172, 16, 0, 0), 12), ((192, 0, 0, 0), 24), ((192, 0, 2, 0), 24),
      ((192, 168, 0, 0), 16), ((198, 18, 0, 0), 15), ((198, 51, 100, 0), 24), ((203, 0, 113, 0), 24),
      ((224, 0, 0, 0), 4), ((240, 0, 0, 0), 4)]"

lemma v4_number_div:
  fixes a b c d :: byte
  shows "v4_number a b c d div 2 ^ 28 = unat a div 16"
    and "v4_number a b c d div 2 ^ 24 = unat a"
    and "v4_number a b c d div 2 ^ 22 = unat a * 4 + unat b div 64"
    and "v4_number a b c d div 2 ^ 20 = unat a * 16 + unat b div 16"
    and "v4_number a b c d div 2 ^ 17 = unat a * 128 + unat b div 2"
    and "v4_number a b c d div 2 ^ 16 = unat a * 256 + unat b"
    and "v4_number a b c d div 2 ^ 8 = unat a * 65536 + unat b * 256 + unat c"
  using unsigned_less [of a, where ?'a = nat] unsigned_less [of b, where ?'a = nat]
    unsigned_less [of c, where ?'a = nat] unsigned_less [of d, where ?'a = nat]
  unfolding v4_number_def by simp_all

lemma byte_eq_nat: "(x :: byte) = y \<longleftrightarrow> unat x = unat y"
  by (rule word_eq_iff_unsigned)

lemma byte_bound: "unat (x :: byte) < 256"
  using unsigned_less [of x, where ?'a = nat] by simp


lemma mixed_radix:
  fixes x y x' y' k :: nat
  assumes "y < k" "y' < k"
  shows "x * k + y = x' * k + y' \<longleftrightarrow> x = x' \<and> y = y'"
proof
  assume eq: "x * k + y = x' * k + y'"
  have "(x * k + y) div k = x" "(x * k + y) mod k = y" "(x' * k + y') div k = x'" "(x' * k + y') mod k = y'"
    using assms by auto
  then show "x = x' \<and> y = y'"
    using eq by metis
qed simp


lemma in_block_24:
  "in_block (v4_number a b c d) ((x, y, z, 0), 24) \<longleftrightarrow> a = x \<and> b = y \<and> c = z"
proof -
  have "in_block (v4_number a b c d) ((x, y, z, 0), 24) \<longleftrightarrow>
      (unat a * 256 + unat b) * 256 + unat c = (unat x * 256 + unat y) * 256 + unat z"
    by (simp add: in_block_def v4_number_div [simplified] add_mult_distrib mult.assoc mult.commute)
  then show ?thesis
    by (simp only: mixed_radix [OF byte_bound byte_bound] byte_eq_nat conj_assoc)
qed

lemma in_block_16:
  "in_block (v4_number a b c d) ((x, y, 0, 0), 16) \<longleftrightarrow> a = x \<and> b = y"
proof -
  have "in_block (v4_number a b c d) ((x, y, 0, 0), 16) \<longleftrightarrow> unat a * 256 + unat b = unat x * 256 + unat y"
    by (simp add: in_block_def v4_number_div [simplified])
  then show ?thesis
    by (simp only: mixed_radix [OF byte_bound byte_bound] byte_eq_nat)
qed

lemma in_block_8: "in_block (v4_number a b c d) ((x, 0, 0, 0), 8) \<longleftrightarrow> a = x"
  by (simp add: in_block_def v4_number_div [simplified] byte_eq_nat)

lemma byte_div_bound: "unat (b :: byte) div 2 < 128" "unat b div 16 < 16" "unat b div 64 < 4"
  using byte_bound [of b] by auto

lemma in_block_between:
  "in_block (v4_number a b c d) ((x, y, 0, 0), 10) \<longleftrightarrow> a = x \<and> unat b div 64 = unat y div 64"
  "in_block (v4_number a b c d) ((x, y, 0, 0), 12) \<longleftrightarrow> a = x \<and> unat b div 16 = unat y div 16"
  "in_block (v4_number a b c d) ((x, y, 0, 0), 15) \<longleftrightarrow> a = x \<and> unat b div 2 = unat y div 2"
  by (simp_all add: in_block_def v4_number_div [simplified] byte_eq_nat [of a]
        mixed_radix [OF byte_div_bound(1) byte_div_bound(1)]
        mixed_radix [OF byte_div_bound(2) byte_div_bound(2)]
        mixed_radix [OF byte_div_bound(3) byte_div_bound(3)])

lemma v4_number_zero: "in_block (v4_number a b c d) ((0, 0, 0, 0), 32) \<longleftrightarrow> a = 0 \<and> b = 0 \<and> c = 0 \<and> d = 0"
  by (auto simp: in_block_def v4_number_def byte_eq_nat)

lemma in_block_4: "in_block (v4_number a b c d) ((x, 0, 0, 0), 4) \<longleftrightarrow> unat a div 16 = unat x div 16"
  by (simp add: in_block_def v4_number_div [simplified])

lemmas in_block_simps = v4_number_zero in_block_4 in_block_8 in_block_16 in_block_24 in_block_between

lemma v4_routable_blocks:
  "v4_routable a b c d \<longleftrightarrow> \<not> list_ex (in_block (v4_number a b c d)) special_blocks"
proof -
  have "unat a div 16 = 14 \<longleftrightarrow> 224 \<le> a \<and> a \<le> 239" "unat a div 16 = 15 \<longleftrightarrow> 240 \<le> a"
    using byte_bound [of a] by (auto simp: word_le_nat_alt)
  moreover have "unat b div 64 = 1 \<longleftrightarrow> 64 \<le> b \<and> b \<le> 127" "unat b div 16 = 1 \<longleftrightarrow> 16 \<le> b \<and> b \<le> 31"
    "unat b div 2 = 9 \<longleftrightarrow> 18 \<le> b \<and> b \<le> 19"
    using byte_bound [of b] by (auto simp: word_le_nat_alt)
  ultimately show ?thesis
    by (simp add: v4_routable_def special_blocks_def in_block_simps)
qed

definition mapped_v6 :: "byte \<Rightarrow> byte \<Rightarrow> byte \<Rightarrow> byte \<Rightarrow> ip_addr" where
  "mapped_v6 a b c d =
     V6 0 0 0 0 0 0xFFFF (push_bit 8 (ucast a) OR ucast b) (push_bit 8 (ucast c) OR ucast d)"

lemma seg_high: "ucast (drop_bit 8 (push_bit 8 (ucast a) OR ucast b :: 16 word)) = (a :: byte)" for b :: byte
  by (rule bit_word_eqI) (auto simp: bit_simps dest: bit_imp_le_length)

lemma seg_low: "ucast (push_bit 8 (ucast a) OR ucast b :: 16 word) = (b :: byte)" for a :: byte
  by (rule bit_word_eqI) (auto simp: bit_simps dest: bit_imp_le_length)

lemma mapped_routable: "is_public_routable (mapped_v6 a b c d) = v4_routable a b c d"
  by (simp add: mapped_v6_def to_ipv4_mapped_def Let_def seg_high [simplified] seg_low)

lemma try_connect_spec:
  "try_connect conn sas e = (s, l, att) \<Longrightarrow>
   s = List.find (\<lambda>sa. conn sa = None) sas \<and> set att \<subseteq> set sas \<and>
   (\<forall>sa. s = Some sa \<longrightarrow> sa \<in> set att)"
proof (induction sas arbitrary: e s l att)
  case (Cons sa sas)
  show ?case
  proof (cases "conn sa")
    case (Some x)
    obtain s' l' att' where rec: "try_connect conn sas (Some x) = (s', l', att')"
      by (cases "try_connect conn sas (Some x)") auto
    from Cons.IH [OF rec] Cons.prems Some rec show ?thesis
      by auto
  qed (use Cons.prems in auto)
qed simp

definition public_answers :: "(string \<Rightarrow> socket_addr list option) \<Rightarrow> string \<Rightarrow> nat \<Rightarrow> socket_addr list" where
  "public_answers resolve host port =
     filter (\<lambda>sa. is_public_routable (fst sa))
       (case resolve (host @ '':'' @ show_nat port) of Some as \<Rightarrow> as | None \<Rightarrow> [])"

lemma open_target_tries:
  assumes "t = open_target resolve conn host port rest" "ct_attempts t \<noteq> [] \<or> ct_tunnel t \<noteq> None"
  shows "ct_queries t = [host @ '':'' @ show_nat port] \<and>
         (\<exists>l. try_connect conn (public_answers resolve host port) None = (ct_tunnel t, l, ct_attempts t))"
  using assms
  by (auto simp: open_target_def Let_def quiet_def public_answers_def
           split: sum.splits prod.splits if_splits option.splits)

text \<open>The host and port that a request line names, if it is a \<open>CONNECT\<close> of at least three words.\<close>

definition requested_target :: "string \<Rightarrow> (string \<times> nat) option" where
  "requested_target input =
     (case read_line_bounded MAX_LINE_BYTES input of
        Inl e \<Rightarrow> None
      | Inr (line, rest) \<Rightarrow>
          (case split_whitespace line of
             verb # target # version # words \<Rightarrow>
               if verb = ''CONNECT'' then (case parse_host_port target of Inl e \<Rightarrow> None | Inr hp \<Rightarrow> Some hp) else None
           | _ \<Rightarrow> None))"

lemma requested_target_Some:
  assumes "read_line_bounded MAX_LINE_BYTES input = Ok (line, rest)" "\<not> length (split_whitespace line) < 3"
    "split_whitespace line ! 0 = ''CONNECT''" "parse_host_port (split_whitespace line ! 1) = Ok hp"
  shows "requested_target input = Some hp"
proof -
  obtain a b c words where "split_whitespace line = a # b # c # words"
    using assms(2) by (metis One_nat_def Suc_1 length_Cons less_Suc_eq_0_disj list.exhaust list.size(3)
        not_less_eq numeral_3_eq_3 zero_less_Suc)
  then show ?thesis
    using assms by (simp add: requested_target_def)
qed

lemma handle_connection_target:
  assumes "ct_attempts (handle_connection lc resolve conn allowlist input) \<noteq> [] \<or>
           ct_tunnel (handle_connection lc resolve conn allowlist input) \<noteq> None"
  shows "\<exists>host port rest. requested_target input = Some (host, port) \<and> is_allowed lc host allowlist \<and>
           handle_connection lc resolve conn allowlist input = open_target resolve conn host port rest"
  using assms requested_target_Some
  by (auto simp: handle_connection_def Let_def quiet_def split: sum.splits prod.splits if_splits)

text \<open>How a connection ends: with a tunnel, with one of the three refusals, or closed without a word.\<close>

definition refusal :: "conn_trace \<Rightarrow> bool" where
  "refusal t =
     (ct_error t = None \<and>
      (ct_reply t \<in> {''HTTP/1.1 400 Bad Request'' @ crlf2, ''HTTP/1.1 403 Forbidden'' @ crlf2} \<and> ct_attempts t = [] \<or>
       starts_with (ct_reply t) (''HTTP/1.1 502 Bad Gateway'' @ crlf2) \<and> ct_attempts t \<noteq> []))"

definition dropped :: "conn_trace \<Rightarrow> bool" where
  "dropped t = (ct_error t \<noteq> None \<and> ct_reply t = [] \<and> ct_attempts t = [])"

lemma try_connect_tried: "try_connect conn sas e = (s, l, att) \<Longrightarrow> sas \<noteq> [] \<Longrightarrow> att \<noteq> []"
  by (cases sas) (auto split: option.splits prod.splits)

lemma starts_with_self: "starts_with p p" "starts_with (p @ q @ r) (p @ q)"
  by (simp_all add: starts_with_def strip_prefix_Some_iff)

lemma open_target_ends:
  assumes "t = open_target resolve conn host port rest"
  shows "if ct_tunnel t = None then refusal t \<or> dropped t
         else ct_error t = None \<and> ct_reply t = ''HTTP/1.1 200 Connection Established'' @ crlf2"
proof (cases "public_answers resolve host port = []")
  case True
  then have "t = quiet\<lparr>ct_queries := [host @ '':'' @ show_nat port], ct_reply := ''HTTP/1.1 403 Forbidden'' @ crlf2\<rparr>"
    using assms by (simp add: open_target_def public_answers_def Let_def)
  then show ?thesis
    by (simp add: refusal_def quiet_def)
next
  case False
  obtain s l att where attempt: "try_connect conn (public_answers resolve host port) None = (s, l, att)"
    by (cases "try_connect conn (public_answers resolve host port) None") auto
  note tried = try_connect_tried [OF attempt False]
  show ?thesis
    using assms False attempt tried
    by (auto simp: open_target_def public_answers_def Let_def refusal_def dropped_def quiet_def starts_with_self
        simp del: append.simps split: sum.splits option.splits)
qed

lemma handle_connection_cases:
  fixes lc resolve conn allowlist input
  defines "t \<equiv> handle_connection lc resolve conn allowlist input"
  shows "(\<exists>host port rest. t = open_target resolve conn host port rest) \<or> (\<exists>e. t = quiet\<lparr>ct_error := Some e\<rparr>) \<or>
    t = quiet\<lparr>ct_reply := ''HTTP/1.1 400 Bad Request'' @ crlf2\<rparr> \<or> t = quiet\<lparr>ct_reply := ''HTTP/1.1 403 Forbidden'' @ crlf2\<rparr>"
proof (cases "read_line_bounded MAX_LINE_BYTES input")
  case (Inr lr)
  then show ?thesis
    by (cases "parse_host_port (split_whitespace (fst lr) ! 1)")
      (auto simp: t_def handle_connection_def Let_def split: prod.split simp del: append.simps, blast)
qed (auto simp: t_def handle_connection_def)

lemma handle_connection_ends:
  assumes "t = handle_connection lc resolve conn allowlist input"
  shows "if ct_tunnel t = None then refusal t \<or> dropped t
         else ct_error t = None \<and> ct_reply t = ''HTTP/1.1 200 Connection Established'' @ crlf2"
  using handle_connection_cases [of lc resolve conn allowlist input] unfolding assms [symmetric]
proof (elim disjE exE)
  fix host port rest
  assume "t = open_target resolve conn host port rest"
  then show ?thesis
    by (rule open_target_ends)
qed (auto simp: refusal_def dropped_def quiet_def simp del: append.simps)

section \<open>Properties\<close>

definition demo_connect :: conn_trace where
  "demo_connect =
     handle_connection lower
       (\<lambda>q. if q = ''api.example.com:443'' then Some [(V4 10 0 0 1, 443), (V4 93 184 216 34, 443)] else None)
       (\<lambda>sa. None) [pattern_parse lower ''*.Example.com'']
       (''CONNECT api.example.com:443 HTTP/1.1'' @ crlf2)"

lemma demo_connect_eq:
  "demo_connect =
     \<lparr>ct_reply = ''HTTP/1.1 200 Connection Established'' @ crlf2, ct_queries = [''api.example.com:443''],
      ct_attempts = [(V4 93 184 216 34, 443)], ct_tunnel = Some (V4 93 184 216 34, 443), ct_error = None\<rparr>"
proof -
  have line: "read_line_bounded MAX_LINE_BYTES (''CONNECT api.example.com:443 HTTP/1.1'' @ crlf2) =
      Ok (''CONNECT api.example.com:443 HTTP/1.1'' @ [CHR 0x0D, CHR 0x0A], [CHR 0x0D, CHR 0x0A])"
    by (simp add: read_line_bounded_def crlf2_def utf8_valid_ascii ascii_string_def MAX_LINE_BYTES_def)
  have parts: "split_whitespace (''CONNECT api.example.com:443 HTTP/1.1'' @ [CHR 0x0D, CHR 0x0A]) =
      [''CONNECT'', ''api.example.com:443'', ''HTTP/1.1'']"
    by (simp add: split_whitespace_def split_ws_solid split_ws_blank solid_def)
  have target: "parse_host_port ''api.example.com:443'' = Ok (''api.example.com'', 443)"
    by (simp add: parse_host_port_def rsplit_once_def parse_unsigned_def digit_val_def)
  have allowed: "is_allowed lower ''api.example.com'' [pattern_parse lower ''*.Example.com'']"
    by (simp add: is_allowed_def pattern_parse_def lower_def ends_with_def strip_suffix_def char_of_eq_iff)
  have headers: "consume_headers MAX_HEADER_LINES [CHR 0x0D, CHR 0x0A] = Ok []"
    by (simp add: MAX_HEADER_LINES_def numeral_eq_Suc read_line_bounded_def MAX_LINE_BYTES_def)
  have port: "show_nat 443 = ''443''"
    by (simp add: show_nat.simps digit_char_def char_of_eq_iff)
  show ?thesis
    unfolding demo_connect_def handle_connection_def
    by (simp add: line parts target allowed open_target_def headers port v4_routable_def quiet_def
        del: append.simps)
qed

lemma lower_ascii: "lc_ascii lower"
  by (simp add: lc_ascii_def)

text \<open>C5. The proxy opens connections only where the allowlist and the address filter let
  it: every address it tries was returned by the one name lookup it made, for the host and port of the
  request line, which the allowlist admits, and is publicly routable; a tunnel goes to one of those
  addresses.  The client learns of a tunnel by the answer 200.  Without a tunnel it gets the answer 400
  or 403 and nothing was tried, or 502 after at least one address was tried, or - when a line is too
  long or not UTF-8, or the target cannot be parsed - the connection is closed without an answer and
  nothing was tried.  Writing to the client is taken to succeed.\<close>

theorem connect_only_allowed_public:
  assumes "t = handle_connection lc resolve conn allowlist input"
  shows "(\<forall>sa. sa \<in> set (ct_attempts t) \<or> ct_tunnel t = Some sa \<longrightarrow>
           (\<exists>host port as. requested_target input = Some (host, port) \<and> is_allowed lc host allowlist \<and>
              ct_queries t = [host @ '':'' @ show_nat port] \<and>
              resolve (host @ '':'' @ show_nat port) = Some as \<and> sa \<in> set as \<and> is_public_routable (fst sa))) \<and>
         (if ct_tunnel t = None then refusal t \<or> dropped t
          else ct_error t = None \<and> ct_reply t = ''HTTP/1.1 200 Connection Established'' @ crlf2)"
proof (intro conjI allI impI)
  fix sa
  assume sa: "sa \<in> set (ct_attempts t) \<or> ct_tunnel t = Some sa"
  then have some: "ct_attempts t \<noteq> [] \<or> ct_tunnel t \<noteq> None"
    by auto
  then obtain host port rest where host: "requested_target input = Some (host, port)" "is_allowed lc host allowlist"
    and t: "t = open_target resolve conn host port rest"
    using handle_connection_target [of lc resolve conn allowlist input] assms by blast
  obtain l where "ct_queries t = [host @ '':'' @ show_nat port]"
    and tries: "try_connect conn (public_answers resolve host port) None = (ct_tunnel t, l, ct_attempts t)"
    using open_target_tries [OF t some] by blast
  moreover have "sa \<in> set (public_answers resolve host port)"
    using try_connect_spec [OF tries] sa by blast
  ultimately show "\<exists>host port as. requested_target input = Some (host, port) \<and> is_allowed lc host allowlist \<and>
      ct_queries t = [host @ '':'' @ show_nat port] \<and>
      resolve (host @ '':'' @ show_nat port) = Some as \<and> sa \<in> set as \<and> is_public_routable (fst sa)"
    using host by (auto simp: public_answers_def split: option.splits)
qed (rule handle_connection_ends [OF assms])

theorem connect_only_allowed_public_witness:
  "(\<exists>host port. requested_target (''CONNECT api.example.com:443 HTTP/1.1'' @ crlf2) = Some (host, port) \<and>
     is_allowed lower host [pattern_parse lower ''*.Example.com''] \<and>
     ct_queries demo_connect = [host @ '':'' @ show_nat port] \<and>
     is_public_routable (fst (V4 93 184 216 34, 443 :: nat))) \<and>
   ct_reply demo_connect = ''HTTP/1.1 200 Connection Established'' @ crlf2 \<and>
   refusal (handle_connection lower (\<lambda>q. None) (\<lambda>sa. None) [] ''GET / HTTP/1.1'')"
proof (intro conjI)
  have tunnel: "ct_tunnel demo_connect = Some (V4 93 184 216 34, 443)"
    by (simp add: demo_connect_eq)
  note all = connect_only_allowed_public [OF demo_connect_def]
  show "\<exists>host port. requested_target (''CONNECT api.example.com:443 HTTP/1.1'' @ crlf2) = Some (host, port) \<and>
     is_allowed lower host [pattern_parse lower ''*.Example.com''] \<and>
     ct_queries demo_connect = [host @ '':'' @ show_nat port] \<and>
     is_public_routable (fst (V4 93 184 216 34, 443 :: nat))"
    using all [THEN conjunct1] tunnel by blast
  show "ct_reply demo_connect = ''HTTP/1.1 200 Connection Established'' @ crlf2"
    using all [THEN conjunct2] unfolding tunnel by simp
  let ?get = "handle_connection lower (\<lambda>q. None) (\<lambda>sa. None) [] ''GET / HTTP/1.1''"
  have "ct_tunnel ?get = None \<and> ct_error ?get = None"
    by code_simp
  then show "refusal ?get"
    using connect_only_allowed_public [OF refl, of lower "\<lambda>q. None" "\<lambda>sa. None" "[]" "''GET / HTTP/1.1''", THEN conjunct2]
    by (simp add: dropped_def)
qed

text \<open>C24. The allowlist matches names and nothing else: on ASCII names, a host passes the
  parsed patterns exactly when it equals one of them up to case, or lies under the base of
  a \<open>*.\<close> pattern, separated by a dot.\<close>

theorem allowlist_exact:
  assumes "lc_ascii lc" "list_all ascii_string pats" "ascii_string host"
  shows "is_allowed lc host (map (pattern_parse lc) pats) \<longleftrightarrow> list_ex (\<lambda>p. names_host p host) pats"
  using assms pattern_names_host [OF assms(1) _ assms(3)]
  by (induction pats) (auto simp: is_allowed_def)

theorem allowlist_exact_witness:
  "\<not> is_allowed lower ''evilexample.com'' (map (pattern_parse lower) [''*.example.com'', ''api.foo.org'']) \<and>
   is_allowed lower ''A.EXAMPLE.com'' (map (pattern_parse lower) [''*.example.com'', ''api.foo.org''])"
proof -
  have "\<not> names_host ''*.example.com'' ''evilexample.com''" "\<not> names_host ''api.foo.org'' ''evilexample.com''"
    by (auto simp: names_host_def lower_def char_of_eq_iff Cons_eq_append_conv append_eq_Cons_conv)
  moreover have "names_host ''*.example.com'' ''A.EXAMPLE.com''"
    by (auto simp: names_host_def lower_def char_of_eq_iff intro: exI [of _ "''a''"])
  ultimately show ?thesis
    using allowlist_exact [OF lower_ascii, of "[''*.example.com'', ''api.foo.org'']" "''evilexample.com''"]
      allowlist_exact [OF lower_ascii, of "[''*.example.com'', ''api.foo.org'']" "''A.EXAMPLE.com''"]
    by (simp add: ascii_string_def)
qed

text \<open>The target of a CONNECT request is read back as written: a host without colon or
  a bracketed IPv6 literal, followed by a port, parses to that host and port; and whatever
  parses has a 16-bit port and a host without colon unless it was bracketed.\<close>

theorem parse_host_port_roundtrip:
  "(port \<le> 65535 \<and> CHR '':'' \<notin> set host \<and> \<not> starts_with host ''['' \<longrightarrow>
      parse_host_port (host @ '':'' @ show_nat port) = Ok (host, port)) \<and>
   (port \<le> 65535 \<and> CHR '']'' \<notin> set host \<longrightarrow>
      parse_host_port (''['' @ host @ '']:'' @ show_nat port) = Ok (host, port)) \<and>
   (parse_host_port s = Ok (h, p) \<longrightarrow> p \<le> 65535 \<and> (CHR '':'' \<in> set h \<longrightarrow> starts_with s ''[''))"
proof (intro conjI impI)
  assume a: "port \<le> 65535 \<and> CHR '':'' \<notin> set host \<and> \<not> starts_with host ''[''"
  have "CHR '':'' \<notin> set (show_nat port)"
    using show_nat_digits [of "CHR '':''" port] by auto
  then have "rsplit_once (CHR '':'') (host @ '':'' @ show_nat port) = Some (host, show_nat port)"
    by (simp add: rsplit_once_Some_iff)
  moreover have "strip_prefix ''['' (host @ '':'' @ show_nat port) = None"
    using a by (cases host) (auto simp: starts_with_def)
  ultimately show "parse_host_port (host @ '':'' @ show_nat port) = Ok (host, port)"
    using a parse_show_nat [of port 65535] by (simp add: parse_host_port_def)
next
  assume a: "port \<le> 65535 \<and> CHR '']'' \<notin> set host"
  have "split_once (CHR '']'') (host @ '']:'' @ show_nat port) = Some (host, '':'' @ show_nat port)"
    using a by (simp add: split_once_Some_iff)
  then show "parse_host_port (''['' @ host @ '']:'' @ show_nat port) = Ok (host, port)"
    using a parse_show_nat [of port 65535] by (simp add: parse_host_port_def)
next
  assume "parse_host_port s = Ok (h, p)"
  then show "p \<le> 65535"
    by (auto simp: parse_host_port_def and_then_Ok_iff split: option.splits if_splits
             dest: parse_unsigned_bound)
next
  assume "parse_host_port s = Ok (h, p)" "CHR '':'' \<in> set h"
  then show "starts_with s ''[''"
    by (auto simp: parse_host_port_def and_then_Ok_iff starts_with_def rsplit_once_None_iff
             split: option.splits if_splits)
qed

theorem parse_host_port_roundtrip_witness:
  "parse_host_port (''example.com'' @ '':'' @ show_nat 8443) = Ok (''example.com'', 8443) \<and>
   parse_host_port (''['' @ ''::1'' @ '']:'' @ show_nat 443) = Ok (''::1'', 443)"
  using parse_host_port_roundtrip [of 8443 "''example.com''"] parse_host_port_roundtrip [of 443 "''::1''"]
  by (simp add: starts_with_def)

text \<open>C25. The filter of addresses is the complement of the special-purpose blocks: an IPv4
  address passes exactly when it lies in none of the listed networks, and an IPv4-mapped
  IPv6 address passes exactly when the address inside it does.\<close>

theorem routable_blocks:
  "is_public_routable (V4 a b c d) = (\<not> list_ex (in_block (v4_number a b c d)) special_blocks) \<and>
   is_public_routable (mapped_v6 a b c d) = is_public_routable (V4 a b c d)"
  by (simp add: mapped_routable v4_routable_blocks)

text \<open>Among the admitted addresses the first that accepts is used: once the request
  headers have been read, the tunnel goes to the first publicly routable answer of the
  lookup to which a connection succeeds, and there is none only if all of them fail.\<close>

theorem open_target_first:
  assumes "consume_headers MAX_HEADER_LINES rest = Ok rest'"
  shows "ct_tunnel (open_target resolve conn host port rest) =
         List.find (\<lambda>sa. conn sa = None) (public_answers resolve host port)"
proof -
  obtain s l att where tries: "try_connect conn (public_answers resolve host port) None = (s, l, att)"
    by (cases "try_connect conn (public_answers resolve host port) None") auto
  have "ct_tunnel (open_target resolve conn host port rest) = s"
    using assms tries
    by (auto simp: open_target_def Let_def quiet_def public_answers_def split: option.splits prod.splits)
  then show ?thesis
    using try_connect_spec [OF tries] by simp
qed

theorem open_target_first_witness:
  "ct_tunnel (open_target (\<lambda>q. Some [(V4 127 0 0 1, 80), (V4 1 1 1 1, 80), (V4 8 8 8 8, 80)])
     (\<lambda>sa. if sa = (V4 1 1 1 1, 80) then Some ''refused'' else None) ''h'' 80 []) = Some (V4 8 8 8 8, 80)"
proof -
  have "consume_headers MAX_HEADER_LINES [] = Ok []"
    by (simp add: MAX_HEADER_LINES_def numeral_eq_Suc read_line_bounded_def MAX_LINE_BYTES_def)
  from open_target_first [OF this] show ?thesis
    by (simp add: public_answers_def v4_routable_def)
qed

end
