(* ===== verification/Jail_Config.thy ===== *)
theory Jail_Config
  imports Prelude
begin

text \<open>
  Jail configuration and its presets (\<open>agentjail/src/config.rs\<close>) and the errors of the crate
  (\<open>error.rs\<close>).  Unsigned 64-bit fields are natural numbers; where the code multiplies them the
  wrap-around is written out.
\<close>

section \<open>Errors\<close>

text \<open>\<open>JailError\<close>; the wrapped system error is its message.\<close>

datatype jail_error =
    NamespaceError string | UidMapError string | MountError string | IoError string
  | SeccompError string | CgroupError string | SnapshotError string | GpuError string
  | LandlockError string | NetworkError string | ExecError string | ForkError string
  | PipeError string | PathNotFound string | BadConfig string

section \<open>Configuration\<close>

datatype access = ReadOnly | WriteOnly | ReadWrite

datatype network = NetNone | Loopback | Allowlist "string list"

datatype seccomp_level = Disabled | Standard | Strict

record gpu_config =
  gpu_enabled :: bool
  gpu_devices :: "nat list"

record jail_config =
  jc_source :: string
  jc_output :: string
  jc_source_rw :: bool
  jc_network :: network
  jc_seccomp :: seccomp_level
  jc_landlock :: bool
  jc_memory_mb :: nat
  jc_cpu_percent :: nat
  jc_max_pids :: nat
  jc_io_read_mbps :: nat
  jc_io_write_mbps :: nat
  jc_timeout_secs :: nat
  jc_env :: "(string \<times> string) list"
  jc_user_namespace :: bool
  jc_pid_namespace :: bool
  jc_ipc_namespace :: bool
  jc_workdir :: string
  jc_gpu :: gpu_config
  jc_readonly_overlays :: "string list"

definition gpu_default :: gpu_config where
  "gpu_default = \<lparr>gpu_enabled = False, gpu_devices = []\<rparr>"

definition jail_config_default :: jail_config where
  "jail_config_default =
     \<lparr>jc_source = [], jc_output = [], jc_source_rw = False, jc_network = NetNone,
      jc_seccomp = Standard, jc_landlock = True, jc_memory_mb = 512, jc_cpu_percent = 100,
      jc_max_pids = 64, jc_io_read_mbps = 0, jc_io_write_mbps = 0, jc_timeout_secs = 300,
      jc_env = [], jc_user_namespace = True, jc_pid_namespace = True, jc_ipc_namespace = True,
      jc_workdir = ''/workspace'', jc_gpu = gpu_default, jc_readonly_overlays = []\<rparr>"

definition preset_build :: "string \<Rightarrow> string \<Rightarrow> jail_config" where
  "preset_build src out =
     jail_config_default\<lparr>jc_source := src, jc_output := out, jc_network := NetNone,
       jc_seccomp := Strict, jc_memory_mb := 512, jc_cpu_percent := 400, jc_max_pids := 128,
       jc_timeout_secs := 600\<rparr>"

definition preset_install :: "string \<Rightarrow> string \<Rightarrow> string list \<Rightarrow> jail_config" where
  "preset_install src out allowed_domains =
     jail_config_default\<lparr>jc_source := src, jc_output := out, jc_network := Allowlist allowed_domains,
       jc_seccomp := Standard, jc_memory_mb := 512, jc_cpu_percent := 400, jc_max_pids := 128,
       jc_timeout_secs := 600\<rparr>"

definition preset_agent :: "string \<Rightarrow> string \<Rightarrow> jail_config" where
  "preset_agent src out =
     jail_config_default\<lparr>jc_source := src, jc_output := out, jc_network := NetNone,
       jc_seccomp := Standard, jc_memory_mb := 256, jc_cpu_percent := 100, jc_max_pids := 32,
       jc_timeout_secs := 300\<rparr>"

definition preset_gpu :: "string \<Rightarrow> string \<Rightarrow> jail_config" where
  "preset_gpu src out =
     jail_config_default\<lparr>jc_source := src, jc_output := out, jc_network := NetNone,
       jc_seccomp := Standard, jc_memory_mb := 8192, jc_cpu_percent := 400, jc_max_pids := 256,
       jc_timeout_secs := 3600, jc_gpu := \<lparr>gpu_enabled = True, gpu_devices = []\<rparr>\<rparr>"

definition preset_dev :: "string \<Rightarrow> string \<Rightarrow> jail_config" where
  "preset_dev src out =
     jail_config_default\<lparr>jc_source := src, jc_output := out, jc_network := Loopback,
       jc_seccomp := Standard, jc_memory_mb := 1024, jc_cpu_percent := 400, jc_max_pids := 256,
       jc_timeout_secs := 3600\<rparr>"

end
