(* ===== verification/Seccomp.thy ===== *)
theory Seccomp
  imports Jail_Config
begin

text \<open>
  The system-call filter (\<open>agentjail/src/seccomp.rs\<close>).  A filter is a map from system
  calls to rules together with the two actions, as the code hands it to the
  \<open>seccompiler\<close> crate; \<open>x86\<close> says whether the target is x86-64 or aarch64.
\<close>

type_synonym syscall = string
type_synonym syscall_args = "nat \<Rightarrow> 64 word"

datatype seccomp_action = Allow | Errno nat

text \<open>\<open>SeccompCondition::new(index, Dword, Eq, value)\<close>: equality on the low 32 bits.\<close>

datatype seccomp_cond = DwordEq (cond_arg: nat) (cond_value: "64 word")

type_synonym seccomp_rule = "seccomp_cond list"

record seccomp_filter =
  sf_rules :: "syscall \<rightharpoonup> seccomp_rule list"
  sf_mismatch :: seccomp_action
  sf_match :: seccomp_action

definition EPERM :: nat where
  "EPERM = 1"

definition base_blocked_syscalls :: "bool \<Rightarrow> syscall list" where
  "base_blocked_syscalls x86 =
     [''SYS_init_module'', ''SYS_finit_module'', ''SYS_delete_module'',
      ''SYS_reboot'', ''SYS_kexec_load'',
      ''SYS_ptrace'', ''SYS_process_vm_readv'', ''SYS_process_vm_writev'',
      ''SYS_mount'', ''SYS_umount2'', ''SYS_pivot_root'',
      ''SYS_open_tree'', ''SYS_move_mount'', ''SYS_fsopen'', ''SYS_fsconfig'', ''SYS_fsmount'',
      ''SYS_fspick'',
      ''SYS_unshare'', ''SYS_setns'',
      ''SYS_sethostname'', ''SYS_setdomainname'',
      ''SYS_acct'', ''SYS_swapon'', ''SYS_swapoff'',
      ''SYS_settimeofday'', ''SYS_clock_settime'', ''SYS_adjtimex'',
      ''SYS_add_key'', ''SYS_request_key'', ''SYS_keyctl'',
      ''SYS_bpf'', ''SYS_perf_event_open'',
      ''SYS_userfaultfd'',
      ''SYS_io_uring_setup'', ''SYS_io_uring_enter'', ''SYS_io_uring_register'',
      ''SYS_personality'', ''SYS_clone3'', ''SYS_memfd_create'', ''SYS_mount_setattr'',
      ''SYS_chroot'', ''SYS_name_to_handle_at'', ''SYS_open_by_handle_at'', ''SYS_mknodat'',
      ''SYS_fanotify_init'', ''SYS_quotactl'', ''SYS_syslog''] @
     (if x86 then [''SYS_iopl'', ''SYS_ioperm'', ''SYS_kexec_file_load'', ''SYS_mknod''] else [])"

definition network_syscalls :: "syscall list" where
  "network_syscalls =
     [''SYS_socket'', ''SYS_socketpair'', ''SYS_connect'', ''SYS_accept'', ''SYS_accept4'',
      ''SYS_bind'', ''SYS_listen'', ''SYS_sendto'', ''SYS_recvfrom'', ''SYS_sendmsg'',
      ''SYS_recvmsg'', ''SYS_sendmmsg'', ''SYS_recvmmsg'', ''SYS_shutdown'']"

definition TIOCSTI :: "64 word" where
  "TIOCSTI = 0x5412"

definition blocked_families :: "64 word list" where
  "blocked_families = [16, 17, 40]"

definition build_blocklist_filter :: "syscall list \<Rightarrow> seccomp_filter" where
  "build_blocklist_filter blocked =
     (let rules = map_of (map (\<lambda>num. (num, [])) blocked);
          rules = rules(''SYS_ioctl'' \<mapsto> [[DwordEq 1 TIOCSTI]]);
          rules = (if rules ''SYS_socket'' = None
                   then rules(''SYS_socket'' \<mapsto> map (\<lambda>af. [DwordEq 0 af]) blocked_families)
                   else rules)
      in \<lparr>sf_rules = rules, sf_mismatch = Allow, sf_match = Errno EPERM\<rparr>)"

definition build_standard_filter :: "bool \<Rightarrow> seccomp_filter" where
  "build_standard_filter x86 = build_blocklist_filter (base_blocked_syscalls x86)"

definition build_strict_filter :: "bool \<Rightarrow> seccomp_filter" where
  "build_strict_filter x86 = build_blocklist_filter (base_blocked_syscalls x86 @ network_syscalls)"

text \<open>The conversion of a filter to BPF, and its possible failure, belong to \<open>seccompiler\<close>.\<close>

definition compile ::
  "(seccomp_filter \<Rightarrow> (string, 'bpf) result) \<Rightarrow> bool \<Rightarrow> seccomp_level \<Rightarrow> (string, 'bpf option) result" where
  "compile backend x86 level =
     (case level of
        Disabled \<Rightarrow> Ok None
      | Standard \<Rightarrow> and_then (backend (build_standard_filter x86)) (\<lambda>bpf. Ok (Some bpf))
      | Strict \<Rightarrow> and_then (backend (build_strict_filter x86)) (\<lambda>bpf. Ok (Some bpf)))"

section \<open>What a filter decides\<close>

definition cond_holds :: "seccomp_cond \<Rightarrow> syscall_args \<Rightarrow> bool" where
  "cond_holds c args = (take_bit 32 (args (cond_arg c)) = take_bit 32 (cond_value c))"

text \<open>The documented meaning of a filter: a call without an entry gets the mismatch
  action, a call with an empty list of rules the match action, and a call with rules the
  match action exactly when all conditions of one rule hold.\<close>

definition seccomp_documented ::
  "(seccomp_filter \<Rightarrow> syscall \<Rightarrow> syscall_args \<Rightarrow> seccomp_action) \<Rightarrow> bool" where
  "seccomp_documented eval =
     (\<forall>f sc args.
        (sf_rules f sc = None \<longrightarrow> eval f sc args = sf_mismatch f) \<and>
        (sf_rules f sc = Some [] \<longrightarrow> eval f sc args = sf_match f) \<and>
        (\<forall>rules. sf_rules f sc = Some rules \<longrightarrow> rules \<noteq> [] \<longrightarrow>
           eval f sc args =
             (if list_ex (list_all (\<lambda>c. cond_holds c args)) rules then sf_match f else sf_mismatch f)))"

definition seccomp_eval :: "seccomp_filter \<Rightarrow> syscall \<Rightarrow> syscall_args \<Rightarrow> seccomp_action" where
  "seccomp_eval f sc args =
     (case sf_rules f sc of
        None \<Rightarrow> sf_mismatch f
      | Some rules \<Rightarrow>
          if rules = [] \<or> list_ex (list_all (\<lambda>c. cond_holds c args)) rules
          then sf_match f else sf_mismatch f)"

lemma seccomp_eval_documented: "seccomp_documented seccomp_eval"
  by (auto simp: seccomp_documented_def seccomp_eval_def)

lemma documented_eval: "seccomp_documented eval \<Longrightarrow> eval f sc args = seccomp_eval f sc args"
proof (cases "sf_rules f sc")
  case (Some rules)
  assume "seccomp_documented eval"
  with Some show ?thesis
    by (cases "rules = []") (auto simp: seccomp_documented_def seccomp_eval_def)
qed (simp add: seccomp_documented_def seccomp_eval_def)

lemma map_of_blocked: "map_of (map (\<lambda>num. (num, [])) xs) sc = (if sc \<in> set xs then Some [] else None)"
  by (induction xs) auto

lemma blocklist_denies:
  assumes "''SYS_ioctl'' \<notin> set blocked"
  shows "seccomp_eval (build_blocklist_filter blocked) sc args = Errno EPERM \<longleftrightarrow>
     sc \<in> set blocked \<or>
     sc = ''SYS_ioctl'' \<and> take_bit 32 (args 1) = TIOCSTI \<or>
     sc = ''SYS_socket'' \<and> take_bit 32 (args 0) \<in> set blocked_families"
  using assms
  by (auto simp: seccomp_eval_def build_blocklist_filter_def Let_def map_of_blocked cond_holds_def
        blocked_families_def TIOCSTI_def)

lemma ioctl_not_blocked:
  "''SYS_ioctl'' \<notin> set (base_blocked_syscalls x86)" "''SYS_ioctl'' \<notin> set network_syscalls"
  by (auto simp: base_blocked_syscalls_def network_syscalls_def)

section \<open>Properties\<close>

text \<open>C15. The standard filter denies exactly the block list, the terminal-injection
  \<open>ioctl\<close> and sockets of the three dangerous families; everything else is allowed.\<close>

theorem standard_filter_exact:
  assumes "seccomp_documented eval"
  shows "eval (build_standard_filter x86) sc args =
     (if sc \<in> set (base_blocked_syscalls x86) \<or>
         sc = ''SYS_ioctl'' \<and> take_bit 32 (args 1) = TIOCSTI \<or>
         sc = ''SYS_socket'' \<and> take_bit 32 (args 0) \<in> set blocked_families
      then Errno EPERM else Allow)"
  unfolding documented_eval [OF assms]
  using blocklist_denies [OF ioctl_not_blocked(1) [of x86], of sc args]
  by (auto simp: build_standard_filter_def seccomp_eval_def build_blocklist_filter_def Let_def
           split: option.splits if_splits)

theorem standard_filter_exact_witness:
  "seccomp_eval (build_standard_filter True) ''SYS_clone'' (\<lambda>i. 0x10000000) = Allow \<and>
   seccomp_eval (build_standard_filter True) ''SYS_clone3'' (\<lambda>i. 0) = Errno EPERM"
  using standard_filter_exact [OF seccomp_eval_documented, of True "''SYS_clone''" "\<lambda>i. 0x10000000"]
    standard_filter_exact [OF seccomp_eval_documented, of True "''SYS_clone3''" "\<lambda>i. 0"]
  by (simp add: base_blocked_syscalls_def)

text \<open>Strict is at least as strict as standard: whatever the standard filter denies the
  strict filter denies too, on every call and every argument, and it denies all socket calls.\<close>

theorem strict_refines_standard:
  assumes "seccomp_documented eval"
    "eval (build_standard_filter x86) sc args = Errno EPERM \<or> sc \<in> set network_syscalls"
  shows "eval (build_strict_filter x86) sc args = Errno EPERM"
proof -
  have io: "''SYS_ioctl'' \<notin> set (base_blocked_syscalls x86 @ network_syscalls)"
    using ioctl_not_blocked by simp
  have "''SYS_socket'' \<in> set network_syscalls"
    by (simp add: network_syscalls_def)
  then show ?thesis
    using assms(2) blocklist_denies [OF io, of sc args]
      blocklist_denies [OF ioctl_not_blocked(1) [of x86], of sc args]
    unfolding documented_eval [OF assms(1)] build_strict_filter_def build_standard_filter_def by auto
qed

theorem strict_refines_standard_witness:
  "seccomp_eval (build_strict_filter False) ''SYS_socket'' (\<lambda>i. 2) = Errno EPERM \<and>
   seccomp_eval (build_strict_filter False) ''SYS_ioctl'' (\<lambda>i. 0x5412) = Errno EPERM"
proof -
  have "seccomp_eval (build_standard_filter False) ''SYS_ioctl'' (\<lambda>i. 0x5412) = Errno EPERM"
    by (simp add: build_standard_filter_def blocklist_denies ioctl_not_blocked TIOCSTI_def)
  then show ?thesis
    using strict_refines_standard [OF seccomp_eval_documented, of False "''SYS_ioctl''" "\<lambda>i. 0x5412"]
      strict_refines_standard [OF seccomp_eval_documented, of False "''SYS_socket''" "\<lambda>i. 2"]
    by (simp add: network_syscalls_def)
qed

end
