(* ===== verification/Paths.thy ===== *)
theory Paths
  imports Prelude
begin

text \<open>
  Unix paths as \<open>std::path\<close> treats them: the components of a path, joining, and the
  lexical resolution of a path against the root.  Used by the snapshot pool
  (\<open>agentjail/src/snapshot.rs\<close>).
\<close>

datatype component = RootDir | CurDir | ParentDir | Normal string

definition seg_component :: "string \<Rightarrow> component" where
  "seg_component s = (if s = ''..'' then ParentDir else Normal s)"

definition components :: "string \<Rightarrow> component list" where
  "components p =
     (let segs = split_on CHR ''/'' p
      in (if starts_with p ''/'' then [RootDir] else if hd segs = ''.'' then [CurDir] else []) @
         map seg_component (filter (\<lambda>s. s \<noteq> '''' \<and> s \<noteq> ''.'') segs))"

definition is_absolute :: "string \<Rightarrow> bool" where
  "is_absolute p = starts_with p ''/''"

text \<open>\<open>Path::join\<close>: an absolute right-hand side replaces the left.\<close>

definition path_join :: "string \<Rightarrow> string \<Rightarrow> string" where
  "path_join a b = (if is_absolute b then b else if a = '''' \<or> ends_with a ''/'' then a @ b else a @ ''/'' @ b)"

fun join_slash :: "string list \<Rightarrow> string" where
  "join_slash [] = ''''"
| "join_slash [s] = s"
| "join_slash (s # ss) = s @ ''/'' @ join_slash ss"

text \<open>The names reached from the root by following the components, \<open>..\<close> going up.\<close>

fun walk_up :: "string list \<Rightarrow> component list \<Rightarrow> string list" where
  "walk_up at [] = at"
| "walk_up at (RootDir # cs) = walk_up [] cs"
| "walk_up at (CurDir # cs) = walk_up at cs"
| "walk_up at (ParentDir # cs) = walk_up (butlast at) cs"
| "walk_up at (Normal s # cs) = walk_up (at @ [s]) cs"

definition resolve_path :: "string \<Rightarrow> string list" where
  "resolve_path p = walk_up [] (components p)"

text \<open>\<open>Path::file_name\<close> and \<open>Path::parent\<close>; a path is rendered from its components.\<close>

fun render_components :: "component list \<Rightarrow> string list" where
  "render_components [] = []"
| "render_components (RootDir # cs) = render_components cs"
| "render_components (CurDir # cs) = ''.'' # render_components cs"
| "render_components (ParentDir # cs) = ''..'' # render_components cs"
| "render_components (Normal s # cs) = s # render_components cs"

definition path_of_components :: "component list \<Rightarrow> string" where
  "path_of_components cs =
     (if cs \<noteq> [] \<and> hd cs = RootDir then ''/'' else '''') @ join_slash (render_components cs)"

definition file_name :: "string \<Rightarrow> string option" where
  "file_name p =
     (if components p = [] then None
      else case last (components p) of Normal s \<Rightarrow> Some s | _ \<Rightarrow> None)"

definition path_parent :: "string \<Rightarrow> string option" where
  "path_parent p =
     (if components p = [] \<or> last (components p) = RootDir then None
      else Some (path_of_components (butlast (components p))))"

text \<open>A name of a directory entry.\<close>

definition entry_name :: "string \<Rightarrow> bool" where
  "entry_name s = (s \<noteq> '''' \<and> s \<noteq> ''.'' \<and> s \<noteq> ''..'' \<and> CHR ''/'' \<notin> set s)"

section \<open>Splitting and joining\<close>

lemma split_on_no_sep_id: "d \<notin> set s \<Longrightarrow> split_on d s = [s]"
  by (induction s) auto

lemma split_on_append_sep: "split_on d (a @ d # b) = split_on d a @ split_on d b"
proof (induction a)
  case (Cons c cs)
  then show ?case
    by (cases "split_on d cs") auto
qed simp

lemma split_join_slash:
  assumes "ss \<noteq> []" "\<forall>s \<in> set ss. CHR ''/'' \<notin> set s"
  shows "split_on CHR ''/'' (join_slash ss) = ss"
  using assms
  by (induction ss rule: join_slash.induct) (auto simp: split_on_no_sep_id split_on_append_sep)

lemma join_slash_inj:
  assumes "join_slash xs = join_slash ys" "xs \<noteq> []" "ys \<noteq> []"
    and "\<forall>s \<in> set xs. entry_name s" "\<forall>s \<in> set ys. entry_name s"
  shows "xs = ys"
proof -
  have split: "split_on CHR ''/'' (join_slash zs) = zs" if "zs \<noteq> []" "\<forall>s \<in> set zs. entry_name s" for zs
    using that by (intro split_join_slash) (simp_all add: entry_name_def)
  have "xs = split_on CHR ''/'' (join_slash ys)"
    using split [OF assms(2,4)] assms(1) by simp
  then show ?thesis
    using split [OF assms(3,5)] by simp
qed

lemma starts_slash_hd: "starts_with p ''/'' \<longleftrightarrow> hd (split_on CHR ''/'' p) = '''' \<and> p \<noteq> ''''"
proof (cases p)
  case (Cons c cs)
  then show ?thesis
    by (cases "split_on CHR ''/'' cs") (auto simp: starts_with_iff)
qed (simp add: starts_with_iff)

lemma components_join_slash:
  assumes "ss \<noteq> []" "\<forall>s \<in> set ss. entry_name s"
  shows "components (join_slash ss) = map Normal ss"
proof -
  have s: "split_on CHR ''/'' (join_slash ss) = ss"
    using assms by (intro split_join_slash) (auto simp: entry_name_def)
  have "hd ss \<in> set ss"
    using assms by simp
  then have "entry_name (hd ss)"
    using assms by blast
  then have h: "hd ss \<noteq> ''''" "hd ss \<noteq> ''.''"
    by (auto simp: entry_name_def)
  have f: "filter (\<lambda>s. s \<noteq> '''' \<and> s \<noteq> ''.'') ss = ss"
    using assms(2) by (simp add: entry_name_def filter_id_conv)
  have m: "map seg_component ss = map Normal ss"
    using assms(2) by (simp add: entry_name_def seg_component_def)
  show ?thesis
    by (simp add: components_def starts_slash_hd s h f m)
qed

lemma components_append:
  assumes "a = '''' \<or> ends_with a ''/''" "\<not> is_absolute b"
    and "hd (split_on CHR ''/'' b) \<noteq> ''.''"
  shows "components (a @ b) = components a @ components b"
proof (cases "a = ''''")
  case False
  then obtain a' where a: "a = a' @ [CHR ''/'']"
    using assms(1) by (auto simp: ends_with_iff)
  have s: "split_on CHR ''/'' (a @ b) = split_on CHR ''/'' a' @ split_on CHR ''/'' b"
    "split_on CHR ''/'' a = split_on CHR ''/'' a' @ ['''']"
    using split_on_append_sep [of "CHR ''/''" a' b] split_on_append_sep [of "CHR ''/''" a' "''''"] a by auto
  have "starts_with (a @ b) ''/'' = starts_with a ''/''"
    using False by (cases a) (auto simp: starts_with_iff)
  then show ?thesis
    using assms s by (simp add: components_def Let_def is_absolute_def)
qed (simp add: components_def starts_with_iff)

lemma components_slash:
  assumes "a \<noteq> ''''"
  shows "components (a @ ''/'') = components a"
proof -
  have "split_on CHR ''/'' (a @ ''/'') = split_on CHR ''/'' a @ ['''']"
    using split_on_append_sep [of "CHR ''/''" a "''''"] by simp
  moreover have "starts_with (a @ ''/'') ''/'' = starts_with a ''/''"
    using assms by (cases a) (auto simp: starts_with_iff)
  ultimately show ?thesis
    by (simp add: components_def Let_def)
qed

lemma components_path_join:
  assumes "\<not> is_absolute b" "hd (split_on CHR ''/'' b) \<noteq> ''.''"
  shows "components (path_join a b) = components a @ components b"
proof (cases "a = '''' \<or> ends_with a ''/''")
  case True
  then show ?thesis
    using components_append [OF True assms] assms by (simp add: path_join_def)
next
  case False
  have "ends_with (a @ ''/'') ''/''"
    by (simp add: ends_with_iff)
  with False show ?thesis
    using components_append [of "a @ ''/''" b] assms components_slash [of a]
    by (simp add: path_join_def)
qed

lemma walk_up_append: "walk_up at (xs @ ys) = walk_up (walk_up at xs) ys"
  by (induction at xs rule: walk_up.induct) auto

lemma walk_up_normal: "walk_up at (map Normal ns) = at @ ns"
  by (induction ns arbitrary: at) auto

end
