(* ===== verification/Snapshot_Tree.thy ===== *)
theory Snapshot_Tree
  imports Jail_Config
begin

text \<open>
  Directory trees and their copies: full snapshots (\<open>agentjail/src/snapshot.rs\<close>) and
  copy-on-write clones (\<open>agentjail/src/fork.rs\<close>).  A directory is the list of its
  entries in the order \<open>read_dir\<close> returns them; a regular file is a reference into a
  store of inodes, so that hard links share their file.  Copies go into a new or cleared
  directory.  Errors of the operating system are modelled where the code's own conditions
  produce them: a missing path, and \<open>fs::copy\<close> on something that is not a regular file.
\<close>

section \<open>Files\<close>

datatype fs_node =
    FsFile nat
  | FsDir "(string \<times> fs_node) list"
  | FsSymlink string
  | FsSpecial

type_synonym dir = "(string \<times> fs_node) list"

record file_data =
  fd_content :: string
  fd_mode :: nat
  fd_mtime :: nat

record inode_store =
  is_next :: nat
  is_data :: "nat \<rightharpoonup> file_data"

definition store_ok :: "inode_store \<Rightarrow> bool" where
  "store_ok st = (\<forall>i \<ge> is_next st. is_data st i = None)"

definition alloc :: "file_data \<Rightarrow> inode_store \<Rightarrow> nat \<times> inode_store" where
  "alloc f st = (is_next st, \<lparr>is_next = Suc (is_next st), is_data = (is_data st)(is_next st \<mapsto> f)\<rparr>)"

text \<open>\<open>fs::copy\<close> to a new file: contents and permission bits of a regular file.\<close>

definition fs_copy_new :: "nat \<Rightarrow> fs_node \<Rightarrow> inode_store \<Rightarrow> (string, nat \<times> inode_store) result" where
  "fs_copy_new now n st =
     (case n of
        FsFile i \<Rightarrow>
          (case is_data st i of
             Some f \<Rightarrow> Ok (alloc (f\<lparr>fd_mtime := now\<rparr>) st)
           | None \<Rightarrow> Err ''No such file or directory'')
      | _ \<Rightarrow> Err ''the source path is neither a regular file nor a symlink to a regular file'')"

section \<open>Copying a tree\<close>

fun copy_dir_with ::
  "(fs_node \<Rightarrow> 's \<Rightarrow> (jail_error, nat \<times> 's) result) \<Rightarrow> dir \<Rightarrow> 's \<Rightarrow> (jail_error, dir \<times> 's) result" where
  "copy_dir_with copy_file [] st = Ok ([], st)"
| "copy_dir_with copy_file ((name, FsSymlink t) # es) st = copy_dir_with copy_file es st"
| "copy_dir_with copy_file ((name, FsDir sub) # es) st =
     and_then (copy_dir_with copy_file sub st) (\<lambda>(sub', st).
     and_then (copy_dir_with copy_file es st) (\<lambda>(es', st).
       Ok ((name, FsDir sub') # es', st)))"
| "copy_dir_with copy_file ((name, FsFile i) # es) st =
     and_then (copy_file (FsFile i) st) (\<lambda>(j, st).
     and_then (copy_dir_with copy_file es st) (\<lambda>(es', st).
       Ok ((name, FsFile j) # es', st)))"
| "copy_dir_with copy_file ((name, FsSpecial) # es) st =
     and_then (copy_file FsSpecial st) (\<lambda>(j, st).
     and_then (copy_dir_with copy_file es st) (\<lambda>(es', st).
       Ok ((name, FsFile j) # es', st)))"

definition copy_dir_recursive :: "nat \<Rightarrow> dir \<Rightarrow> inode_store \<Rightarrow> (jail_error, dir \<times> inode_store) result" where
  "copy_dir_recursive now =
     copy_dir_with (\<lambda>n st. case fs_copy_new now n st of Inl e \<Rightarrow> Err (SnapshotError e) | Inr r \<Rightarrow> Ok r)"

text \<open>What is in the target when \<open>copy_dir_recursive\<close> returns, also with an error.\<close>

fun copied_before :: "nat \<Rightarrow> dir \<Rightarrow> inode_store \<Rightarrow> bool \<times> dir \<times> inode_store" where
  "copied_before now [] st = (True, [], st)"
| "copied_before now ((name, FsSymlink t) # es) st = copied_before now es st"
| "copied_before now ((name, FsDir sub) # es) st =
     (case copied_before now sub st of
        (False, sub', st) \<Rightarrow> (False, [(name, FsDir sub')], st)
      | (True, sub', st) \<Rightarrow>
          (case copied_before now es st of (ok, es', st) \<Rightarrow> (ok, (name, FsDir sub') # es', st)))"
| "copied_before now ((name, FsFile i) # es) st =
     (case fs_copy_new now (FsFile i) st of
        Inl e \<Rightarrow> (False, [], st)
      | Inr (j, st) \<Rightarrow> (case copied_before now es st of (ok, es', st) \<Rightarrow> (ok, (name, FsFile j) # es', st)))"
| "copied_before now ((name, FsSpecial) # es) st = (False, [], st)"

lemma copied_before_Ok:
  "copy_dir_recursive now d st = Ok (d', st') \<longleftrightarrow> copied_before now d st = (True, d', st')"
  unfolding copy_dir_recursive_def
  by (induction now d st arbitrary: d' st' rule: copied_before.induct)
    (auto simp: and_then_Ok_iff fs_copy_new_def split: bool.splits prod.splits option.splits sum.splits)

fun clear_dir :: "dir \<Rightarrow> dir" where
  "clear_dir [] = []"
| "clear_dir ((name, FsSymlink t) # es) = clear_dir es"
| "clear_dir ((name, FsDir sub) # es) = clear_dir es"
| "clear_dir ((name, FsFile i) # es) = clear_dir es"
| "clear_dir ((name, FsSpecial) # es) = clear_dir es"

text \<open>A directory that may be absent: \<open>create\<close> and \<open>restore_to\<close> take and return the
  trees at their paths.\<close>

definition snapshot_create ::
  "nat \<Rightarrow> string \<Rightarrow> dir option \<Rightarrow> inode_store \<Rightarrow> (jail_error, dir \<times> inode_store) result" where
  "snapshot_create now path output_dir st =
     (case output_dir of
        None \<Rightarrow> Err (PathNotFound path)
      | Some d \<Rightarrow> copy_dir_recursive now d st)"

definition restore_to ::
  "nat \<Rightarrow> string \<Rightarrow> dir option \<Rightarrow> dir option \<Rightarrow> inode_store \<Rightarrow> (jail_error, dir \<times> inode_store) result" where
  "restore_to now path snapshot target st =
     (case snapshot of
        None \<Rightarrow> Err (PathNotFound path)
      | Some d \<Rightarrow>
          (let cleared = (case target of Some t \<Rightarrow> clear_dir t | None \<Rightarrow> [])
           in and_then (copy_dir_recursive now d st) (\<lambda>(d', st). Ok (cleared @ d', st))))"

text \<open>Size of a tree, symbolic links not followed.\<close>

fun dir_size :: "inode_store \<Rightarrow> dir \<Rightarrow> nat" where
  "dir_size st [] = 0"
| "dir_size st ((name, FsSymlink t) # es) = dir_size st es"
| "dir_size st ((name, FsDir sub) # es) = dir_size st sub + dir_size st es"
| "dir_size st ((name, FsFile i) # es) =
     (case is_data st i of Some f \<Rightarrow> length (fd_content f) | None \<Rightarrow> 0) + dir_size st es"
| "dir_size st ((name, FsSpecial) # es) = dir_size st es"

section \<open>Copy-on-write clones\<close>

datatype clone_method = Reflink | CloneCopy | Mixed

record fork_info =
  fi_method :: clone_method
  fi_files_cloned :: nat
  fi_files_cow :: nat
  fi_bytes_cloned :: nat
  fi_was_frozen :: bool

record clone_state =
  cs_store :: inode_store
  cs_total :: nat
  cs_cow :: nat
  cs_bytes :: nat

text \<open>Whether \<open>FICLONE\<close> succeeds on a file is up to the file system: \<open>reflink\<close>.\<close>

definition try_ficlone ::
  "(nat \<Rightarrow> bool) \<Rightarrow> nat \<Rightarrow> fs_node \<Rightarrow> inode_store \<Rightarrow> (nat \<times> inode_store) option" where
  "try_ficlone reflink now n st =
     (case n of
        FsFile i \<Rightarrow>
          (case is_data st i of
             Some f \<Rightarrow> if reflink i then Some (alloc (f\<lparr>fd_mtime := now\<rparr>) st) else None
           | None \<Rightarrow> None)
      | _ \<Rightarrow> None)"

definition clone_file ::
  "(nat \<Rightarrow> bool) \<Rightarrow> nat \<Rightarrow> fs_node \<Rightarrow> clone_state \<Rightarrow> (jail_error, nat \<times> clone_state) result" where
  "clone_file reflink now n cs =
     (let size = (case n of FsFile i \<Rightarrow> (case is_data (cs_store cs) i of Some f \<Rightarrow> length (fd_content f) | None \<Rightarrow> 0)
                  | _ \<Rightarrow> 0);
          cs = cs\<lparr>cs_total := cs_total cs + 1, cs_bytes := cs_bytes cs + size\<rparr>
      in case try_ficlone reflink now n (cs_store cs) of
           Some (j, st) \<Rightarrow> Ok (j, cs\<lparr>cs_store := st, cs_cow := cs_cow cs + 1\<rparr>)
         | None \<Rightarrow>
             (case fs_copy_new now n (cs_store cs) of
                Inl e \<Rightarrow> Err (IoError e)
              | Inr (j, st) \<Rightarrow> Ok (j, cs\<lparr>cs_store := st\<rparr>)))"

definition clone_method_of :: "nat \<Rightarrow> nat \<Rightarrow> clone_method" where
  "clone_method_of cow all =
     (if all = 0 then CloneCopy else if cow = all then Reflink
      else if cow = 0 then CloneCopy else Mixed)"

definition cow_clone ::
  "(nat \<Rightarrow> bool) \<Rightarrow> nat \<Rightarrow> string \<Rightarrow> dir option \<Rightarrow> inode_store
   \<Rightarrow> (jail_error, fork_info \<times> dir \<times> inode_store) result" where
  "cow_clone reflink now path src st =
     (case src of
        None \<Rightarrow> Err (PathNotFound path)
      | Some d \<Rightarrow>
          and_then
            (copy_dir_with (clone_file reflink now) d
               \<lparr>cs_store = st, cs_total = 0, cs_cow = 0, cs_bytes = 0\<rparr>)
            (\<lambda>(d', cs).
              Ok (\<lparr>fi_method = clone_method_of (cs_cow cs) (cs_total cs),
                   fi_files_cloned = cs_total cs, fi_files_cow = cs_cow cs,
                   fi_bytes_cloned = cs_bytes cs, fi_was_frozen = False\<rparr>, d', cs_store cs)))"

section \<open>Contents of a tree\<close>

text \<open>What a reader of the tree sees, symbolic links left out.\<close>

datatype shape_node = ShFile string nat | ShDir "(string \<times> shape_node) list"

fun shape :: "inode_store \<Rightarrow> dir \<Rightarrow> (string \<times> shape_node) list" where
  "shape st [] = []"
| "shape st ((name, FsSymlink t) # es) = shape st es"
| "shape st ((name, FsDir sub) # es) = (name, ShDir (shape st sub)) # shape st es"
| "shape st ((name, FsFile i) # es) =
     (case is_data st i of
        Some f \<Rightarrow> (name, ShFile (fd_content f) (fd_mode f)) # shape st es
      | None \<Rightarrow> shape st es)"
| "shape st ((name, FsSpecial) # es) = shape st es"

text \<open>Trees whose files exist and that hold no special files.\<close>

fun dir_ok :: "inode_store \<Rightarrow> dir \<Rightarrow> bool" where
  "dir_ok st [] = True"
| "dir_ok st ((name, FsSymlink t) # es) = dir_ok st es"
| "dir_ok st ((name, FsDir sub) # es) = (dir_ok st sub \<and> dir_ok st es)"
| "dir_ok st ((name, FsFile i) # es) = (is_data st i \<noteq> None \<and> dir_ok st es)"
| "dir_ok st ((name, FsSpecial) # es) = False"

fun no_symlinks :: "dir \<Rightarrow> bool" where
  "no_symlinks [] = True"
| "no_symlinks ((name, FsSymlink t) # es) = False"
| "no_symlinks ((name, FsDir sub) # es) = (no_symlinks sub \<and> no_symlinks es)"
| "no_symlinks ((name, FsFile i) # es) = no_symlinks es"
| "no_symlinks ((name, FsSpecial) # es) = no_symlinks es"

fun file_sizes :: "inode_store \<Rightarrow> dir \<Rightarrow> nat list" where
  "file_sizes st [] = []"
| "file_sizes st ((name, FsSymlink t) # es) = file_sizes st es"
| "file_sizes st ((name, FsDir sub) # es) = file_sizes st sub @ file_sizes st es"
| "file_sizes st ((name, FsFile i) # es) =
     (case is_data st i of Some f \<Rightarrow> length (fd_content f) | None \<Rightarrow> 0) # file_sizes st es"
| "file_sizes st ((name, FsSpecial) # es) = file_sizes st es"

fun shape_sizes :: "(string \<times> shape_node) list \<Rightarrow> nat list" where
  "shape_sizes [] = []"
| "shape_sizes ((name, ShDir sub) # es) = shape_sizes sub @ shape_sizes es"
| "shape_sizes ((name, ShFile c m) # es) = length c # shape_sizes es"

text \<open>The files a tree refers to, in the order of the walk.\<close>

fun inodes :: "dir \<Rightarrow> nat list" where
  "inodes [] = []"
| "inodes ((name, FsSymlink t) # es) = inodes es"
| "inodes ((name, FsDir sub) # es) = inodes sub @ inodes es"
| "inodes ((name, FsFile i) # es) = i # inodes es"
| "inodes ((name, FsSpecial) # es) = inodes es"

text \<open>One store extends another when every file is still there, unchanged.\<close>

definition extends :: "inode_store \<Rightarrow> inode_store \<Rightarrow> bool" where
  "extends st st' = (store_ok st' \<and> is_next st \<le> is_next st' \<and>
                     (\<forall>i f. is_data st i = Some f \<longrightarrow> is_data st' i = Some f))"

lemma extends_refl: "store_ok st \<Longrightarrow> extends st st"
  by (simp add: extends_def)

lemma extends_trans: "extends a b \<Longrightarrow> extends b c \<Longrightarrow> extends a c"
  by (auto simp: extends_def)

lemma extends_store_ok: "extends a b \<Longrightarrow> store_ok b"
  by (simp add: extends_def)

lemma extends_data: "extends a b \<Longrightarrow> is_data a i = Some f \<Longrightarrow> is_data b i = Some f"
  by (simp add: extends_def)

lemma extends_next: "extends a b \<Longrightarrow> is_next a \<le> is_next b"
  by (simp add: extends_def)

lemma alloc_extends:
  assumes "store_ok st" "alloc f st = (j, st')"
  shows "extends st st' \<and> is_data st' j = Some f \<and> is_next st \<le> j"
  using assms by (auto simp: alloc_def extends_def store_ok_def)

lemma shape_extends:
  assumes "extends st st'"
  shows "dir_ok st d \<Longrightarrow> shape st' d = shape st d \<and> dir_ok st' d"
  using assms
  by (induction st d rule: shape.induct) (auto simp: extends_data split: option.splits)

lemma clear_dir_empty: "clear_dir d = []"
  by (induction d rule: clear_dir.induct) auto

lemma dir_induct [case_names Empty Symlink Dir File Special]:
  assumes "P []"
    and "\<And>name t es. P es \<Longrightarrow> P ((name, FsSymlink t) # es)"
    and "\<And>name sub es. P sub \<Longrightarrow> P es \<Longrightarrow> P ((name, FsDir sub) # es)"
    and "\<And>name i es. P es \<Longrightarrow> P ((name, FsFile i) # es)"
    and "\<And>name es. P es \<Longrightarrow> P ((name, FsSpecial) # es)"
  shows "P d"
  by (rule dir_size.induct [of "\<lambda>_. P" undefined d]) (use assms in auto)

section \<open>What a copying method promises\<close>

text \<open>Both ways of copying one file give a new file with the contents and mode of the old
  one and leave every other file alone; the tree copy built on either keeps the contents
  of the whole tree.\<close>

locale tree_copier =
  fixes copy_file :: "fs_node \<Rightarrow> 's \<Rightarrow> (jail_error, nat \<times> 's) result"
    and store :: "'s \<Rightarrow> inode_store"
  assumes copy_law: "store_ok (store s) \<Longrightarrow> is_data (store s) i = Some f \<Longrightarrow>
            \<exists>j s' f'. copy_file (FsFile i) s = Ok (j, s') \<and> extends (store s) (store s') \<and>
              is_next (store s) \<le> j \<and> is_data (store s') j = Some f' \<and>
              fd_content f' = fd_content f \<and> fd_mode f' = fd_mode f"
begin

lemma copy_dir_ok:
  assumes "store_ok (store s)" "dir_ok (store s) d"
  shows "\<exists>d' s'. copy_dir_with copy_file d s = Ok (d', s') \<and> extends (store s) (store s') \<and>
           shape (store s') d' = shape (store s) d \<and> no_symlinks d' \<and> dir_ok (store s') d' \<and>
           (\<forall>i \<in> set (inodes d'). is_next (store s) \<le> i)"
  using assms
proof (induction d arbitrary: s rule: dir_induct)
  case Empty
  then show ?case
    by (auto intro: extends_refl)
next
  case (Symlink name t es)
  then show ?case
    by simp
next
  case (Dir name sub es)
  then obtain d1 s1 where s1: "copy_dir_with copy_file sub s = Ok (d1, s1)" "extends (store s) (store s1)"
    "shape (store s1) d1 = shape (store s) sub" "no_symlinks d1" "dir_ok (store s1) d1"
    "\<forall>i \<in> set (inodes d1). is_next (store s) \<le> i"
    by (metis dir_ok.simps(3))
  have es: "dir_ok (store s1) es" "shape (store s1) es = shape (store s) es"
    using shape_extends [OF s1(2)] Dir.prems by auto
  obtain d2 s2 where s2: "copy_dir_with copy_file es s1 = Ok (d2, s2)" "extends (store s1) (store s2)"
    "shape (store s2) d2 = shape (store s1) es" "no_symlinks d2" "dir_ok (store s2) d2"
    "\<forall>i \<in> set (inodes d2). is_next (store s1) \<le> i"
    using Dir.IH(2) [OF extends_store_ok [OF s1(2)] es(1)] by blast
  note next_le = extends_next [OF s1(2)]
  have "shape (store s2) d1 = shape (store s) sub" "dir_ok (store s2) d1"
    using shape_extends [OF s2(2) s1(5)] s1(3) by auto
  with s1 s2 es next_le show ?case
    by (auto intro: extends_trans)
next
  case (File name i es)
  then obtain f where f: "is_data (store s) i = Some f"
    by auto
  obtain j s1 f' where s1: "copy_file (FsFile i) s = Ok (j, s1)" "extends (store s) (store s1)"
    "is_data (store s1) j = Some f'" "fd_content f' = fd_content f" "fd_mode f' = fd_mode f"
    "is_next (store s) \<le> j"
    using copy_law [OF File.prems(1) f] by blast
  have es: "dir_ok (store s1) es" "shape (store s1) es = shape (store s) es"
    using shape_extends [OF s1(2)] File.prems by auto
  obtain d2 s2 where s2: "copy_dir_with copy_file es s1 = Ok (d2, s2)" "extends (store s1) (store s2)"
    "shape (store s2) d2 = shape (store s1) es" "no_symlinks d2" "dir_ok (store s2) d2"
    "\<forall>i \<in> set (inodes d2). is_next (store s1) \<le> i"
    using File.IH [OF extends_store_ok [OF s1(2)] es(1)] by blast
  note next_le = extends_next [OF s1(2)]
  have "is_data (store s2) j = Some f'"
    using extends_data [OF s2(2) s1(3)] .
  with s1 s2 es f next_le show ?case
    by (auto intro: extends_trans)
next
  case (Special name es)
  then show ?case
    by simp
qed

end

interpretation plain_copier: tree_copier
  "\<lambda>n st. case fs_copy_new now n st of Inl e \<Rightarrow> Err (SnapshotError e) | Inr r \<Rightarrow> Ok r" "\<lambda>st. st"
  for now
proof (unfold_locales, goal_cases)
  case (1 s i f)
  obtain j st' where a: "alloc (f\<lparr>fd_mtime := now\<rparr>) s = (j, st')"
    by (cases "alloc (f\<lparr>fd_mtime := now\<rparr>) s")
  show ?case
    using alloc_extends [OF 1(1) a] 1(2) a by (auto simp: fs_copy_new_def)
qed

interpretation cow_copier: tree_copier "clone_file reflink now" cs_store for reflink now
proof (unfold_locales, goal_cases)
  case (1 s i f)
  obtain j st' where a: "alloc (f\<lparr>fd_mtime := now\<rparr>) (cs_store s) = (j, st')"
    by (cases "alloc (f\<lparr>fd_mtime := now\<rparr>) (cs_store s)")
  show ?case
    using alloc_extends [OF 1(1) a] 1(2) a
    by (auto simp: clone_file_def try_ficlone_def fs_copy_new_def Let_def)
qed

text \<open>A tree looks the same in two stores that agree on its files.\<close>

lemma shape_cong:
  assumes "\<forall>i \<in> set (inodes d). is_data st' i = is_data st i"
  shows "shape st' d = shape st d \<and> dir_ok st' d = dir_ok st d \<and> file_sizes st' d = file_sizes st d"
  using assms by (induction d rule: dir_induct) (auto split: option.splits)

lemma dir_ok_inodes: "dir_ok st d \<Longrightarrow> i \<in> set (inodes d) \<Longrightarrow> is_data st i \<noteq> None"
  by (induction d rule: dir_induct) auto

lemma dir_size_sum: "dir_size st d = sum_list (file_sizes st d)"
  by (induction st d rule: dir_size.induct) auto

lemma file_sizes_shape: "dir_ok st d \<Longrightarrow> file_sizes st d = shape_sizes (shape st d)"
  by (induction d rule: dir_induct) auto

lemma file_sizes_extends:
  assumes "extends st st'" "dir_ok st d"
  shows "file_sizes st' d = file_sizes st d"
  using assms by (induction d rule: dir_induct) (auto simp: extends_data split: option.splits)

section \<open>Snapshots and clones\<close>

lemma copy_dir_recursive_ok:
  assumes "store_ok st" "dir_ok st d"
  obtains d' st' where "copy_dir_recursive now d st = Ok (d', st')" "extends st st'"
    "shape st' d' = shape st d" "no_symlinks d'" "dir_ok st' d'"
    "\<forall>i \<in> set (inodes d'). is_next st \<le> i"
  using plain_copier.copy_dir_ok [OF assms, of now] unfolding copy_dir_recursive_def by blast

text \<open>C26. A full snapshot restores what was there.  Taking a snapshot of a tree succeeds and
  leaves every existing file as it is; whatever later happens to those files (the jail may
  overwrite, truncate or delete them in place), restoring the snapshot over any target
  succeeds and gives a tree with the directories, file names, contents and modes of the
  original, of the original's size, and without a symbolic link, whether or not the
  original or the old target had any.\<close>

theorem snapshot_restores:
  assumes "store_ok st" "dir_ok st d"
  shows "\<exists>snap st1. snapshot_create now path (Some d) st = Ok (snap, st1) \<and>
           (\<forall>i f. is_data st i = Some f \<longrightarrow> is_data st1 i = Some f) \<and>
           (\<forall>st2 target. store_ok st2 \<and> (\<forall>i \<ge> is_next st. is_data st2 i = is_data st1 i) \<longrightarrow>
              (\<exists>d' st3. restore_to now' path' (Some snap) target st2 = Ok (d', st3) \<and>
                 shape st3 d' = shape st d \<and> no_symlinks d' \<and> dir_size st3 d' = dir_size st d))"
proof -
  obtain snap st1 where snap: "copy_dir_recursive now d st = Ok (snap, st1)" "extends st st1"
    "shape st1 snap = shape st d" "dir_ok st1 snap" "\<forall>i \<in> set (inodes snap). is_next st \<le> i"
    using copy_dir_recursive_ok [OF assms] by metis
  have "\<exists>d' st3. restore_to now' path' (Some snap) target st2 = Ok (d', st3) \<and>
           shape st3 d' = shape st d \<and> no_symlinks d' \<and> dir_size st3 d' = dir_size st d"
    if st2: "store_ok st2" "\<forall>i \<ge> is_next st. is_data st2 i = is_data st1 i" for st2 target
  proof -
    have same: "shape st2 snap = shape st1 snap" "dir_ok st2 snap"
      using shape_cong [of snap st2 st1] snap st2 by auto
    obtain d' st3 where d': "copy_dir_recursive now' snap st2 = Ok (d', st3)"
      "shape st3 d' = shape st2 snap" "no_symlinks d'" "dir_ok st3 d'"
      using copy_dir_recursive_ok [OF st2(1) same(2)] by metis
    have "dir_size st3 d' = dir_size st d"
      using file_sizes_shape [OF assms(2)] file_sizes_shape [OF d'(4)] d' same snap
      by (simp add: dir_size_sum)
    with d' same snap show ?thesis
      by (auto simp: restore_to_def clear_dir_empty split: option.split)
  qed
  with snap show ?thesis
    by (auto simp: snapshot_create_def extends_data)
qed


theorem snapshot_restores_witness:
  "let st = \<lparr>is_next = 2, is_data = [0 \<mapsto> \<lparr>fd_content = ''hello'', fd_mode = 420, fd_mtime = 5\<rparr>,
                                    1 \<mapsto> \<lparr>fd_content = ''x'', fd_mode = 493, fd_mtime = 6\<rparr>]\<rparr>;
       d = [(''a'', FsFile 0), (''evil'', FsSymlink ''/etc/shadow''), (''sub'', FsDir [(''b'', FsFile 1)])]
   in \<exists>snap st1. snapshot_create 7 ''/out'' (Some d) st = Ok (snap, st1) \<and>
        (\<exists>d' st3. restore_to 9 ''/snap'' (Some snap) (Some [(''junk'', FsSymlink ''/'')])
                    (st1\<lparr>is_data := (is_data st1)(0 := None, 1 \<mapsto> \<lparr>fd_content = ''y'', fd_mode = 0, fd_mtime = 8\<rparr>)\<rparr>)
                  = Ok (d', st3) \<and>
           shape st3 d' = [(''a'', ShFile ''hello'' 420), (''sub'', ShDir [(''b'', ShFile ''x'' 493)])] \<and>
           dir_size st3 d' = 6)"
proof -
  define st where "st = \<lparr>is_next = 2, is_data = [0 \<mapsto> \<lparr>fd_content = ''hello'', fd_mode = 420, fd_mtime = 5\<rparr>,
                                    1 \<mapsto> \<lparr>fd_content = ''x'', fd_mode = 493, fd_mtime = 6\<rparr>]\<rparr>"
  define d where "d = [(''a'', FsFile 0), (''evil'', FsSymlink ''/etc/shadow''), (''sub'', FsDir [(''b'', FsFile 1)])]"
  have pre: "store_ok st" "dir_ok st d"
    by (auto simp: st_def d_def store_ok_def)
  obtain snap st1 where s: "snapshot_create 7 ''/out'' (Some d) st = Ok (snap, st1)"
    and r: "\<And>st2 target. store_ok st2 \<Longrightarrow> (\<forall>i \<ge> is_next st. is_data st2 i = is_data st1 i) \<Longrightarrow>
              (\<exists>d' st3. restore_to 9 ''/snap'' (Some snap) target st2 = Ok (d', st3) \<and>
                 shape st3 d' = shape st d \<and> no_symlinks d' \<and> dir_size st3 d' = dir_size st d)"
    using snapshot_restores [OF pre, of 7 "''/out''" 9 "''/snap''"] by blast
  have st1: "st1 = \<lparr>is_next = 4, is_data = (is_data st)
      (2 \<mapsto> \<lparr>fd_content = ''hello'', fd_mode = 420, fd_mtime = 7\<rparr>, 3 \<mapsto> \<lparr>fd_content = ''x'', fd_mode = 493, fd_mtime = 7\<rparr>)\<rparr>"
    using s by (simp add: snapshot_create_def copy_dir_recursive_def fs_copy_new_def alloc_def st_def d_def)
  have "store_ok (st1\<lparr>is_data := (is_data st1)(0 := None, 1 \<mapsto> \<lparr>fd_content = ''y'', fd_mode = 0, fd_mtime = 8\<rparr>)\<rparr>)"
    by (simp add: st1 store_ok_def st_def)
  from r [OF this] s show ?thesis
    unfolding st_def [symmetric] d_def [symmetric] Let_def
    by (force simp: st_def d_def)
qed

text \<open>The counters of a clone.\<close>

lemma clone_counts:
  assumes "store_ok (cs_store cs)" "dir_ok (cs_store cs) d"
    and "copy_dir_with (clone_file reflink now) d cs = Ok (d', cs')"
  shows "cs_total cs' = cs_total cs + length (inodes d) \<and>
         cs_cow cs' = cs_cow cs + length (filter reflink (inodes d)) \<and>
         cs_bytes cs' = cs_bytes cs + sum_list (file_sizes (cs_store cs) d)"
  using assms
proof (induction d arbitrary: cs d' cs' rule: dir_induct)
  case (Dir name sub es)
  obtain d1 s1 where s1: "copy_dir_with (clone_file reflink now) sub cs = Ok (d1, s1)"
    "extends (cs_store cs) (cs_store s1)"
    using cow_copier.copy_dir_ok [of cs sub reflink now] Dir.prems by auto
  obtain d2 where s2: "copy_dir_with (clone_file reflink now) es s1 = Ok (d2, cs')"
    using Dir.prems(3) s1(1) by (auto simp: and_then_Ok_iff)
  have es: "dir_ok (cs_store s1) es"
    using shape_extends [OF s1(2)] Dir.prems by simp
  show ?case
    using Dir.IH(1) [OF _ _ s1(1)] Dir.IH(2) [OF extends_store_ok [OF s1(2)] es s2]
      file_sizes_extends [OF s1(2)] Dir.prems by simp
next
  case (File name i es)
  then obtain f where f: "is_data (cs_store cs) i = Some f"
    by auto
  obtain j s1 where s1: "clone_file reflink now (FsFile i) cs = Ok (j, s1)"
    "extends (cs_store cs) (cs_store s1)"
    using cow_copier.copy_law [OF File.prems(1) f] by blast
  have c: "cs_total s1 = cs_total cs + 1 \<and> cs_cow s1 = cs_cow cs + (if reflink i then 1 else 0) \<and>
           cs_bytes s1 = cs_bytes cs + length (fd_content f)"
    using s1(1) f
    by (auto simp: clone_file_def try_ficlone_def fs_copy_new_def Let_def split: if_splits prod.splits)
  obtain d2 where s2: "copy_dir_with (clone_file reflink now) es s1 = Ok (d2, cs')"
    using File.prems(3) s1(1) by (auto simp: and_then_Ok_iff)
  have es: "dir_ok (cs_store s1) es"
    using shape_extends [OF s1(2)] File.prems by simp
  show ?case
    using File.IH [OF extends_store_ok [OF s1(2)] es s2] c f
      file_sizes_extends [OF s1(2)] File.prems by simp
qed auto

text \<open>A copy-on-write clone is a faithful copy whatever the file system supports.  For
  any subset of files on which the reflink call works, cloning succeeds, leaves the
  original untouched, gives the same tree without symbolic links, and reports the number of
  files, how many of them were reflinked and the bytes exactly; the reported method is
  \<open>Reflink\<close> iff there are files and all of them were reflinked, and \<open>Copy\<close> iff none was.\<close>

theorem cow_clone_faithful:
  assumes "store_ok st" "dir_ok st d"
  shows "\<exists>info d' st'. cow_clone reflink now path (Some d) st = Ok (info, d', st') \<and>
           shape st' d' = shape st d \<and> no_symlinks d' \<and> shape st' d = shape st d \<and>
           (\<forall>i f. is_data st i = Some f \<longrightarrow> is_data st' i = Some f) \<and>
           set (inodes d') \<inter> set (inodes d) = {} \<and>
           fi_files_cloned info = length (inodes d) \<and>
           fi_files_cow info = length (filter reflink (inodes d)) \<and>
           fi_bytes_cloned info = dir_size st d \<and>
           (fi_method info = Reflink \<longleftrightarrow> inodes d \<noteq> [] \<and> (\<forall>i \<in> set (inodes d). reflink i)) \<and>
           (fi_method info = CloneCopy \<longleftrightarrow> (\<forall>i \<in> set (inodes d). \<not> reflink i))"
proof -
  define cs where "cs = \<lparr>cs_store = st, cs_total = 0, cs_cow = 0, cs_bytes = 0\<rparr>"
  obtain d' cs' where c: "copy_dir_with (clone_file reflink now) d cs = Ok (d', cs')"
    "extends st (cs_store cs')" "shape (cs_store cs') d' = shape st d" "no_symlinks d'"
    "\<forall>i \<in> set (inodes d'). is_next st \<le> i"
    using cow_copier.copy_dir_ok [of cs d reflink now] assms by (auto simp: cs_def)
  have n: "cs_total cs' = length (inodes d) \<and> cs_cow cs' = length (filter reflink (inodes d)) \<and>
           cs_bytes cs' = dir_size st d"
    using clone_counts [OF _ _ c(1)] assms by (simp add: cs_def dir_size_sum)
  have disjoint: "set (inodes d') \<inter> set (inodes d) = {}"
    using c(5) dir_ok_inodes [OF assms(2)] assms(1) by (force simp: store_ok_def)
  have all: "length (filter reflink (inodes d)) = length (inodes d) \<longleftrightarrow> (\<forall>i \<in> set (inodes d). reflink i)"
    by (metis filter_True length_filter_less nat_neq_iff)
  have none: "filter reflink (inodes d) = [] \<longleftrightarrow> (\<forall>i \<in> set (inodes d). \<not> reflink i)"
    by (simp add: filter_empty_conv)
  show ?thesis
    using c n disjoint shape_extends [OF c(2) assms(2)] all none
    by (auto simp: cow_clone_def cs_def [symmetric] extends_data clone_method_of_def filter_empty_conv)
qed

theorem cow_clone_faithful_witness:
  "let st = \<lparr>is_next = 2, is_data = [0 \<mapsto> \<lparr>fd_content = ''hello'', fd_mode = 420, fd_mtime = 5\<rparr>,
                                    1 \<mapsto> \<lparr>fd_content = ''x'', fd_mode = 493, fd_mtime = 6\<rparr>]\<rparr>;
       d = [(''a'', FsFile 0), (''l'', FsSymlink ''/''), (''sub'', FsDir [(''b'', FsFile 1)])]
   in \<exists>info d' st'. cow_clone (\<lambda>i. i = 0) 7 ''/out'' (Some d) st = Ok (info, d', st') \<and>
        fi_method info = Mixed \<and> fi_files_cloned info = 2 \<and> fi_files_cow info = 1 \<and>
        fi_bytes_cloned info = 6 \<and>
        shape st' d' = [(''a'', ShFile ''hello'' 420), (''sub'', ShDir [(''b'', ShFile ''x'' 493)])]"
proof -
  define st where "st = \<lparr>is_next = 2, is_data = [0 \<mapsto> \<lparr>fd_content = ''hello'', fd_mode = 420, fd_mtime = 5\<rparr>,
                                    1 \<mapsto> \<lparr>fd_content = ''x'', fd_mode = 493, fd_mtime = 6\<rparr>]\<rparr>"
  define d where "d = [(''a'', FsFile 0), (''l'', FsSymlink ''/''), (''sub'', FsDir [(''b'', FsFile 1)])]"
  have pre: "store_ok st" "dir_ok st d"
    by (auto simp: st_def d_def store_ok_def)
  obtain info d' st' where c: "cow_clone (\<lambda>i. i = 0) 7 ''/out'' (Some d) st = Ok (info, d', st')"
    "shape st' d' = shape st d" "fi_files_cloned info = length (inodes d)"
    "fi_files_cow info = length (filter (\<lambda>i. i = 0) (inodes d))" "fi_bytes_cloned info = dir_size st d"
    "fi_method info \<noteq> Reflink" "fi_method info \<noteq> CloneCopy"
    using cow_clone_faithful [OF pre, of "\<lambda>i. i = 0" 7 "''/out''"] by (auto simp: d_def)
  have "fi_method info = Mixed"
    using c(6,7) by (cases "fi_method info") auto
  with c show ?thesis
    unfolding st_def [symmetric] d_def [symmetric] Let_def
    by (simp add: st_def d_def)
qed

end
