(* ===== verification/Snapshot_Pool.thy ===== *)
theory Snapshot_Pool
  imports Paths Snapshot_Tree "HOL-Library.List_Lexorder" "HOL-Library.Char_ord"
begin

text \<open>
  Content-addressed snapshots (\<open>agentjail/src/snapshot.rs\<close>): file bodies go into a shared
  object pool under their hash, a manifest lists path, mode, hash, size and modification
  time, and restoring hard-links each blob (or copies it) into the target.

  The pool is a list of names \<open>(shard, hash)\<close> with their inodes, the restored tree a list
  of paths with their inodes, over the store of \<^verbatim>\<open>Snapshot_Tree\<close>, so that a hard link
  shares its file with the pool.  The hash function (the \<open>blake3\<close> and \<open>hex\<close> crates), the
  lossy decoding of file names, the mode of a new file, the files of the host outside the
  pool and whether a file can be linked are the fields of \<open>pool_env\<close>.  The manifest is a
  value: its JSON form is written and read by \<open>serde_json\<close>.  The temporary file of
  \<open>hash_into_pool\<close> is renamed or removed before the function returns and does not appear.
\<close>

section \<open>Manifest and pool\<close>

record manifest_entry =
  me_path :: string
  me_mode :: nat
  me_hash :: string
  me_size :: nat
  me_mtime :: "nat option"

record manifest =
  mf_version :: nat
  mf_entries :: "manifest_entry list"

definition MANIFEST_VERSION :: nat where
  "MANIFEST_VERSION = 2"

definition manifest_size_bytes :: "manifest \<Rightarrow> nat" where
  "manifest_size_bytes m = sum_list (map me_size (mf_entries m))"

definition referenced_blobs :: "manifest \<Rightarrow> string list" where
  "referenced_blobs m = map me_hash (mf_entries m)"

record pool_env =
  pe_digest :: "string \<Rightarrow> string"
  pe_lossy :: "string \<Rightarrow> string"
  pe_create_mode :: nat
  pe_pool_dir :: string
  pe_host :: "string \<Rightarrow> fs_node option"
  pe_can_link :: "nat \<Rightarrow> bool"

type_synonym pool = "((string \<times> string) \<times> nat) list"

record pool_state =
  ps_pool :: pool
  ps_store :: inode_store

definition blob_prefix :: "string \<Rightarrow> string" where
  "blob_prefix sha = (if length sha \<ge> 2 then take 2 sha else sha)"

definition blob_path :: "string \<Rightarrow> string \<Rightarrow> string" where
  "blob_path pool_dir sha = path_join (path_join pool_dir (blob_prefix sha)) sha"

text \<open>A hash whose blob path is a name in a shard of the pool.\<close>

definition plain_hash :: "string \<Rightarrow> bool" where
  "plain_hash sha = (entry_name sha \<and> blob_prefix sha \<noteq> ''..'')"

text \<open>What is at the blob path: a blob of the pool, or whatever the host has there.\<close>

definition blob_at :: "pool_env \<Rightarrow> pool \<Rightarrow> string \<Rightarrow> fs_node option" where
  "blob_at env pool sha =
     (if plain_hash sha then map_option FsFile (map_of pool (blob_prefix sha, sha))
      else pe_host env (blob_path (pe_pool_dir env) sha))"

section \<open>Capture\<close>

text \<open>Regular files have \<open>S_IFREG\<close> set in their mode.\<close>

definition get_unix_mode :: "file_data \<Rightarrow> nat" where
  "get_unix_mode f = 32768 + fd_mode f"

definition build_prior_lookup :: "manifest \<Rightarrow> string \<rightharpoonup> (nat \<times> nat \<times> string)" where
  "build_prior_lookup prior =
     map_of (rev (List.map_filter
       (\<lambda>e. map_option (\<lambda>ns. (me_path e, (me_size e, ns, me_hash e))) (me_mtime e)) (mf_entries prior)))"

definition hash_into_pool ::
  "pool_env \<Rightarrow> nat \<Rightarrow> nat \<Rightarrow> pool_state \<Rightarrow> (jail_error, (string \<times> nat) \<times> pool_state) result" where
  "hash_into_pool env now i ps =
     (case is_data (ps_store ps) i of
        None \<Rightarrow> Err (SnapshotError ''No such file or directory'')
      | Some f \<Rightarrow>
          (let hash = pe_digest env (fd_content f); size = length (fd_content f)
           in if blob_at env (ps_pool ps) hash \<noteq> None then Ok ((hash, size), ps)
              else let (j, st) = alloc \<lparr>fd_content = fd_content f, fd_mode = pe_create_mode env,
                                        fd_mtime = now\<rparr> (ps_store ps)
                   in Ok ((hash, size),
                          \<lparr>ps_pool = ((blob_prefix hash, hash), j) # ps_pool ps, ps_store = st\<rparr>)))"

definition rel_string :: "pool_env \<Rightarrow> string list \<Rightarrow> string" where
  "rel_string env names = join_slash (map (pe_lossy env) names)"

text \<open>One regular file: the prior entry when size and modification time agree and its blob
  is still there, otherwise the file is hashed into the pool.\<close>

definition hash_file ::
  "pool_env \<Rightarrow> nat \<Rightarrow> (string \<rightharpoonup> nat \<times> nat \<times> string) \<Rightarrow> string list \<Rightarrow> nat \<Rightarrow> pool_state
   \<Rightarrow> (jail_error, manifest_entry \<times> pool_state) result" where
  "hash_file env now prior names i ps =
     (let rel = rel_string env names;
          full = and_then (hash_into_pool env now i ps) (\<lambda>((hash, size), ps').
                   Ok (\<lparr>me_path = rel,
                        me_mode = (case is_data (ps_store ps) i of Some f \<Rightarrow> get_unix_mode f | None \<Rightarrow> 420),
                        me_hash = hash, me_size = size,
                        me_mtime = map_option fd_mtime (is_data (ps_store ps) i)\<rparr>, ps'))
      in case (prior rel, is_data (ps_store ps) i) of
           (Some (prior_size, prior_mtime, prior_hash), Some f) \<Rightarrow>
             if length (fd_content f) = prior_size \<and> fd_mtime f = prior_mtime \<and>
                blob_at env (ps_pool ps) prior_hash \<noteq> None
             then Ok (\<lparr>me_path = rel, me_mode = get_unix_mode f, me_hash = prior_hash,
                       me_size = length (fd_content f), me_mtime = Some (fd_mtime f)\<rparr>, ps)
             else full
         | _ \<Rightarrow> full)"

fun walk_and_hash ::
  "pool_env \<Rightarrow> nat \<Rightarrow> (string \<rightharpoonup> nat \<times> nat \<times> string) \<Rightarrow> string list \<Rightarrow> dir \<Rightarrow> pool_state
   \<Rightarrow> (jail_error, manifest_entry list \<times> pool_state) result" where
  "walk_and_hash env now prior at [] ps = Ok ([], ps)"
| "walk_and_hash env now prior at ((name, FsSymlink t) # es) ps = walk_and_hash env now prior at es ps"
| "walk_and_hash env now prior at ((name, FsDir sub) # es) ps =
     and_then (walk_and_hash env now prior (at @ [name]) sub ps) (\<lambda>(out1, ps).
     and_then (walk_and_hash env now prior at es ps) (\<lambda>(out2, ps).
       Ok (out1 @ out2, ps)))"
| "walk_and_hash env now prior at ((name, FsSpecial) # es) ps = walk_and_hash env now prior at es ps"
| "walk_and_hash env now prior at ((name, FsFile i) # es) ps =
     and_then (hash_file env now prior (at @ [name]) i ps) (\<lambda>(e, ps).
     and_then (walk_and_hash env now prior at es ps) (\<lambda>(out, ps).
       Ok (e # out, ps)))"

definition create_incremental_with_hint ::
  "pool_env \<Rightarrow> nat \<Rightarrow> string \<Rightarrow> dir option \<Rightarrow> manifest option \<Rightarrow> pool_state
   \<Rightarrow> (jail_error, manifest \<times> pool_state) result" where
  "create_incremental_with_hint env now path output_dir prior ps =
     (case output_dir of
        None \<Rightarrow> Err (PathNotFound path)
      | Some d \<Rightarrow>
          (let prior_map = (case prior of Some m \<Rightarrow> build_prior_lookup m | None \<Rightarrow> Map.empty)
           in and_then (walk_and_hash env now prior_map [] d ps) (\<lambda>(entries, ps).
                Ok (\<lparr>mf_version = MANIFEST_VERSION, mf_entries = sort_key me_path entries\<rparr>, ps))))"

definition create_incremental ::
  "pool_env \<Rightarrow> nat \<Rightarrow> string \<Rightarrow> dir option \<Rightarrow> pool_state \<Rightarrow> (jail_error, manifest \<times> pool_state) result" where
  "create_incremental env now path output_dir ps =
     create_incremental_with_hint env now path output_dir None ps"

section \<open>Restore\<close>

definition validate_relative_path :: "string \<Rightarrow> (jail_error, unit) result" where
  "validate_relative_path p =
     (if p = '''' then Err (SnapshotError ''manifest entry has empty path'')
      else if is_absolute p then Err (SnapshotError (''manifest entry path is absolute: '' @ p))
      else if \<forall>c \<in> set (components p). case c of Normal _ \<Rightarrow> True | _ \<Rightarrow> False then Ok ()
      else Err (SnapshotError (''manifest entry path contains non-normal component: '' @ p)))"

definition normal_names :: "string \<Rightarrow> string list" where
  "normal_names p = List.map_filter (\<lambda>c. case c of Normal s \<Rightarrow> Some s | _ \<Rightarrow> None) (components p)"

type_synonym tree = "(string list \<times> nat) list"

text \<open>\<open>chmod\<close> keeps the twelve permission bits; set-user-id (bit 11) and set-group-id
  (bit 10) are dropped before.\<close>

definition safe_mode :: "nat \<Rightarrow> nat" where
  "safe_mode mode = take_bit 12 (unset_bit 11 (unset_bit 10 mode))"

definition set_unix_mode :: "nat \<Rightarrow> nat \<Rightarrow> inode_store \<Rightarrow> inode_store" where
  "set_unix_mode i mode st =
     st\<lparr>is_data := (is_data st)(i := map_option (\<lambda>f. f\<lparr>fd_mode := safe_mode mode\<rparr>) (is_data st i))\<rparr>"

text \<open>\<open>fs::copy\<close> onto an existing file: opened with truncation, so a file copied onto
  itself (through another link) is empty afterwards.\<close>

definition copy_onto :: "nat \<Rightarrow> file_data \<Rightarrow> nat \<Rightarrow> nat \<Rightarrow> inode_store \<Rightarrow> inode_store" where
  "copy_onto now f i j st =
     st\<lparr>is_data := (is_data st)(j \<mapsto> (if i = j then f\<lparr>fd_content := [], fd_mtime := now\<rparr>
                                       else f\<lparr>fd_mtime := now\<rparr>))\<rparr>"

text \<open>A path is blocked when one of its parents is a file, it names a directory, or it
  ends in a slash or a dot.\<close>

definition path_blocked :: "string \<Rightarrow> string list \<Rightarrow> tree \<Rightarrow> bool" where
  "path_blocked p dst target =
     (ends_with p ''/'' \<or> ends_with p ''/.'' \<or>
      (\<exists>q \<in> fst ` set target. strict_prefix q dst \<or> strict_prefix dst q))"

definition restore_entry ::
  "pool_env \<Rightarrow> nat \<Rightarrow> pool \<Rightarrow> manifest_entry \<Rightarrow> tree \<times> inode_store \<Rightarrow> (jail_error, tree \<times> inode_store) result" where
  "restore_entry env now pool e ts =
     and_then (validate_relative_path (me_path e)) (\<lambda>_.
       (case blob_at env pool (me_hash e) of
          None \<Rightarrow> Err (SnapshotError (''blob '' @ me_hash e @ '' missing from pool''))
        | Some node \<Rightarrow>
            (let (target, st) = ts; dst = normal_names (me_path e)
             in if path_blocked (me_path e) dst target then Err (SnapshotError ''Not a directory'')
                else (case node of
                  FsFile i \<Rightarrow>
                    (case (is_data st i, map_of target dst) of
                       (None, _) \<Rightarrow> Err (SnapshotError ''No such file or directory'')
                     | (Some f, None) \<Rightarrow>
                         if pe_can_link env i
                         then Ok (target @ [(dst, i)], set_unix_mode i (me_mode e) st)
                         else (let (j, st) = alloc (f\<lparr>fd_mtime := now\<rparr>) st
                               in Ok (target @ [(dst, j)], set_unix_mode j (me_mode e) st))
                     | (Some f, Some j) \<Rightarrow>
                         Ok (target, set_unix_mode j (me_mode e) (copy_onto now f i j st)))
                | _ \<Rightarrow> Err (SnapshotError ''the source path is neither a regular file nor a symlink to a regular file'')))))"

fun restore_entries ::
  "pool_env \<Rightarrow> nat \<Rightarrow> pool \<Rightarrow> manifest_entry list \<Rightarrow> tree \<times> inode_store \<Rightarrow> (jail_error, tree \<times> inode_store) result" where
  "restore_entries env now pool [] ts = Ok ts"
| "restore_entries env now pool (e # es) ts =
     and_then (restore_entry env now pool e ts) (restore_entries env now pool es)"

text \<open>The target directory is cleared or created first.\<close>

definition restore_incremental ::
  "pool_env \<Rightarrow> nat \<Rightarrow> manifest option \<Rightarrow> pool_state \<Rightarrow> (jail_error, tree \<times> pool_state) result" where
  "restore_incremental env now manifest ps =
     (case manifest of
        None \<Rightarrow> Err (SnapshotError ''manifest.json'')
      | Some m \<Rightarrow>
          and_then (restore_entries env now (ps_pool ps) (mf_entries m) ([], ps_store ps)) (\<lambda>(target, st).
            Ok (target, ps\<lparr>ps_store := st\<rparr>)))"

section \<open>Garbage collection\<close>

definition blob_garbage :: "string list \<Rightarrow> (string \<times> string) \<times> nat \<Rightarrow> bool" where
  "blob_garbage referenced b = (let ((shard, name), i) = b in starts_with name ''.tmp-'' \<or> name \<notin> set referenced)"

text \<open>The result of a removal is not looked at: what cannot be removed stays, and is counted as removed.\<close>

definition gc_objects_pool ::
  "(string \<times> string \<Rightarrow> bool) \<Rightarrow> string list \<Rightarrow> pool_state \<Rightarrow> (nat \<times> nat) \<times> pool_state" where
  "gc_objects_pool removable referenced ps =
     (let garbage = filter (blob_garbage referenced) (ps_pool ps)
      in ((length garbage,
           sum_list (map (\<lambda>(_, i). case is_data (ps_store ps) i of Some f \<Rightarrow> length (fd_content f) | None \<Rightarrow> 0) garbage)),
          ps\<lparr>ps_pool := filter (\<lambda>b. \<not> (blob_garbage referenced b \<and> removable (fst b))) (ps_pool ps)\<rparr>))"


section \<open>Specification of capture\<close>

text \<open>The regular files of a tree with their paths, in the order of the walk.\<close>

fun files :: "string list \<Rightarrow> dir \<Rightarrow> (string list \<times> nat) list" where
  "files at [] = []"
| "files at ((name, FsSymlink t) # es) = files at es"
| "files at ((name, FsDir sub) # es) = files (at @ [name]) sub @ files at es"
| "files at ((name, FsSpecial) # es) = files at es"
| "files at ((name, FsFile i) # es) = (at @ [name], i) # files at es"

text \<open>A tree as a file system holds it: entry names, distinct within a directory, valid
  UTF-8.\<close>

fun names_ok :: "dir \<Rightarrow> bool" where
  "names_ok [] = True"
| "names_ok ((name, FsDir sub) # es) =
     (entry_name name \<and> utf8_valid name \<and> name \<notin> fst ` set es \<and> names_ok sub \<and> names_ok es)"
| "names_ok ((name, node) # es) =
     (entry_name name \<and> utf8_valid name \<and> name \<notin> fst ` set es \<and> names_ok es)"

definition files_present :: "inode_store \<Rightarrow> (string list \<times> nat) list \<Rightarrow> bool" where
  "files_present st fs = (\<forall>(p, i) \<in> set fs. is_data st i \<noteq> None)"

text \<open>What the code relies on in the hash and in the decoding of names: a digest is a plain
  name (hex digits), and valid UTF-8 is decoded as it is.\<close>

definition pool_env_ok :: "pool_env \<Rightarrow> bool" where
  "pool_env_ok env = ((\<forall>c. plain_hash (pe_digest env c) \<and> \<not> starts_with (pe_digest env c) ''.tmp-'') \<and>
                      (\<forall>n. utf8_valid n \<longrightarrow> pe_lossy env n = n))"

text \<open>The invariant of the pool: every blob is stored under its own digest, in its shard.\<close>

definition pool_ok :: "pool_env \<Rightarrow> pool \<Rightarrow> inode_store \<Rightarrow> bool" where
  "pool_ok env pool st = (store_ok st \<and>
     (\<forall>((shard, name), i) \<in> set pool. shard = blob_prefix name \<and>
        (\<exists>f. is_data st i = Some f \<and> pe_digest env (fd_content f) = name)))"

definition pool_has :: "pool \<Rightarrow> string \<Rightarrow> bool" where
  "pool_has pool sha = (map_of pool (blob_prefix sha, sha) \<noteq> None)"

text \<open>The entry and the pool update of one file, without any hint.\<close>

definition entry_for :: "pool_env \<Rightarrow> inode_store \<Rightarrow> string list \<times> nat \<Rightarrow> manifest_entry" where
  "entry_for env st pi =
     (let f = the (is_data st (snd pi))
      in \<lparr>me_path = rel_string env (fst pi), me_mode = get_unix_mode f,
          me_hash = pe_digest env (fd_content f), me_size = length (fd_content f),
          me_mtime = Some (fd_mtime f)\<rparr>)"

definition add_blob :: "pool_env \<Rightarrow> nat \<Rightarrow> string list \<times> nat \<Rightarrow> pool_state \<Rightarrow> pool_state" where
  "add_blob env now pi ps =
     (let c = fd_content (the (is_data (ps_store ps) (snd pi))); h = pe_digest env c
      in if pool_has (ps_pool ps) h then ps
         else let (j, st) = alloc \<lparr>fd_content = c, fd_mode = pe_create_mode env, fd_mtime = now\<rparr> (ps_store ps)
              in \<lparr>ps_pool = ((blob_prefix h, h), j) # ps_pool ps, ps_store = st\<rparr>)"

definition add_blobs :: "pool_env \<Rightarrow> nat \<Rightarrow> (string list \<times> nat) list \<Rightarrow> pool_state \<Rightarrow> pool_state" where
  "add_blobs env now fs = fold (add_blob env now) fs"

text \<open>A prior manifest is truthful about a tree when a file whose size and modification time
  it records still has the recorded hash.\<close>

definition truthful :: "pool_env \<Rightarrow> inode_store \<Rightarrow> (string \<rightharpoonup> nat \<times> nat \<times> string) \<Rightarrow> (string list \<times> nat) list \<Rightarrow> bool" where
  "truthful env st prior fs =
     (\<forall>(p, i) \<in> set fs. case (is_data st i, prior (rel_string env p)) of
        (Some f, Some (sz, mtime, hash)) \<Rightarrow>
          sz = length (fd_content f) \<and> mtime = fd_mtime f \<longrightarrow> hash = pe_digest env (fd_content f)
      | _ \<Rightarrow> True)"

definition pool_grows :: "pool_state \<Rightarrow> pool_state \<Rightarrow> bool" where
  "pool_grows ps ps' = (extends (ps_store ps) (ps_store ps') \<and>
     (\<forall>k i. map_of (ps_pool ps) k = Some i \<longrightarrow> map_of (ps_pool ps') k = Some i))"

lemma blob_at_digest:
  "pool_env_ok env \<Longrightarrow> blob_at env pool (pe_digest env c) =
     map_option FsFile (map_of pool (blob_prefix (pe_digest env c), pe_digest env c))"
  by (simp add: blob_at_def pool_env_ok_def)

lemma pool_grows_trans: "pool_grows a b \<Longrightarrow> pool_grows b c \<Longrightarrow> pool_grows a c"
  by (auto simp: pool_grows_def intro: extends_trans)

lemma pool_grows_has: "pool_grows a b \<Longrightarrow> pool_has (ps_pool a) h \<Longrightarrow> pool_has (ps_pool b) h"
  by (auto simp: pool_grows_def pool_has_def)

lemma pool_okD:
  "pool_ok env pool st \<Longrightarrow> ((shard, name), i) \<in> set pool \<Longrightarrow>
     \<exists>f. is_data st i = Some f \<and> pe_digest env (fd_content f) = name"
  by (auto simp: pool_ok_def)

lemma pool_ok_extends: "pool_ok env pool st \<Longrightarrow> extends st st' \<Longrightarrow> pool_ok env pool st'"
  by (fastforce simp: pool_ok_def extends_def)

lemma hash_file_eq:
  assumes "pool_env_ok env" "is_data (ps_store ps) i = Some f"
    and "truthful env (ps_store ps) prior [(p, i)]"
  shows "hash_file env now prior p i ps = Ok (entry_for env (ps_store ps) (p, i), add_blob env now (p, i) ps)"
proof -
  have full: "hash_into_pool env now i ps =
      Ok ((pe_digest env (fd_content f), length (fd_content f)), add_blob env now (p, i) ps)"
    using assms(2) blob_at_digest [OF assms(1), of "ps_pool ps"]
    by (auto simp: hash_into_pool_def add_blob_def pool_has_def Let_def split: prod.split)
  show ?thesis
  proof (cases "prior (rel_string env p)")
    case None
    then show ?thesis
      using assms(2) full by (simp add: hash_file_def entry_for_def Let_def)
  next
    case (Some sh)
    obtain sz mtime h where sh: "sh = (sz, mtime, h)"
      by (cases sh)
    have "add_blob env now (p, i) ps = ps"
      if "sz = length (fd_content f)" "mtime = fd_mtime f" "blob_at env (ps_pool ps) h \<noteq> None"
      using that assms Some sh blob_at_digest [OF assms(1), of "ps_pool ps"]
      by (auto simp: truthful_def add_blob_def pool_has_def Let_def)
    then show ?thesis
      using assms Some sh full by (auto simp: hash_file_def entry_for_def Let_def truthful_def)
  qed
qed

lemma add_blob_ok:
  assumes "pool_ok env (ps_pool ps) (ps_store ps)" "is_data (ps_store ps) i = Some f"
  shows "pool_ok env (ps_pool (add_blob env now (p, i) ps)) (ps_store (add_blob env now (p, i) ps)) \<and>
         pool_grows ps (add_blob env now (p, i) ps) \<and>
         pool_has (ps_pool (add_blob env now (p, i) ps)) (pe_digest env (fd_content f))"
proof (cases "pool_has (ps_pool ps) (pe_digest env (fd_content f))")
  case True
  then show ?thesis
    using assms by (auto simp: add_blob_def pool_grows_def pool_ok_def intro: extends_refl)
next
  case False
  obtain j st' where a: "alloc \<lparr>fd_content = fd_content f, fd_mode = pe_create_mode env, fd_mtime = now\<rparr> (ps_store ps) = (j, st')"
    by fastforce
  have st': "extends (ps_store ps) st'" "is_data st' j = Some \<lparr>fd_content = fd_content f, fd_mode = pe_create_mode env, fd_mtime = now\<rparr>"
    using alloc_extends [OF _ a] assms(1) by (auto simp: pool_ok_def)
  show ?thesis
    using False assms(2) a st' pool_ok_extends [OF assms(1) st'(1)]
    by (auto simp: add_blob_def pool_grows_def pool_has_def pool_ok_def Let_def)
qed


lemma truthful_extends:
  assumes "extends st st'" "files_present st fs"
  shows "truthful env st' prior fs = truthful env st prior fs"
  using assms by (fastforce simp: truthful_def files_present_def dest: extends_data)

lemma entry_for_extends:
  assumes "extends st st'" "files_present st fs"
  shows "map (entry_for env st') fs = map (entry_for env st) fs"
  using assms by (fastforce simp: entry_for_def files_present_def extends_data)

lemma files_present_extends: "extends st st' \<Longrightarrow> files_present st fs \<Longrightarrow> files_present st' fs"
  by (fastforce simp: files_present_def dest: extends_data)

lemma add_blobs_ok:
  assumes "pool_ok env (ps_pool ps) (ps_store ps)" "files_present (ps_store ps) fs"
  shows "pool_ok env (ps_pool (add_blobs env now fs ps)) (ps_store (add_blobs env now fs ps)) \<and>
         pool_grows ps (add_blobs env now fs ps) \<and>
         (\<forall>pi \<in> set fs. pool_has (ps_pool (add_blobs env now fs ps)) (me_hash (entry_for env (ps_store ps) pi)))"
  using assms
proof (induction fs arbitrary: ps)
  case Nil
  then show ?case
    by (auto simp: add_blobs_def pool_grows_def pool_ok_def intro: extends_refl)
next
  case (Cons pi fs)
  obtain p i where pi: "pi = (p, i)"
    by (cases pi)
  obtain f where f: "is_data (ps_store ps) i = Some f"
    using Cons.prems(2) pi by (auto simp: files_present_def)
  let ?ps = "add_blob env now pi ps"
  have one: "pool_ok env (ps_pool ?ps) (ps_store ?ps)" "pool_grows ps ?ps"
    "pool_has (ps_pool ?ps) (pe_digest env (fd_content f))"
    using add_blob_ok [OF Cons.prems(1) f, of now p] pi by auto
  have ext: "extends (ps_store ps) (ps_store ?ps)"
    using one(2) by (simp add: pool_grows_def)
  have pr: "files_present (ps_store ps) fs"
    using Cons.prems(2) by (simp add: files_present_def)
  have "map (entry_for env (ps_store ?ps)) fs = map (entry_for env (ps_store ps)) fs"
    using entry_for_extends [OF ext pr] .
  then have same: "\<And>x. x \<in> set fs \<Longrightarrow> entry_for env (ps_store ?ps) x = entry_for env (ps_store ps) x"
    by simp
  have h: "me_hash (entry_for env (ps_store ps) pi) = pe_digest env (fd_content f)"
    using f pi by (simp add: entry_for_def)
  note IH = Cons.IH [OF one(1) files_present_extends [OF ext pr]]
  have step: "add_blobs env now (pi # fs) ps = add_blobs env now fs ?ps"
    by (simp add: add_blobs_def)
  show ?case
    unfolding step using IH one same h by (auto intro: pool_grows_trans pool_grows_has)
qed

lemma files_present_simps [simp]:
  "files_present st []"
  "files_present st ((p, i) # fs) \<longleftrightarrow> is_data st i \<noteq> None \<and> files_present st fs"
  "files_present st (fs @ gs) \<longleftrightarrow> files_present st fs \<and> files_present st gs"
  by (simp_all add: files_present_def ball_Un)

lemma truthful_append:
  "truthful env st prior (fs @ gs) \<longleftrightarrow> truthful env st prior fs \<and> truthful env st prior gs"
  "truthful env st prior (pi # fs) \<longleftrightarrow> truthful env st prior [pi] \<and> truthful env st prior fs"
  by (simp_all add: truthful_def ball_Un)

text \<open>The walk lists every regular file with its own hash, whatever a truthful hint says.\<close>

lemma walk_and_hash_eq:
  assumes "pool_env_ok env" "pool_ok env (ps_pool ps) (ps_store ps)"
    and "files_present (ps_store ps) (files at d)" "truthful env (ps_store ps) prior (files at d)"
  shows "walk_and_hash env now prior at d ps =
           Ok (map (entry_for env (ps_store ps)) (files at d), add_blobs env now (files at d) ps)"
  using assms
proof (induction d arbitrary: at ps rule: dir_induct)
  case Empty
  then show ?case
    by (simp add: add_blobs_def)
next
  case (Dir name sub es)
  let ?ps = "add_blobs env now (files (at @ [name]) sub) ps"
  have ok: "pool_ok env (ps_pool ?ps) (ps_store ?ps)" "extends (ps_store ps) (ps_store ?ps)"
    using add_blobs_ok [OF Dir.prems(2), of "files (at @ [name]) sub" now] Dir.prems(3)
    by (auto simp: pool_grows_def)
  have pr: "files_present (ps_store ps) (files at es)" and tr: "truthful env (ps_store ps) prior (files at es)"
    using Dir.prems by (simp_all add: truthful_append(1))
  have "walk_and_hash env now prior (at @ [name]) sub ps =
          Ok (map (entry_for env (ps_store ps)) (files (at @ [name]) sub), ?ps)"
    using Dir.IH(1) Dir.prems by (simp add: truthful_append(1))
  moreover have "walk_and_hash env now prior at es ?ps =
      Ok (map (entry_for env (ps_store ps)) (files at es), add_blobs env now (files at es) ?ps)"
    using Dir.IH(2) [OF Dir.prems(1) ok(1)] files_present_extends [OF ok(2) pr]
      truthful_extends [OF ok(2) pr] tr entry_for_extends [OF ok(2) pr] by simp
  ultimately show ?case
    by (simp add: add_blobs_def)
next
  case (File name i es)
  let ?ps = "add_blob env now (at @ [name], i) ps"
  obtain f where f: "is_data (ps_store ps) i = Some f"
    using File.prems(3) by auto
  have ok: "pool_ok env (ps_pool ?ps) (ps_store ?ps)" "extends (ps_store ps) (ps_store ?ps)"
    using add_blob_ok [OF File.prems(2) f] by (auto simp: pool_grows_def)
  have pr: "files_present (ps_store ps) (files at es)" and tr: "truthful env (ps_store ps) prior (files at es)"
    and t1: "truthful env (ps_store ps) prior [(at @ [name], i)]"
    using File.prems truthful_append(2) [of env "ps_store ps" prior "(at @ [name], i)" "files at es"] by simp_all
  have "walk_and_hash env now prior at es ?ps =
      Ok (map (entry_for env (ps_store ps)) (files at es), add_blobs env now (files at es) ?ps)"
    using File.IH [OF File.prems(1) ok(1)] files_present_extends [OF ok(2) pr]
      truthful_extends [OF ok(2) pr] tr entry_for_extends [OF ok(2) pr] by simp
  then show ?case
    using hash_file_eq [OF File.prems(1) f t1] by (simp add: add_blobs_def)
qed simp_all

lemma truthful_empty [simp]: "truthful env st Map.empty fs"
  by (auto simp: truthful_def split: option.split)

lemma create_incremental_eq:
  assumes "pool_env_ok env" "pool_ok env (ps_pool ps) (ps_store ps)"
    and "files_present (ps_store ps) (files [] d)"
    and "\<And>m. prior = Some m \<Longrightarrow> truthful env (ps_store ps) (build_prior_lookup m) (files [] d)"
  shows "create_incremental_with_hint env now path (Some d) prior ps =
     Ok (\<lparr>mf_version = 2, mf_entries = sort_key me_path (map (entry_for env (ps_store ps)) (files [] d))\<rparr>,
         add_blobs env now (files [] d) ps)"
  using walk_and_hash_eq [OF assms(1-3)] assms(4)
  by (auto simp: create_incremental_with_hint_def MANIFEST_VERSION_def split: option.split)


section \<open>Paths of a tree\<close>

lemma files_paths:
  assumes "names_ok d" "(p, i) \<in> set (files at d)"
  shows "\<exists>n r. p = at @ n # r \<and> n \<in> fst ` set d \<and> (\<forall>s \<in> set (n # r). entry_name s \<and> utf8_valid s)"
  using assms
proof (induction d arbitrary: at rule: dir_induct)
  case (Dir name sub es)
  show ?case
  proof (cases "(p, i) \<in> set (files (at @ [name]) sub)")
    case True
    have "names_ok sub"
      using Dir.prems(1) by simp
    then obtain n r where "p = (at @ [name]) @ n # r" "\<forall>s \<in> set (n # r). entry_name s \<and> utf8_valid s"
      using Dir.IH(1) [OF _ True] by blast
    then show ?thesis
      using Dir.prems(1) by (intro exI [of _ name] exI [of _ "n # r"]) simp
  next
    case False
    then have "names_ok es" "(p, i) \<in> set (files at es)"
      using Dir.prems by simp_all
    from Dir.IH(2) [OF this] show ?thesis
      by (metis image_insert insertCI list.simps(15))
  qed
next
  case (Symlink name t es)
  then have "names_ok es" "(p, i) \<in> set (files at es)"
    by simp_all
  from Symlink.IH [OF this] show ?case
    by (metis image_insert insertCI list.simps(15))
next
  case (File name j es)
  show ?case
  proof (cases "p = at @ [name]")
    case True
    then show ?thesis
      using File.prems(1) by (intro exI [of _ name] exI [of _ "[]"]) simp
  next
    case False
    then have "names_ok es" "(p, i) \<in> set (files at es)"
      using File.prems by simp_all
    from File.IH [OF this] show ?thesis
      by (metis image_insert insertCI list.simps(15))
  qed
next
  case (Special name es)
  then have "names_ok es" "(p, i) \<in> set (files at es)"
    by simp_all
  from Special.IH [OF this] show ?case
    by (metis image_insert insertCI list.simps(15))
qed simp

lemma files_head:
  assumes "names_ok d" "p \<in> fst ` set (files at d)"
  obtains n r where "p = at @ n # r" "n \<in> fst ` set d"
proof -
  obtain i where "(p, i) \<in> set (files at d)"
    using assms(2) by auto
  with files_paths [OF assms(1)] that show ?thesis
    by blast
qed

text \<open>No path of a tree is a prefix of another, and no path occurs twice.\<close>

lemma files_apart:
  assumes "names_ok d"
  shows "distinct (map fst (files at d)) \<and>
         (\<forall>p \<in> fst ` set (files at d). \<forall>q \<in> fst ` set (files at d). \<not> strict_prefix p q)"
  using assms
proof (induction d arbitrary: at rule: dir_induct)
  case (Dir name sub es)
  let ?A = "fst ` set (files (at @ [name]) sub)" and ?B = "fst ` set (files at es)"
  have ok: "names_ok sub" "names_ok es" "name \<notin> fst ` set es"
    using Dir.prems by simp_all
  have AB: "\<not> prefix p q \<and> \<not> prefix q p" if pq: "p \<in> ?A" "q \<in> ?B" for p q
  proof -
    obtain n r where "p = (at @ [name]) @ n # r"
      using files_head [OF ok(1) pq(1)] .
    moreover obtain m s where "q = at @ m # s" "m \<in> fst ` set es"
      using files_head [OF ok(2) pq(2)] .
    ultimately show ?thesis
      using ok(3) by auto
  qed
  have "?A \<inter> ?B = {}"
    using AB by fastforce
  moreover have "\<not> strict_prefix p q" if "p \<in> ?A \<union> ?B" "q \<in> ?A \<union> ?B" for p q
    using that AB [of p q] AB [of q p] Dir.IH(1) [OF ok(1), of "at @ [name]"] Dir.IH(2) [OF ok(2), of at]
    by (auto simp: strict_prefix_def)
  ultimately show ?case
    using Dir.IH(1) [OF ok(1), of "at @ [name]"] Dir.IH(2) [OF ok(2), of at]
    by (simp add: image_Un)
next
  case (File name i es)
  have ok: "names_ok es" "name \<notin> fst ` set es"
    using File.prems by simp_all
  have AB: "\<not> prefix (at @ [name]) q \<and> \<not> prefix q (at @ [name])" if q: "q \<in> fst ` set (files at es)" for q
  proof -
    obtain m s where "q = at @ m # s" "m \<in> fst ` set es"
      using files_head [OF ok(1) q] .
    then show ?thesis
      using ok(2) by (auto simp: prefix_def)
  qed
  have "at @ [name] \<notin> fst ` set (files at es)"
    using AB by fastforce
  with AB File.IH [OF ok(1), of at] show ?case
    by (simp add: strict_prefix_def)
qed simp_all

lemma rel_string_names:
  assumes "pool_env_ok env" "names_ok d" "(p, i) \<in> set (files [] d)"
  shows "rel_string env p = join_slash p \<and> p \<noteq> [] \<and> (\<forall>s \<in> set p. entry_name s)"
proof -
  obtain n r where p: "p = n # r" "\<forall>s \<in> set (n # r). entry_name s \<and> utf8_valid s"
    using files_paths [OF assms(2,3)] by auto
  then have "map (pe_lossy env) p = p"
    using assms(1) by (simp add: pool_env_ok_def map_idI)
  with p show ?thesis
    by (simp add: rel_string_def)
qed

lemma map_filter_Normal: "List.map_filter (\<lambda>c. case c of Normal s \<Rightarrow> Some s | _ \<Rightarrow> None) (map Normal ns) = ns"
  by (induction ns) (auto simp: List.map_filter_simps)

lemma join_slash_path:
  assumes "p \<noteq> []" "\<forall>s \<in> set p. entry_name s"
  shows "normal_names (join_slash p) = p" "validate_relative_path (join_slash p) = Ok ()"
    "\<not> ends_with (join_slash p) ''/''" "\<not> ends_with (join_slash p) ''/.''"
proof -
  have sp: "split_on CHR ''/'' (join_slash p) = p"
    using assms by (intro split_join_slash) (simp_all add: entry_name_def)
  have c: "components (join_slash p) = map Normal p"
    by (rule components_join_slash [OF assms])
  show "normal_names (join_slash p) = p"
    unfolding normal_names_def c by (rule map_filter_Normal)
  have hd: "entry_name (hd p)"
    using assms by simp
  have la: "entry_name (last p)"
    using assms by simp
  have "\<not> is_absolute (join_slash p)"
    unfolding is_absolute_def starts_slash_hd sp using hd by (simp add: entry_name_def)
  moreover have "join_slash p \<noteq> ''''"
    using sp hd by (auto simp: entry_name_def)
  ultimately show "validate_relative_path (join_slash p) = Ok ()"
    by (auto simp: validate_relative_path_def c)
  show "\<not> ends_with (join_slash p) ''/''"
  proof
    assume "ends_with (join_slash p) ''/''"
    then obtain r where "join_slash p = r @ ''/''"
      by (auto simp: ends_with_iff)
    then have "p = split_on CHR ''/'' r @ ['''']"
      using sp split_on_append_sep [of "CHR ''/''" r "''''"] by simp
    then show False
      using la by (simp add: entry_name_def)
  qed
  show "\<not> ends_with (join_slash p) ''/.''"
  proof
    assume "ends_with (join_slash p) ''/.''"
    then obtain r where "join_slash p = r @ ''/.''"
      by (auto simp: ends_with_iff)
    then have "p = split_on CHR ''/'' r @ [''.'']"
      using sp split_on_append_sep [of "CHR ''/''" r "''.''"] by simp
    then show False
      using la by (simp add: entry_name_def)
  qed
qed


section \<open>Restoring entries\<close>

definition restored :: "pool_env \<Rightarrow> bool \<Rightarrow> tree \<Rightarrow> inode_store \<Rightarrow> manifest_entry \<Rightarrow> bool" where
  "restored env modes target st e =
     (\<exists>j f. map_of target (normal_names (me_path e)) = Some j \<and> is_data st j = Some f \<and>
        pe_digest env (fd_content f) = me_hash e \<and> (modes \<longrightarrow> fd_mode f = safe_mode (me_mode e)))"

definition contents :: "inode_store \<Rightarrow> string set" where
  "contents st = fd_content ` ran (is_data st)"

lemma contentsI: "is_data st i = Some f \<Longrightarrow> fd_content f \<in> contents st"
  by (auto simp: contents_def ran_def)

text \<open>A store in which files may have been copied and modes changed, but no contents.\<close>

definition same_contents :: "inode_store \<Rightarrow> inode_store \<Rightarrow> bool" where
  "same_contents st st' = (store_ok st' \<and>
     (\<forall>i f. is_data st i = Some f \<longrightarrow> (\<exists>f'. is_data st' i = Some f' \<and> fd_content f' = fd_content f)) \<and>
     contents st' \<subseteq> contents st)"

lemma same_contents_trans: "same_contents a b \<Longrightarrow> same_contents b c \<Longrightarrow> same_contents a c"
  unfolding same_contents_def by (metis subset_trans)

lemma pool_ok_same_contents: "pool_ok env pool st \<Longrightarrow> same_contents st st' \<Longrightarrow> pool_ok env pool st'"
  unfolding pool_ok_def same_contents_def by fastforce

lemma set_unix_mode_same: "store_ok st \<Longrightarrow> same_contents st (set_unix_mode i m st)"
  by (auto simp: same_contents_def set_unix_mode_def store_ok_def contents_def ran_def image_iff split: if_splits)

lemma same_contents_refl: "store_ok st \<Longrightarrow> same_contents st st"
  by (auto simp: same_contents_def)

lemma alloc_same:
  assumes "store_ok st" "is_data st i = Some f" "alloc (f\<lparr>fd_mtime := now\<rparr>) st = (j, st')"
  shows "same_contents st st'"
proof -
  have new: "is_data st (is_next st) = None"
    using assms(1) by (simp add: store_ok_def)
  have "contents st' = insert (fd_content f) (contents st)"
    using assms(3) new by (auto simp: alloc_def contents_def)
  then show ?thesis
    using assms contentsI [OF assms(2)] by (auto simp: same_contents_def alloc_def store_ok_def)
qed

text \<open>Placing one entry: inode \<open>j\<close> holds the contents and is new, or is the blob itself.\<close>

lemma restored_placed:
  assumes "same_contents st st1" "is_data st1 j = Some f" "pe_digest env (fd_content f) = me_hash e"
    and "normal_names (me_path e) \<notin> fst ` set target"
    and "\<And>i. i \<noteq> j \<Longrightarrow> is_data st1 i = is_data st i \<or> is_data st i = None"
    and "\<And>g. is_data st j = Some g \<Longrightarrow> pe_digest env (fd_content g) = me_hash e"
  defines "st' \<equiv> set_unix_mode j (me_mode e) st1"
    and "target' \<equiv> target @ [(normal_names (me_path e), j)]"
  shows "restored env m target' st' e"
    and "restored env m target st e' \<Longrightarrow> (m \<Longrightarrow> me_hash e' = me_hash e \<Longrightarrow> me_mode e' = me_mode e)
         \<Longrightarrow> restored env m target' st' e'"
proof -
  have "map_of target (normal_names (me_path e)) = None"
    using assms(4) by (simp add: map_of_eq_None_iff)
  then show "restored env m target' st' e"
    using assms(2,3) by (simp add: restored_def target'_def st'_def set_unix_mode_def map_add_def)
  show "restored env m target' st' e'" if r: "restored env m target st e'"
    and modes: "m \<Longrightarrow> me_hash e' = me_hash e \<Longrightarrow> me_mode e' = me_mode e"
  proof -
    obtain i g where g: "map_of target (normal_names (me_path e')) = Some i" "is_data st i = Some g"
      "pe_digest env (fd_content g) = me_hash e'" "m \<longrightarrow> fd_mode g = safe_mode (me_mode e')"
      using r by (auto simp: restored_def)
    have t: "map_of target' (normal_names (me_path e')) = Some i"
      using g(1) by (simp add: target'_def map_add_def)
    show ?thesis
    proof (cases "i = j")
      case True
      then have "me_hash e' = me_hash e"
        using assms(6) g by auto
      moreover have "is_data st' i = Some (f\<lparr>fd_mode := safe_mode (me_mode e)\<rparr>)"
        using True assms(2) by (simp add: st'_def set_unix_mode_def)
      ultimately show ?thesis
        using t assms(3) modes by (auto simp: restored_def)
    next
      case False
      then have "is_data st' i = Some g"
        using assms(5) [OF False] g(2) by (simp add: st'_def set_unix_mode_def)
      then show ?thesis
        using t g by (auto simp: restored_def)
    qed
  qed
qed

lemma restore_entry_step:
  assumes "plain_hash (me_hash e)" "pool_ok env pool st" "pool_has pool (me_hash e)"
    and "validate_relative_path (me_path e) = Ok ()"
    and "\<not> path_blocked (me_path e) (normal_names (me_path e)) target"
    and "normal_names (me_path e) \<notin> fst ` set target"
  shows "\<exists>target' st'. restore_entry env now pool e (target, st) = Ok (target', st') \<and>
           same_contents st st' \<and>
           fst ` set target' = insert (normal_names (me_path e)) (fst ` set target) \<and>
           restored env m target' st' e \<and>
           (\<forall>e'. restored env m target st e' \<and> (m \<longrightarrow> me_hash e' = me_hash e \<longrightarrow> me_mode e' = me_mode e)
              \<longrightarrow> restored env m target' st' e')"
proof -
  obtain i where i: "map_of pool (blob_prefix (me_hash e), me_hash e) = Some i"
    using assms(3) by (auto simp: pool_has_def)
  then have "((blob_prefix (me_hash e), me_hash e), i) \<in> set pool"
    by (rule map_of_SomeD)
  then obtain f where f: "is_data st i = Some f" "pe_digest env (fd_content f) = me_hash e"
    using assms(2) by (auto simp: pool_ok_def)
  have ok: "store_ok st"
    using assms(2) by (simp add: pool_ok_def)
  have blob: "blob_at env pool (me_hash e) = Some (FsFile i)"
    using assms(1) i by (simp add: blob_at_def)
  have new: "map_of target (normal_names (me_path e)) = None"
    using assms(6) by (simp add: map_of_eq_None_iff)
  show ?thesis
  proof (cases "pe_can_link env i")
    case True
    note placed = restored_placed [OF same_contents_refl [OF ok] f assms(6)]
    show ?thesis
      using True f ok new blob assms(4,5) placed set_unix_mode_same [OF ok]
      by (auto simp: restore_entry_def)
  next
    case False
    obtain j st1 where a: "alloc (f\<lparr>fd_mtime := now\<rparr>) st = (j, st1)"
      by fastforce
    have st1: "extends st st1" "is_data st1 j = Some (f\<lparr>fd_mtime := now\<rparr>)" "is_data st j = None"
      using alloc_extends [OF ok a] ok by (auto simp: store_ok_def)
    have other: "is_data st1 k = is_data st k" if "k \<noteq> j" for k
      using a that by (auto simp: alloc_def)
    have dig: "pe_digest env (fd_content (f\<lparr>fd_mtime := now\<rparr>)) = me_hash e"
      using f(2) by simp
    note same = alloc_same [OF ok f(1) a]
    note placed = restored_placed [OF same st1(2) dig assms(6)]
    have "same_contents st (set_unix_mode j (me_mode e) st1)"
      using same_contents_trans [OF same set_unix_mode_same] extends_store_ok [OF st1(1)] by blast
    then show ?thesis
      using False f new blob assms(4,5) placed a other st1(3)
      by (auto simp: restore_entry_def)
  qed
qed


lemma path_blockedI:
  assumes "\<not> ends_with p ''/''" "\<not> ends_with p ''/.''"
    and "\<And>q. q \<in> fst ` set target \<Longrightarrow> \<not> strict_prefix q dst \<and> \<not> strict_prefix dst q"
  shows "\<not> path_blocked p dst target"
  using assms by (auto simp: path_blocked_def)

lemma restore_entries_ok:
  fixes es :: "manifest_entry list"
  defines "dst \<equiv> \<lambda>e :: manifest_entry. normal_names (me_path e)"
  assumes "pool_ok env pool st"
    and "\<forall>e \<in> set es. plain_hash (me_hash e) \<and> pool_has pool (me_hash e) \<and>
           validate_relative_path (me_path e) = Ok () \<and>
           \<not> ends_with (me_path e) ''/'' \<and> \<not> ends_with (me_path e) ''/.''"
    and "distinct (map dst es)" "dst ` set es \<inter> fst ` set target = {}"
    and "\<forall>p \<in> dst ` set es \<union> fst ` set target. \<forall>q \<in> dst ` set es \<union> fst ` set target. \<not> strict_prefix p q"
    and "\<forall>e \<in> D. restored env m target st e"
    and "m \<longrightarrow> (\<forall>e \<in> D \<union> set es. \<forall>e' \<in> D \<union> set es. me_hash e = me_hash e' \<longrightarrow> me_mode e = me_mode e')"
  shows "\<exists>target' st'. restore_entries env now pool es (target, st) = Ok (target', st') \<and>
           same_contents st st' \<and> fst ` set target' = dst ` set es \<union> fst ` set target \<and>
           (\<forall>e \<in> D \<union> set es. restored env m target' st' e)"
  using assms(2-)
proof (induction es arbitrary: target st D)
  case Nil
  then show ?case
    by (auto simp: pool_ok_def intro: same_contents_refl)
next
  case (Cons e es)
  have free: "\<not> path_blocked (me_path e) (dst e) target"
    using Cons.prems(2,5) by (intro path_blockedI) auto
  have hyp: "plain_hash (me_hash e)" "pool_has pool (me_hash e)" "validate_relative_path (me_path e) = Ok ()"
    and new: "dst e \<notin> fst ` set target"
    using Cons.prems(2,4) by auto
  obtain t1 s1 where t1: "restore_entry env now pool e (target, st) = Ok (t1, s1)" "same_contents st s1"
    "fst ` set t1 = insert (dst e) (fst ` set target)" "restored env m t1 s1 e"
    "\<And>e'. restored env m target st e' \<Longrightarrow> (m \<longrightarrow> me_hash e' = me_hash e \<longrightarrow> me_mode e' = me_mode e)
       \<Longrightarrow> restored env m t1 s1 e'"
    using restore_entry_step [OF hyp(1) Cons.prems(1) hyp(2,3), of target now m] free new
    unfolding dst_def by blast
  have moved: "insert e D \<union> set es = D \<union> set (e # es)"
    by simp
  have "\<exists>target' st'. restore_entries env now pool es (t1, s1) = Ok (target', st') \<and>
           same_contents s1 st' \<and> fst ` set target' = dst ` set es \<union> fst ` set t1 \<and>
           (\<forall>e' \<in> insert e D \<union> set es. restored env m target' st' e')"
  proof (rule Cons.IH)
    show "pool_ok env pool s1"
      by (rule pool_ok_same_contents [OF Cons.prems(1) t1(2)])
    show "dst ` set es \<inter> fst ` set t1 = {}"
      using Cons.prems(3,4) t1(3) by auto
    show "\<forall>p \<in> dst ` set es \<union> fst ` set t1. \<forall>q \<in> dst ` set es \<union> fst ` set t1. \<not> strict_prefix p q"
      using Cons.prems(5) t1(3) by simp
    show "\<forall>e' \<in> insert e D. restored env m t1 s1 e'"
    proof
      fix e' assume e': "e' \<in> insert e D"
      show "restored env m t1 s1 e'"
      proof (cases "e' = e")
        case False
        then have "e' \<in> D"
          using e' by simp
        then have "restored env m target st e'" "m \<longrightarrow> me_hash e' = me_hash e \<longrightarrow> me_mode e' = me_mode e"
          using Cons.prems(6,7) by simp_all
        then show ?thesis
          by (rule t1(5))
      qed (simp add: t1(4))
    qed
    show "m \<longrightarrow> (\<forall>e' \<in> insert e D \<union> set es. \<forall>e'' \<in> insert e D \<union> set es.
            me_hash e' = me_hash e'' \<longrightarrow> me_mode e' = me_mode e'')"
      using Cons.prems(7) unfolding moved .
  qed (use Cons.prems(2,3) in simp_all)
  then obtain t2 s2 where "restore_entries env now pool es (t1, s1) = Ok (t2, s2)"
    "same_contents s1 s2" "fst ` set t2 = dst ` set es \<union> fst ` set t1"
    "\<forall>e' \<in> D \<union> set (e # es). restored env m t2 s2 e'"
    unfolding moved by blast
  with t1(1-3) same_contents_trans [OF t1(2)] show ?case
    by simp
qed

lemma safe_mode_eq: "safe_mode m = m mod 1024"
proof -
  have "safe_mode m = take_bit 10 m"
    unfolding safe_mode_def by (rule bit_eqI) (auto simp: bit_simps)
  then show ?thesis
    by (simp add: take_bit_eq_mod)
qed

lemma safe_mode_get_unix_mode: "safe_mode (get_unix_mode f) = safe_mode (fd_mode f)"
proof -
  have "(32768 + fd_mode f) mod 1024 = (1024 * 32 + fd_mode f) mod 1024"
    by simp
  then show ?thesis
    by (simp only: safe_mode_eq get_unix_mode_def mod_mult_self4)
qed


section \<open>Properties of incremental snapshots\<close>

text \<open>No two different contents of the captured files and the files present at restore have
  the same digest.\<close>

definition collision_free :: "pool_env \<Rightarrow> inode_store \<Rightarrow> (string list \<times> nat) list \<Rightarrow> inode_store \<Rightarrow> bool" where
  "collision_free env st fs st2 =
     (\<forall>(p, i) \<in> set fs. \<forall>c \<in> contents st2.
        pe_digest env c = pe_digest env (fd_content (the (is_data st i))) \<longrightarrow> c = fd_content (the (is_data st i)))"

text \<open>Files with the same digest have the same mode.\<close>

definition modes_agree :: "pool_env \<Rightarrow> inode_store \<Rightarrow> (string list \<times> nat) list \<Rightarrow> bool" where
  "modes_agree env st fs =
     (\<forall>x \<in> set fs. \<forall>y \<in> set fs. me_hash (entry_for env st x) = me_hash (entry_for env st y) \<longrightarrow>
        me_mode (entry_for env st x) = me_mode (entry_for env st y))"

lemma entry_for_path:
  assumes "pool_env_ok env" "names_ok d" "pi \<in> set (files [] d)"
  shows "me_path (entry_for env st pi) = join_slash (fst pi)" "fst pi \<noteq> []"
    "\<forall>s \<in> set (fst pi). entry_name s"
  using rel_string_names [OF assms(1,2), of "fst pi" "snd pi"] assms(3)
  by (simp_all add: entry_for_def Let_def)

lemma entry_for_ok:
  assumes "pool_env_ok env" "names_ok d" "pi \<in> set (files [] d)"
  shows "normal_names (me_path (entry_for env st pi)) = fst pi" "plain_hash (me_hash (entry_for env st pi))"
    "validate_relative_path (me_path (entry_for env st pi)) = Ok ()"
    "\<not> ends_with (me_path (entry_for env st pi)) ''/''" "\<not> ends_with (me_path (entry_for env st pi)) ''/.''"
proof -
  note p = entry_for_path [OF assms]
  note j = join_slash_path [OF p(2,3)]
  show "normal_names (me_path (entry_for env st pi)) = fst pi"
    "validate_relative_path (me_path (entry_for env st pi)) = Ok ()"
    "\<not> ends_with (me_path (entry_for env st pi)) ''/''" "\<not> ends_with (me_path (entry_for env st pi)) ''/.''"
    unfolding p(1) by (rule j)+
  show "plain_hash (me_hash (entry_for env st pi))"
    using assms(1) by (simp add: entry_for_def Let_def pool_env_ok_def)
qed

text \<open>Restoring the manifest of a tree: every file is there.\<close>

lemma restore_manifest:
  assumes env: "pool_env_ok env" and names: "names_ok d" and pool: "pool_ok env (ps_pool ps) (ps_store ps)"
    and has: "\<forall>pi \<in> set (files [] d). pool_has (ps_pool ps) (me_hash (entry_for env st pi))"
    and es: "set es = entry_for env st ` set (files [] d)" "distinct (map me_path es)"
    and modes: "m \<longrightarrow> modes_agree env st (files [] d)"
  shows "\<exists>target st'. restore_entries env now (ps_pool ps) es ([], ps_store ps) = Ok (target, st') \<and>
           same_contents (ps_store ps) st' \<and> fst ` set target = fst ` set (files [] d) \<and>
           (\<forall>pi \<in> set (files [] d). restored env m target st' (entry_for env st pi))"
proof -
  let ?dst = "\<lambda>e :: manifest_entry. normal_names (me_path e)"
  note ok = entry_for_ok [OF env names]
  have dst: "?dst ` set es = fst ` set (files [] d)"
    unfolding es(1) image_image using ok(1) by (intro image_cong) auto
  have "inj_on ?dst (set es)"
  proof (rule inj_onI)
    fix x y assume x: "x \<in> set es" and y: "y \<in> set es" and eq: "?dst x = ?dst y"
    obtain a b where ab: "x = entry_for env st a" "a \<in> set (files [] d)"
      "y = entry_for env st b" "b \<in> set (files [] d)"
      using x y es(1) by auto
    have "fst a = fst b"
      using eq ok(1) ab by simp
    then have "me_path x = me_path y"
      using entry_for_path(1) [OF env names] ab by simp
    then show "x = y"
      using es(2) x y by (simp add: distinct_map inj_on_def)
  qed
  then have dist: "distinct (map ?dst es)"
    using es(2) by (simp add: distinct_map)
  have each: "\<forall>e \<in> set es. plain_hash (me_hash e) \<and> pool_has (ps_pool ps) (me_hash e) \<and>
      validate_relative_path (me_path e) = Ok () \<and> \<not> ends_with (me_path e) ''/'' \<and> \<not> ends_with (me_path e) ''/.''"
    unfolding es(1) using ok(2-5) has by blast
  have apart: "\<forall>p \<in> ?dst ` set es \<union> fst ` set ([] :: tree). \<forall>q \<in> ?dst ` set es \<union> fst ` set ([] :: tree). \<not> strict_prefix p q"
    unfolding dst using files_apart [OF names, of "[]"] by simp
  have agree: "m \<longrightarrow> (\<forall>e \<in> {} \<union> set es. \<forall>e' \<in> {} \<union> set es. me_hash e = me_hash e' \<longrightarrow> me_mode e = me_mode e')"
    using modes unfolding es(1) modes_agree_def by blast
  have "\<exists>target st'. restore_entries env now (ps_pool ps) es ([], ps_store ps) = Ok (target, st') \<and>
      same_contents (ps_store ps) st' \<and> fst ` set target = ?dst ` set es \<union> fst ` set ([] :: tree) \<and>
      (\<forall>e \<in> {} \<union> set es. restored env m target st' e)"
    by (rule restore_entries_ok [OF pool each dist _ apart _ agree]) simp_all
  then show ?thesis
    unfolding dst by (simp add: es(1))
qed


lemma distinct_map_sort_key: "distinct (map f xs) \<Longrightarrow> distinct (map f (sort_key g xs))"
  by (auto simp: distinct_map)

lemma manifest_entries:
  assumes "pool_env_ok env" "names_ok d"
  shows "set (sort_key me_path (map (entry_for env st) (files [] d))) = entry_for env st ` set (files [] d)"
    "distinct (map me_path (sort_key me_path (map (entry_for env st) (files [] d))))"
proof -
  have "map me_path (map (entry_for env st) (files [] d)) = map join_slash (map fst (files [] d))"
    using entry_for_path(1) [OF assms] by simp
  moreover have "distinct (map join_slash (map fst (files [] d)))"
  proof (rule distinct_map [THEN iffD2], rule conjI)
    show "distinct (map fst (files [] d))"
      using files_apart [OF assms(2), of "[]"] by blast
    show "inj_on join_slash (set (map fst (files [] d)))"
    proof (rule inj_onI)
      fix x y assume "x \<in> set (map fst (files [] d))" "y \<in> set (map fst (files [] d))" "join_slash x = join_slash y"
      then show "x = y"
        using entry_for_path(2,3) [OF assms] by (auto intro: join_slash_inj)
    qed
  qed
  ultimately have "distinct (map me_path (map (entry_for env st) (files [] d)))"
    by (simp only:)
  then show "distinct (map me_path (sort_key me_path (map (entry_for env st) (files [] d))))"
    by (rule distinct_map_sort_key)
qed simp



text \<open>A small environment and state: files \<open>a\<close> and \<open>s/b\<close>, an empty pool.\<close>

definition demo_env :: pool_env where
  "demo_env = \<lparr>pe_digest = (\<lambda>c. ''aa'' @ replicate (length c) CHR ''f''), pe_lossy = (\<lambda>n. n),
     pe_create_mode = 420, pe_pool_dir = ''/pool'',
     pe_host = (\<lambda>p. if p = ''/etc/shadow'' then Some (FsFile 9) else None), pe_can_link = (\<lambda>i. True)\<rparr>"

definition demo_store :: inode_store where
  "demo_store = \<lparr>is_next = 10, is_data = [0 \<mapsto> \<lparr>fd_content = ''hello'', fd_mode = 2541, fd_mtime = 5\<rparr>,
     2 \<mapsto> \<lparr>fd_content = ''x'', fd_mode = 420, fd_mtime = 6\<rparr>,
     9 \<mapsto> \<lparr>fd_content = ''root:*'', fd_mode = 384, fd_mtime = 1\<rparr>]\<rparr>"

definition demo_dir :: dir where
  "demo_dir = [(''a'', FsFile 0), (''l'', FsSymlink ''/etc''), (''s'', FsDir [(''b'', FsFile 2)])]"

definition demo_ps :: pool_state where
  "demo_ps = \<lparr>ps_pool = [], ps_store = demo_store\<rparr>"

lemma demo_env_ok: "pool_env_ok demo_env"
  by (auto simp: pool_env_ok_def demo_env_def plain_hash_def entry_name_def blob_prefix_def starts_with_iff)

lemma demo_ok:
  "pool_ok demo_env (ps_pool demo_ps) (ps_store demo_ps)" "names_ok demo_dir"
  "files_present (ps_store demo_ps) (files [] demo_dir)"
  "files [] demo_dir = [([''a''], 0), ([''s'', ''b''], 2)]"
  by (simp_all add: demo_ps_def demo_dir_def pool_ok_def store_ok_def demo_store_def entry_name_def)

lemma demo_digests:
  "me_hash (entry_for demo_env demo_store ([''a''], 0)) = ''aafffff''"
  "me_hash (entry_for demo_env demo_store ([''s'', ''b''], 2)) = ''aaf''"
  by (simp_all add: entry_for_def demo_env_def demo_store_def eval_nat_numeral)

lemma demo_create:
  assumes "create_incremental demo_env 7 ''/w'' (Some demo_dir) demo_ps = Ok (m, ps1)"
  shows "set (referenced_blobs m) = {''aafffff'', ''aaf''}"
proof -
  have "create_incremental demo_env 7 ''/w'' (Some demo_dir) demo_ps =
      Ok (\<lparr>mf_version = 2, mf_entries = sort_key me_path (map (entry_for demo_env (ps_store demo_ps)) (files [] demo_dir))\<rparr>,
          add_blobs demo_env 7 (files [] demo_dir) demo_ps)"
    unfolding create_incremental_def by (rule create_incremental_eq [OF demo_env_ok demo_ok(1,3)]) simp
  with assms show ?thesis
    by (auto simp: demo_ok(4) referenced_blobs_def demo_digests demo_ps_def)
qed

text \<open>A later state: the originals are gone, the blobs are in the pool.\<close>

definition demo_later :: pool_state where
  "demo_later = \<lparr>ps_pool = [((''aa'', ''aaf''), 11), ((''aa'', ''aafffff''), 10)],
     ps_store = \<lparr>is_next = 12, is_data = [10 \<mapsto> \<lparr>fd_content = ''hello'', fd_mode = 420, fd_mtime = 7\<rparr>,
       11 \<mapsto> \<lparr>fd_content = ''x'', fd_mode = 420, fd_mtime = 7\<rparr>]\<rparr>\<rparr>"

lemma demo_later_ok:
  "pool_ok demo_env (ps_pool demo_later) (ps_store demo_later)"
  "pool_has (ps_pool demo_later) ''aafffff''" "pool_has (ps_pool demo_later) ''aaf''"
  "contents (ps_store demo_later) = {''hello'', ''x''}"
  by (auto simp: demo_later_def pool_ok_def store_ok_def demo_env_def blob_prefix_def pool_has_def
      contents_def eval_nat_numeral)


text \<open>C27. The modification-time hint changes nothing.  If every file whose size and time still
  agree with the prior manifest also still has the recorded digest, a snapshot taken with the
  hint is the same as one that reads and hashes every file: the same manifest, the same pool.\<close>

theorem hint_equivalent:
  assumes "pool_env_ok env" "pool_ok env (ps_pool ps) (ps_store ps)"
    and "files_present (ps_store ps) (files [] d)"
    and "truthful env (ps_store ps) (build_prior_lookup prior) (files [] d)"
  shows "create_incremental_with_hint env now path (Some d) (Some prior) ps = create_incremental env now path (Some d) ps"
  unfolding create_incremental_def
  using create_incremental_eq [OF assms(1-3), of "Some prior" now path]
    create_incremental_eq [OF assms(1-3), of None now path] assms(4) by simp

definition demo_prior :: manifest where
  "demo_prior = \<lparr>mf_version = 2, mf_entries =
     [\<lparr>me_path = ''a'', me_mode = 420, me_hash = ''aafffff'', me_size = 5, me_mtime = Some 5\<rparr>,
      \<lparr>me_path = ''s/b'', me_mode = 420, me_hash = ''aaff'', me_size = 2, me_mtime = Some 3\<rparr>]\<rparr>"

theorem hint_equivalent_witness:
  "create_incremental_with_hint demo_env 7 ''/w'' (Some demo_dir) (Some demo_prior) demo_ps =
   create_incremental demo_env 7 ''/w'' (Some demo_dir) demo_ps"
proof (rule hint_equivalent [OF demo_env_ok demo_ok(1,3)])
  show "truthful demo_env (ps_store demo_ps) (build_prior_lookup demo_prior) (files [] demo_dir)"
    unfolding truthful_def demo_ok(4)
    by (simp add: demo_ps_def demo_store_def demo_env_def build_prior_lookup_def demo_prior_def
        List.map_filter_simps rel_string_def eval_nat_numeral)
qed


section \<open>Garbage collection\<close>

lemma map_of_filter_keys:
  assumes "\<And>v. P (k, v)"
  shows "map_of (filter P xs) k = map_of xs k"
  using assms by (induction xs) auto

lemma blob_at_gc:
  assumes "h \<in> set referenced" "\<not> starts_with h ''.tmp-''"
  shows "blob_at env (filter (\<lambda>b. \<not> (blob_garbage referenced b \<and> removable (fst b))) pool) h = blob_at env pool h"
proof -
  have "map_of (filter (\<lambda>b. \<not> (blob_garbage referenced b \<and> removable (fst b))) pool) (s, h) = map_of pool (s, h)" for s
    using assms by (intro map_of_filter_keys) (simp add: blob_garbage_def)
  then show ?thesis
    by (simp add: blob_at_def)
qed

lemma restore_entries_cong:
  assumes "\<And>e. e \<in> set es \<Longrightarrow> blob_at env pool (me_hash e) = blob_at env pool' (me_hash e)"
  shows "restore_entries env now pool es ts = restore_entries env now pool' es ts"
  using assms
proof (induction es arbitrary: ts)
  case (Cons e es)
  have "restore_entry env now pool e ts = restore_entry env now pool' e ts"
    using Cons.prems by (simp add: restore_entry_def)
  moreover have "restore_entries env now pool es = restore_entries env now pool' es"
    using Cons by (intro ext) simp
  ultimately show ?case
    by simp
qed simp

text \<open>C28. Garbage collection is exact and harmless.  Of the blobs that no name of \<open>referenced\<close> covers (and
  the leftover temporary files in the shards) those that can be removed go and the others stay; all of
  them are counted, with their bytes.  All other blobs and the contents of every file are kept, and the
  restore of any manifest whose hashes are referenced gives what it gave before.\<close>

theorem gc_exact:
  assumes "gc_objects_pool removable referenced ps = ((deleted, freed), ps')"
    and "\<forall>h \<in> set (referenced_blobs m). h \<in> set referenced \<and> \<not> starts_with h ''.tmp-''"
  shows "let needed = filter (\<lambda>((_, name), _). name \<in> set referenced \<and> \<not> starts_with name ''.tmp-'') (ps_pool ps);
             bytes = (\<lambda>pool. \<Sum>(_, i) \<leftarrow> pool. case is_data (ps_store ps) i of Some f \<Rightarrow> length (fd_content f) | None \<Rightarrow> 0)
         in (\<forall>b. b \<in> set (ps_pool ps') \<longleftrightarrow> b \<in> set needed \<or> b \<in> set (ps_pool ps) \<and> \<not> removable (fst b)) \<and>
            ((\<forall>b \<in> set (ps_pool ps). removable (fst b)) \<longrightarrow> ps_pool ps' = needed) \<and>
            ps_store ps' = ps_store ps \<and>
            deleted + length needed = length (ps_pool ps) \<and> freed + bytes needed = bytes (ps_pool ps) \<and>
            restore_incremental env now (Some m) ps' =
              (case restore_incremental env now (Some m) ps of
                 Inl e \<Rightarrow> Err e | Inr (target, ps1) \<Rightarrow> Ok (target, ps1\<lparr>ps_pool := ps_pool ps'\<rparr>))"
proof -
  define keep where "keep = filter (\<lambda>b. \<not> (blob_garbage referenced b \<and> removable (fst b))) (ps_pool ps)"
  let ?sz = "\<lambda>(_ :: string \<times> string, i). case is_data (ps_store ps) i of Some f \<Rightarrow> length (fd_content f) | None \<Rightarrow> 0"
  have ps': "ps' = ps\<lparr>ps_pool := keep\<rparr>" "deleted = length (filter (blob_garbage referenced) (ps_pool ps))"
    "freed = sum_list (map ?sz (filter (blob_garbage referenced) (ps_pool ps)))"
    using assms(1) by (auto simp: gc_objects_pool_def keep_def Let_def)
  have needed: "filter (\<lambda>((_, name), _). name \<in> set referenced \<and> \<not> starts_with name ''.tmp-'') (ps_pool ps) =
      filter (\<lambda>b. \<not> blob_garbage referenced b) (ps_pool ps)"
    by (rule filter_cong) (auto simp: blob_garbage_def)
  have all: "keep = filter (\<lambda>b. \<not> blob_garbage referenced b) (ps_pool ps)" if "\<forall>b \<in> set (ps_pool ps). removable (fst b)"
    unfolding keep_def using that by (auto intro: filter_cong)
  have sums: "sum_list (map f (filter P xs)) + sum_list (map f (filter (\<lambda>b. \<not> P b) xs)) = sum_list (map f xs)"
    for f :: "((string \<times> string) \<times> nat) \<Rightarrow> nat" and P xs
    by (induction xs) auto
  have restore: "restore_entries env now keep (mf_entries m) ts = restore_entries env now (ps_pool ps) (mf_entries m) ts" for ts
    unfolding keep_def using assms(2) by (intro restore_entries_cong blob_at_gc) (auto simp: referenced_blobs_def)
  have "restore_incremental env now (Some m) ps' =
      (case restore_incremental env now (Some m) ps of
         Inl e \<Rightarrow> Err e | Inr (target, ps1) \<Rightarrow> Ok (target, ps1\<lparr>ps_pool := ps_pool ps'\<rparr>))"
    by (cases "restore_entries env now (ps_pool ps) (mf_entries m) ([], ps_store ps)")
      (auto simp: ps' restore_incremental_def restore)
  moreover have "b \<in> set keep \<longleftrightarrow> b \<in> set (filter (\<lambda>b. \<not> blob_garbage referenced b) (ps_pool ps)) \<or>
      b \<in> set (ps_pool ps) \<and> \<not> removable (fst b)" for b
    by (auto simp: keep_def)
  ultimately show ?thesis
    using all sums [of ?sz "blob_garbage referenced" "ps_pool ps"] sum_length_filter_compl [of "blob_garbage referenced" "ps_pool ps"]
    unfolding Let_def needed by (simp add: ps')
qed

theorem gc_exact_witness:
  "let ps = demo_later\<lparr>ps_pool := ((''bb'', ''bbold''), 11) # ps_pool demo_later\<rparr>;
       m = \<lparr>mf_version = 2, mf_entries = [\<lparr>me_path = ''a'', me_mode = 33261, me_hash = ''aafffff'', me_size = 5, me_mtime = None\<rparr>]\<rparr>
   in \<exists>ps'. gc_objects_pool (\<lambda>_. True) [''aafffff''] ps = ((2, 2), ps') \<and> ps_pool ps' = [((''aa'', ''aafffff''), 10)] \<and>
        restore_incremental demo_env 8 (Some m) ps' =
           (case restore_incremental demo_env 8 (Some m) ps of
              Inl e \<Rightarrow> Err e | Inr (target, ps1) \<Rightarrow> Ok (target, ps1\<lparr>ps_pool := ps_pool ps'\<rparr>))"
proof -
  define ps where "ps = demo_later\<lparr>ps_pool := ((''bb'', ''bbold''), 11) # ps_pool demo_later\<rparr>"
  define m where "m = \<lparr>mf_version = 2, mf_entries =
    [\<lparr>me_path = ''a'', me_mode = 33261, me_hash = ''aafffff'', me_size = 5, me_mtime = None\<rparr>]\<rparr>"
  have g: "gc_objects_pool (\<lambda>_. True) [''aafffff''] ps = ((2, 2), ps\<lparr>ps_pool := [((''aa'', ''aafffff''), 10)]\<rparr>)"
    by (simp add: gc_objects_pool_def ps_def demo_later_def blob_garbage_def starts_with_def Let_def)
  have r: "\<forall>h \<in> set (referenced_blobs m). h \<in> set [''aafffff''] \<and> \<not> starts_with h ''.tmp-''"
    by (simp add: m_def referenced_blobs_def starts_with_def)
  show ?thesis
    unfolding ps_def [symmetric] m_def [symmetric] Let_def
    using gc_exact [OF g r, of demo_env 8, unfolded Let_def, THEN conjunct2, THEN conjunct2, THEN conjunct2, THEN conjunct2, THEN conjunct2]
      g by simp
qed

section \<open>Paths and hashes of a manifest\<close>

lemma validate_Ok_iff:
  "validate_relative_path p = Ok () \<longleftrightarrow>
     p \<noteq> '''' \<and> \<not> is_absolute p \<and> (\<exists>ns. components p = map Normal ns)"
proof -
  have "(\<forall>c \<in> set cs. case c of Normal _ \<Rightarrow> True | _ \<Rightarrow> False) \<longleftrightarrow> (\<exists>ns. cs = map Normal ns)" for cs
  proof (induction cs)
    case (Cons c cs)
    then show ?case
      by (cases c) (auto simp: Cons_eq_map_conv)
  qed simp
  then show ?thesis
    by (auto simp: validate_relative_path_def)
qed

lemma components_Normal_names: "Normal s \<in> set (components p) \<Longrightarrow> entry_name s"
  using split_on_no_sep [of s "CHR ''/''" p]
  by (auto simp: components_def seg_component_def entry_name_def Let_def split: if_splits)

text \<open>C29. A manifest path cannot leave the target directory.  A path that passes the check, joined
  to any base directory, resolves to a place strictly below that directory: the names of the
  base followed by at least one further name, none of them \<open>..\<close>, empty or with a slash.
  Rejected is exactly what is empty, absolute, or has a \<open>..\<close> or leading \<open>.\<close> component.\<close>

theorem validate_confines:
  "(validate_relative_path p = Ok () \<longrightarrow>
     (\<exists>ns. ns \<noteq> [] \<and> normal_names p = ns \<and> (\<forall>s \<in> set ns. entry_name s) \<and>
           resolve_path (path_join base p) = resolve_path base @ ns)) \<and>
   ((\<exists>e. validate_relative_path p = Err e) \<longleftrightarrow>
      p = '''' \<or> is_absolute p \<or> ParentDir \<in> set (components p) \<or> CurDir \<in> set (components p))"
proof (intro conjI impI)
  assume "validate_relative_path p = Ok ()"
  then obtain ns where p: "p \<noteq> ''''" "\<not> is_absolute p" and ns: "components p = map Normal ns"
    unfolding validate_Ok_iff by blast
  have hd: "hd (split_on CHR ''/'' p) \<noteq> ''''"
    using p starts_slash_hd [of p] by (simp add: is_absolute_def)
  have dot: "hd (split_on CHR ''/'' p) \<noteq> ''.''"
  proof
    assume "hd (split_on CHR ''/'' p) = ''.''"
    then have "CurDir \<in> set (components p)"
      using p by (simp add: components_def Let_def is_absolute_def)
    then show False
      using ns by auto
  qed
  have "components p \<noteq> []"
  proof -
    have "hd (split_on CHR ''/'' p) \<in> set (filter (\<lambda>s. s \<noteq> '''' \<and> s \<noteq> ''.'') (split_on CHR ''/'' p))"
      using hd dot by simp
    then have "filter (\<lambda>s. s \<noteq> '''' \<and> s \<noteq> ''.'') (split_on CHR ''/'' p) \<noteq> []"
      by (rule list.set_cases) simp_all
    then show ?thesis
      unfolding components_def Let_def by simp
  qed
  then have "ns \<noteq> []"
    using ns by simp
  moreover have "normal_names p = ns"
    unfolding normal_names_def ns by (rule map_filter_Normal)
  moreover have "\<forall>s \<in> set ns. entry_name s"
    using components_Normal_names [of _ p] ns by auto
  moreover have "resolve_path (path_join base p) = resolve_path base @ ns"
    by (simp add: resolve_path_def components_path_join [OF p(2) dot] walk_up_append ns walk_up_normal)
  ultimately show "\<exists>ns. ns \<noteq> [] \<and> normal_names p = ns \<and> (\<forall>s \<in> set ns. entry_name s) \<and>
      resolve_path (path_join base p) = resolve_path base @ ns"
    by blast
next
  have root: "RootDir \<in> set (components p) \<Longrightarrow> is_absolute p"
    by (auto simp: components_def seg_component_def is_absolute_def Let_def split: if_splits)
  have "(\<forall>c \<in> set cs. case c of Normal _ \<Rightarrow> True | _ \<Rightarrow> False) \<longleftrightarrow>
      RootDir \<notin> set cs \<and> CurDir \<notin> set cs \<and> ParentDir \<notin> set cs" for cs
  proof (induction cs)
    case (Cons c cs)
    then show ?case
      by (cases c) auto
  qed simp
  with root show "(\<exists>e. validate_relative_path p = Err e) \<longleftrightarrow>
      p = '''' \<or> is_absolute p \<or> ParentDir \<in> set (components p) \<or> CurDir \<in> set (components p)"
    by (auto simp: validate_relative_path_def)
qed

theorem validate_confines_witness:
  "resolve_path (path_join ''/ws/out'' ''src/main.rs'') = [''ws'', ''out'', ''src'', ''main.rs''] \<and>
   (\<exists>e. validate_relative_path ''a/../../etc'' = Err e)"
proof -
  have "validate_relative_path ''src/main.rs'' = Ok ()" "normal_names ''src/main.rs'' = [''src'', ''main.rs'']"
    "resolve_path ''/ws/out'' = [''ws'', ''out'']" "ParentDir \<in> set (components ''a/../../etc'')"
    by (code_simp)+
  then show ?thesis
    using validate_confines [of "''src/main.rs''" "''/ws/out''"] validate_confines [of "''a/../../etc''"] by auto
qed

text \<open>The hash of a manifest entry is not checked.  For an entry whose hash is the absolute path
  of any regular file of the host, restoring does not look into the pool: the file itself is
  placed into the target, as a link where that is possible.\<close>

theorem hash_escapes_pool:
  assumes "is_absolute (me_hash e)" "pe_host env (me_hash e) = Some (FsFile i)"
    and "is_data (ps_store ps) i = Some f"
    and "validate_relative_path (me_path e) = Ok ()"
    and "\<not> ends_with (me_path e) ''/''" "\<not> ends_with (me_path e) ''/.''"
  shows "\<exists>j ps' f'. restore_incremental env now (Some \<lparr>mf_version = v, mf_entries = [e]\<rparr>) ps =
           Ok ([(normal_names (me_path e), j)], ps') \<and>
         is_data (ps_store ps') j = Some f' \<and> fd_content f' = fd_content f \<and> (pe_can_link env i \<longrightarrow> j = i)"
proof -
  have "CHR ''/'' \<in> set (me_hash e)"
    using assms(1) by (auto simp: is_absolute_def starts_with_iff)
  then have "blob_at env pool (me_hash e) = Some (FsFile i)" for pool
    using assms(1,2) by (simp add: blob_at_def plain_hash_def entry_name_def blob_path_def path_join_def)
  then show ?thesis
    using assms(3-)
    by (cases "pe_can_link env i")
      (auto simp: restore_incremental_def restore_entry_def path_blocked_def alloc_def set_unix_mode_def Let_def)
qed

theorem hash_escapes_pool_witness:
  "\<exists>ps'. restore_incremental demo_env 8
       (Some \<lparr>mf_version = 2, mf_entries = [\<lparr>me_path = ''x'', me_mode = 420, me_hash = ''/etc/shadow'', me_size = 0, me_mtime = None\<rparr>]\<rparr>)
       demo_ps = Ok ([([''x''], 9)], ps')"
proof -
  let ?e = "\<lparr>me_path = ''x'', me_mode = 420, me_hash = ''/etc/shadow'', me_size = 0, me_mtime = None\<rparr>"
  have "is_absolute (me_hash ?e)" "pe_host demo_env (me_hash ?e) = Some (FsFile 9)"
    "is_data (ps_store demo_ps) 9 = Some \<lparr>fd_content = ''root:*'', fd_mode = 384, fd_mtime = 1\<rparr>"
    "validate_relative_path (me_path ?e) = Ok ()" "\<not> ends_with (me_path ?e) ''/''" "\<not> ends_with (me_path ?e) ''/.''"
    by (simp_all add: is_absolute_def starts_with_def demo_env_def demo_ps_def demo_store_def
        validate_relative_path_def components_def seg_component_def ends_with_def strip_suffix_def)
  from hash_escapes_pool [OF this, where now = 8 and v = 2] show ?thesis
    by (auto simp: demo_env_def normal_names_def components_def seg_component_def starts_with_def List.map_filter_simps)
qed

text \<open>A program in the jail overwriting a file in place, through any of its links.\<close>

definition write_in_place :: "nat \<Rightarrow> string \<Rightarrow> pool_state \<Rightarrow> pool_state" where
  "write_in_place i c ps =
     ps\<lparr>ps_store := (ps_store ps)\<lparr>is_data := (is_data (ps_store ps))(i := map_option (\<lambda>f. f\<lparr>fd_content := c\<rparr>) (is_data (ps_store ps) i))\<rparr>\<rparr>"

text \<open>A restored file shares its contents with the pool.  When the blob can be hard-linked,
  the restored file is the blob: whatever is written to it in place becomes the blob's
  contents, so the pool no longer stores the blob under its digest, and the next restore of
  the same snapshot gives the new contents.\<close>

theorem restored_file_writes_pool:
  assumes "plain_hash (me_hash e)" "map_of (ps_pool ps) (blob_prefix (me_hash e), me_hash e) = Some i"
    and "pe_can_link env i" "is_data (ps_store ps) i = Some f"
    and "validate_relative_path (me_path e) = Ok ()"
    and "\<not> ends_with (me_path e) ''/''" "\<not> ends_with (me_path e) ''/.''"
    and "pe_digest env c \<noteq> me_hash e"
  shows "\<exists>ps1 ps2 f2. restore_incremental env now (Some \<lparr>mf_version = v, mf_entries = [e]\<rparr>) ps =
            Ok ([(normal_names (me_path e), i)], ps1) \<and>
          \<not> pool_ok env (ps_pool (write_in_place i c ps1)) (ps_store (write_in_place i c ps1)) \<and>
          restore_incremental env now' (Some \<lparr>mf_version = v, mf_entries = [e]\<rparr>) (write_in_place i c ps1) =
            Ok ([(normal_names (me_path e), i)], ps2) \<and>
          is_data (ps_store ps2) i = Some f2 \<and> fd_content f2 = c"
proof -
  have "((blob_prefix (me_hash e), me_hash e), i) \<in> set (ps_pool ps)"
    using assms(2) by (rule map_of_SomeD)
  note blob = this
  let ?link = "\<lambda>ps. ps\<lparr>ps_store := set_unix_mode i (me_mode e) (ps_store ps)\<rparr>"
  have link: "restore_incremental env t (Some \<lparr>mf_version = v, mf_entries = [e]\<rparr>) ps' =
      Ok ([(normal_names (me_path e), i)], ?link ps')"
    if "ps_pool ps' = ps_pool ps" "is_data (ps_store ps') i = Some g" for t ps' g
    using that assms(1-3,5-7)
    by (simp add: restore_incremental_def restore_entry_def blob_at_def path_blocked_def Let_def)
  let ?ps2 = "write_in_place i c (?link ps)"
  obtain g where g: "is_data (ps_store ?ps2) i = Some g" "fd_content g = c"
    using assms(4) by (simp add: write_in_place_def set_unix_mode_def)
  have pool: "ps_pool ?ps2 = ps_pool ps"
    by (simp add: write_in_place_def)
  have broken: "\<not> pool_ok env (ps_pool ?ps2) (ps_store ?ps2)"
    using pool_okD [OF _ blob, of env "ps_store ?ps2"] g assms(8) unfolding pool by auto
  have again: "is_data (ps_store (?link ?ps2)) i = Some (g\<lparr>fd_mode := safe_mode (me_mode e)\<rparr>)"
    using g by (simp add: set_unix_mode_def)
  have "fd_content (g\<lparr>fd_mode := safe_mode (me_mode e)\<rparr>) = c"
    using g(2) by simp
  with link [OF refl assms(4), of now] broken link [OF pool g(1), of now'] again show ?thesis
    by blast
qed

theorem restored_file_writes_pool_witness:
  "let m = \<lparr>mf_version = 2, mf_entries = [\<lparr>me_path = ''a'', me_mode = 33188, me_hash = ''aafffff'', me_size = 5, me_mtime = None\<rparr>]\<rparr>
   in \<exists>ps1 ps2 f2. restore_incremental demo_env 8 (Some m) demo_later = Ok ([([''a''], 10)], ps1) \<and>
        restore_incremental demo_env 9 (Some m) (write_in_place 10 ''evil'' ps1) = Ok ([([''a''], 10)], ps2) \<and>
        is_data (ps_store ps2) 10 = Some f2 \<and> fd_content f2 = ''evil''"
proof -
  let ?e = "\<lparr>me_path = ''a'', me_mode = 33188, me_hash = ''aafffff'', me_size = 5, me_mtime = None\<rparr>"
  have "plain_hash (me_hash ?e)" "map_of (ps_pool demo_later) (blob_prefix (me_hash ?e), me_hash ?e) = Some 10"
    "pe_can_link demo_env 10" "is_data (ps_store demo_later) 10 = Some \<lparr>fd_content = ''hello'', fd_mode = 420, fd_mtime = 7\<rparr>"
    "validate_relative_path (me_path ?e) = Ok ()" "\<not> ends_with (me_path ?e) ''/''" "\<not> ends_with (me_path ?e) ''/.''"
    "pe_digest demo_env ''evil'' \<noteq> me_hash ?e"
    by (simp_all add: plain_hash_def entry_name_def blob_prefix_def demo_later_def demo_env_def is_absolute_def
        starts_with_def validate_relative_path_def components_def seg_component_def ends_with_def strip_suffix_def)
  from restored_file_writes_pool [OF this, where now = 8 and now' = 9 and v = 2] show ?thesis
    by (auto simp: normal_names_def components_def seg_component_def starts_with_def List.map_filter_simps)
qed

end
