(* ===== verification/Cgroup.thy ===== *)
theory Cgroup
  imports Jail_Config Snapshot_Tree
begin

text \<open>
  Control groups: the limits and readings of \<open>agentjail/src/cgroup.rs\<close>, the limits a
  spawn sets (\<open>Jail::create_cgroup\<close> in \<open>agentjail/src/run.rs\<close>), and freezing around a copy
  (\<open>snapshot_frozen\<close> in \<open>agentjail/src/snapshot.rs\<close>, \<open>Jail::live_fork\<close> in \<open>run.rs\<close>).

  The directory of a group is seen through the kernel: what a write answers is the argument
  \<open>wr\<close> (an error message or success), and the state keeps the writes that were made, in
  order.  Unsigned 64-bit arithmetic is on \<open>64 word\<close>, with the wrap-around of a release
  build.
\<close>

section \<open>Numbers\<close>

definition U64_MAX :: nat where
  "U64_MAX = 2 ^ 64 - 1"

definition parse_u64 :: "string \<Rightarrow> nat option" where
  "parse_u64 s = parse_unsigned U64_MAX s"

definition show_u64 :: "64 word \<Rightarrow> string" where
  "show_u64 w = show_nat (unat w)"

section \<open>Writing limits\<close>

type_synonym cg_writes = "(string \<times> string) list"
type_synonym cg_kernel = "string \<Rightarrow> string \<Rightarrow> string option"

definition cg_write :: "cg_kernel \<Rightarrow> string \<Rightarrow> string \<Rightarrow> cg_writes \<Rightarrow> (jail_error, cg_writes) result" where
  "cg_write wr file value ws =
     (case wr file value of Some e \<Rightarrow> Err (CgroupError e) | None \<Rightarrow> Ok (ws @ [(file, value)]))"

definition set_memory_limit :: "cg_kernel \<Rightarrow> 64 word \<Rightarrow> cg_writes \<Rightarrow> (jail_error, cg_writes) result" where
  "set_memory_limit wr bytes = cg_write wr ''memory.max'' (show_u64 bytes)"

definition cpu_quota :: "64 word \<Rightarrow> 64 word" where
  "cpu_quota percent = (let period = 100000 in (period * percent) div 100)"

definition set_cpu_quota :: "cg_kernel \<Rightarrow> 64 word \<Rightarrow> cg_writes \<Rightarrow> (jail_error, cg_writes) result" where
  "set_cpu_quota wr percent = cg_write wr ''cpu.max'' (show_u64 (cpu_quota percent) @ '' '' @ show_u64 100000)"

definition set_pids_max :: "cg_kernel \<Rightarrow> 64 word \<Rightarrow> cg_writes \<Rightarrow> (jail_error, cg_writes) result" where
  "set_pids_max wr mx = cg_write wr ''pids.max'' (show_u64 mx)"

definition add_pid :: "cg_kernel \<Rightarrow> nat \<Rightarrow> cg_writes \<Rightarrow> (jail_error, cg_writes) result" where
  "add_pid wr pid = cg_write wr ''cgroup.procs'' (show_nat pid)"

text \<open>The device numbers of a path come from \<open>stat\<close>: \<open>dev\<close>.\<close>

definition set_io_limit ::
  "cg_kernel \<Rightarrow> (string \<Rightarrow> (string, nat \<times> nat) result) \<Rightarrow> string \<Rightarrow> 64 word \<Rightarrow> 64 word \<Rightarrow> cg_writes
   \<Rightarrow> (jail_error, cg_writes) result" where
  "set_io_limit wr dev device read_bps write_bps ws =
     (case dev device of
        Inl e \<Rightarrow> Err (CgroupError e)
      | Inr (major, minor) \<Rightarrow>
          cg_write wr ''io.max''
            (show_nat major @ '':'' @ show_nat minor @ '' rbps='' @ show_u64 read_bps @ '' wbps='' @ show_u64 write_bps) ws)"

text \<open>\<open>Jail::create_cgroup\<close>: \<open>None\<close> when no limit is set; \<open>created\<close> is the outcome of making
  the directory.  A failing I/O limit is only reported, as is an output path that is not
  UTF-8.\<close>

definition u64 :: "nat \<Rightarrow> 64 word" where
  "u64 n = of_nat n"

definition has_limits :: "jail_config \<Rightarrow> bool" where
  "has_limits config = (jc_memory_mb config > 0 \<or> jc_cpu_percent config > 0 \<or> jc_max_pids config > 0 \<or>
     jc_io_read_mbps config > 0 \<or> jc_io_write_mbps config > 0)"

definition create_cgroup ::
  "(jail_error, unit) result \<Rightarrow> cg_kernel \<Rightarrow> (string \<Rightarrow> (string, nat \<times> nat) result) \<Rightarrow> jail_config
   \<Rightarrow> (jail_error, cg_writes option) result" where
  "create_cgroup created wr dev config =
    (if \<not> has_limits config then Ok None
     else
       and_then created (\<lambda>_.
       and_then (if jc_memory_mb config > 0
                 then set_memory_limit wr (u64 (jc_memory_mb config) * 1024 * 1024) [] else Ok []) (\<lambda>ws.
       and_then (if jc_cpu_percent config > 0
                 then set_cpu_quota wr (u64 (jc_cpu_percent config)) ws else Ok ws) (\<lambda>ws.
       and_then (if jc_max_pids config > 0
                 then set_pids_max wr (u64 (jc_max_pids config)) ws else Ok ws) (\<lambda>ws.
         Ok (Some
           (if jc_io_read_mbps config > 0 \<or> jc_io_write_mbps config > 0
            then (let read_bps = u64 (jc_io_read_mbps config) * 1024 * 1024;
                      write_bps = u64 (jc_io_write_mbps config) * 1024 * 1024
                  in if utf8_valid (jc_output config)
                     then (case set_io_limit wr dev (jc_output config) read_bps write_bps ws of
                             Inl e \<Rightarrow> ws | Inr ws' \<Rightarrow> ws')
                     else ws)
            else ws)))))))"

section \<open>Reading statistics\<close>

text \<open>The contents of a file of the group, when it can be read.\<close>

type_synonym cg_files = "string \<rightharpoonup> string"

definition read_number :: "cg_files \<Rightarrow> string \<Rightarrow> nat option" where
  "read_number files name = (case files name of Some s \<Rightarrow> parse_u64 (trim s) | None \<Rightarrow> None)"

definition memory_peak :: "cg_files \<Rightarrow> nat option" where
  "memory_peak files = read_number files ''memory.peak''"

definition memory_current :: "cg_files \<Rightarrow> nat option" where
  "memory_current files = read_number files ''memory.current''"

definition pids_current :: "cg_files \<Rightarrow> nat option" where
  "pids_current files = read_number files ''pids.current''"

fun usage_line :: "string list \<Rightarrow> nat option" where
  "usage_line [] = None"
| "usage_line (l # ls) =
     (case strip_prefix ''usage_usec '' l of
        Some v \<Rightarrow> parse_u64 (trim v)
      | None \<Rightarrow> usage_line ls)"

definition cpu_usage_usec :: "cg_files \<Rightarrow> nat option" where
  "cpu_usage_usec files = (case files ''cpu.stat'' of Some s \<Rightarrow> usage_line (str_lines s) | None \<Rightarrow> None)"

fun oom_line :: "string list \<Rightarrow> bool" where
  "oom_line [] = False"
| "oom_line (l # ls) =
     (case strip_prefix ''oom_kill '' l of
        Some v \<Rightarrow> (case parse_u64 (trim v) of Some n \<Rightarrow> 0 < n | None \<Rightarrow> oom_line ls)
      | None \<Rightarrow> oom_line ls)"

definition oom_killed :: "cg_files \<Rightarrow> bool" where
  "oom_killed files = (case files ''memory.events'' of Some s \<Rightarrow> oom_line (str_lines s) | None \<Rightarrow> False)"

record io_totals =
  io_rbytes :: "64 word"
  io_wbytes :: "64 word"
  io_rios :: "64 word"
  io_wios :: "64 word"

definition io_zero :: io_totals where
  "io_zero = \<lparr>io_rbytes = 0, io_wbytes = 0, io_rios = 0, io_wios = 0\<rparr>"

definition num_or_0 :: "string \<Rightarrow> 64 word" where
  "num_or_0 v = (case parse_u64 v of Some n \<Rightarrow> of_nat n | None \<Rightarrow> 0)"

definition io_part :: "io_totals \<Rightarrow> string \<Rightarrow> io_totals" where
  "io_part t part =
     (case strip_prefix ''rbytes='' part of
        Some v \<Rightarrow> t\<lparr>io_rbytes := io_rbytes t + num_or_0 v\<rparr>
      | None \<Rightarrow>
     (case strip_prefix ''wbytes='' part of
        Some v \<Rightarrow> t\<lparr>io_wbytes := io_wbytes t + num_or_0 v\<rparr>
      | None \<Rightarrow>
     (case strip_prefix ''rios='' part of
        Some v \<Rightarrow> t\<lparr>io_rios := io_rios t + num_or_0 v\<rparr>
      | None \<Rightarrow>
     (case strip_prefix ''wios='' part of
        Some v \<Rightarrow> t\<lparr>io_wios := io_wios t + num_or_0 v\<rparr>
      | None \<Rightarrow> t))))"

definition io_stats :: "cg_files \<Rightarrow> io_totals option" where
  "io_stats files =
     map_option (\<lambda>stat. foldl (\<lambda>t line. foldl io_part t (drop 1 (split_whitespace line))) io_zero (str_lines stat))
       (files ''io.stat'')"

record resource_stats =
  rs_memory_peak :: nat
  rs_memory_current :: nat
  rs_cpu_usage :: nat
  rs_oom_killed :: bool
  rs_io_read :: "64 word"
  rs_io_write :: "64 word"
  rs_pids :: nat

definition or_zero :: "nat option \<Rightarrow> nat" where
  "or_zero x = (case x of Some n \<Rightarrow> n | None \<Rightarrow> 0)"

definition collect_stats :: "cg_files option \<Rightarrow> resource_stats option" where
  "collect_stats cg =
     map_option (\<lambda>files.
       (let io = (case io_stats files of Some t \<Rightarrow> t | None \<Rightarrow> io_zero)
        in \<lparr>rs_memory_peak = or_zero (memory_peak files), rs_memory_current = or_zero (memory_current files),
            rs_cpu_usage = or_zero (cpu_usage_usec files), rs_oom_killed = oom_killed files,
            rs_io_read = io_rbytes io, rs_io_write = io_wbytes io,
            rs_pids = or_zero (pids_current files)\<rparr>)) cg"


section \<open>Freezing\<close>

text \<open>Time in microseconds from the start of the wait.  \<open>events\<close> is what \<open>cgroup.events\<close>
  reads at a time, \<open>over\<close> by how much a sleep that begins at a time takes longer than asked
  for.  The pause before poll \<open>n + 1\<close> is \<open>backoff_us n\<close>.\<close>

primrec backoff_us :: "nat \<Rightarrow> nat" where
  "backoff_us 0 = 100"
| "backoff_us (Suc n) = min (backoff_us n * 2) 1600"

lemma backoff_bounds: "100 \<le> backoff_us n \<and> backoff_us n \<le> 1600"
  by (induction n) auto

definition reports_frozen :: "string option \<Rightarrow> bool" where
  "reports_frozen contents = (case contents of Some s \<Rightarrow> ''frozen 1'' \<in> set (str_lines s) | None \<Rightarrow> False)"

function wait_for_frozen ::
  "(nat \<Rightarrow> string option) \<Rightarrow> (nat \<Rightarrow> nat) \<Rightarrow> nat \<Rightarrow> nat \<Rightarrow> nat \<Rightarrow> (jail_error, unit) result \<times> nat" where
  "wait_for_frozen events over deadline t n =
     (if reports_frozen (events t) then (Ok (), t)
      else if deadline \<le> t then (Err (CgroupError ''cgroup did not freeze''), t)
      else wait_for_frozen events over deadline (t + backoff_us n + over t) (Suc n))"
  by pat_completeness auto
termination
proof (relation "measure (\<lambda>(events, over, deadline, t, n). deadline - t)", goal_cases)
  case (2 events over deadline t n)
  then show ?case
    using backoff_bounds [of n] by (auto intro!: diff_less_mono2)
qed simp

declare wait_for_frozen.simps [simp del]

definition FREEZE_DEADLINE_US :: nat where
  "FREEZE_DEADLINE_US = 50000"

definition freeze_cgroup ::
  "cg_kernel \<Rightarrow> (nat \<Rightarrow> string option) \<Rightarrow> (nat \<Rightarrow> nat) \<Rightarrow> cg_writes \<Rightarrow> (jail_error, unit) result \<times> cg_writes" where
  "freeze_cgroup wr events over ws =
     (case cg_write wr ''cgroup.freeze'' ''1'' ws of
        Inl e \<Rightarrow> (Err e, ws)
      | Inr ws \<Rightarrow> (fst (wait_for_frozen events over FREEZE_DEADLINE_US 0 0), ws))"

definition thaw_cgroup :: "cg_kernel \<Rightarrow> cg_writes \<Rightarrow> (jail_error, unit) result \<times> cg_writes" where
  "thaw_cgroup wr ws =
     (case cg_write wr ''cgroup.freeze'' ''0'' ws of Inl e \<Rightarrow> (Err e, ws) | Inr ws \<Rightarrow> (Ok (), ws))"

text \<open>\<open>snapshot_frozen\<close>: \<open>cgroup\<close> says whether a cgroup path is given.\<close>

definition snapshot_frozen ::
  "cg_kernel \<Rightarrow> (nat \<Rightarrow> string option) \<Rightarrow> (nat \<Rightarrow> nat) \<Rightarrow> bool \<Rightarrow> nat \<Rightarrow> string \<Rightarrow> dir option \<Rightarrow> inode_store
   \<Rightarrow> cg_writes \<Rightarrow> (jail_error, dir \<times> inode_store) result \<times> cg_writes" where
  "snapshot_frozen wr events over cgroup now path output_dir st ws =
     (let (frozen, ws) =
        (if cgroup
         then (case freeze_cgroup wr events over ws of
                 (Inr _, ws) \<Rightarrow> (True, ws)
               | (Inl e, ws) \<Rightarrow> (False, ws))
         else (False, ws));
          out = snapshot_create now path output_dir st;
          ws = (if frozen then snd (thaw_cgroup wr ws) else ws)
      in (out, ws))"

text \<open>\<open>JailHandle::freeze\<close> and \<open>thaw\<close>: nothing to do without a cgroup.\<close>

definition handle_freeze ::
  "cg_kernel \<Rightarrow> (nat \<Rightarrow> string option) \<Rightarrow> (nat \<Rightarrow> nat) \<Rightarrow> cg_writes option \<Rightarrow> (jail_error, unit) result \<times> cg_writes option" where
  "handle_freeze wr events over cg =
     (case cg of
        Some ws \<Rightarrow> (case freeze_cgroup wr events over ws of (r, ws) \<Rightarrow> (r, Some ws))
      | None \<Rightarrow> (Ok (), None))"

definition handle_thaw :: "cg_kernel \<Rightarrow> cg_writes option \<Rightarrow> (jail_error, unit) result \<times> cg_writes option" where
  "handle_thaw wr cg =
     (case cg of
        Some ws \<Rightarrow> (case thaw_cgroup wr ws of (r, ws) \<Rightarrow> (r, Some ws))
      | None \<Rightarrow> (Ok (), None))"

text \<open>\<open>Jail::live_fork\<close>: \<open>running\<close> is the handle's cgroup, when a handle is given.  The forked
  jail has the configuration of the original with the new output directory.\<close>

definition live_fork ::
  "cg_kernel \<Rightarrow> (nat \<Rightarrow> string option) \<Rightarrow> (nat \<Rightarrow> nat) \<Rightarrow> (nat \<Rightarrow> bool) \<Rightarrow> nat \<Rightarrow> jail_config \<Rightarrow> cg_writes option option
   \<Rightarrow> string \<Rightarrow> dir option \<Rightarrow> inode_store
   \<Rightarrow> (jail_error, jail_config \<times> fork_info \<times> dir \<times> inode_store) result \<times> cg_writes option option" where
  "live_fork wr events over reflink now config running fork_output tree st =
     (let (frozen, running) =
        (case running of
           Some cg \<Rightarrow> (case handle_freeze wr events over cg of (r, cg) \<Rightarrow> (r = Ok (), Some cg))
         | None \<Rightarrow> (False, None));
          clone_result = cow_clone reflink now (jc_output config) tree st;
          running = (if frozen then map_option (\<lambda>cg. snd (handle_thaw wr cg)) running else running)
      in (and_then clone_result (\<lambda>(info, d, st).
            Ok (config\<lparr>jc_output := fork_output\<rparr>, info\<lparr>fi_was_frozen := frozen\<rparr>, d, st)), running))"

definition freeze_requests :: "cg_writes \<Rightarrow> string list" where
  "freeze_requests ws = map snd (filter (\<lambda>w. fst w = ''cgroup.freeze'') ws)"

section \<open>Properties\<close>

lemma wait_result:
  "wait_for_frozen events over deadline t n = (r, u) \<Longrightarrow>
     t \<le> u \<and> (r = Ok () \<longrightarrow> reports_frozen (events u)) \<and>
     (r \<noteq> Ok () \<longrightarrow> deadline \<le> u \<and> \<not> reports_frozen (events u)) \<and>
     ((\<forall>s. over s \<le> jitter) \<longrightarrow> u < max (t + 1) (deadline + 1600 + jitter))"
proof (induction events over deadline t n arbitrary: r u rule: wait_for_frozen.induct)
  case (1 events over deadline t n)
  show ?case
  proof (cases "reports_frozen (events t) \<or> deadline \<le> t")
    case True
    then show ?thesis
      using "1.prems" by (auto simp: wait_for_frozen.simps split: if_splits)
  next
    case False
    then have "wait_for_frozen events over deadline (t + backoff_us n + over t) (Suc n) = (r, u)"
      using "1.prems" by (simp add: wait_for_frozen.simps [of events over deadline t n])
    from "1.IH" [OF _ _ this] False
    have IH: "t + backoff_us n + over t \<le> u" "r = Ok () \<longrightarrow> reports_frozen (events u)"
      "r \<noteq> Ok () \<longrightarrow> deadline \<le> u \<and> \<not> reports_frozen (events u)"
      "(\<forall>s. over s \<le> jitter) \<longrightarrow> u < max (t + backoff_us n + over t + 1) (deadline + 1600 + jitter)"
      by auto
    have "u < deadline + 1600 + jitter" if "\<forall>s. over s \<le> jitter"
    proof -
      have "over t \<le> jitter" "t < deadline" "backoff_us n \<le> 1600"
        using that False backoff_bounds [of n] by auto
      then have "t + backoff_us n + over t + 1 \<le> deadline + 1600 + jitter"
        by simp
      with IH(4) that show ?thesis
        by simp
    qed
    with IH show ?thesis
      by auto
  qed
qed

lemma wait_live:
  assumes "\<forall>s \<ge> t0. reports_frozen (events s)" "t0 \<le> deadline"
  shows "wait_for_frozen events over deadline t n = (r, u) \<Longrightarrow>
     r = Ok () \<and> ((\<forall>s. over s \<le> jitter) \<longrightarrow> u \<le> max t (t0 + 1600 + jitter))"
  using assms
proof (induction events over deadline t n arbitrary: r u rule: wait_for_frozen.induct)
  case (1 events over deadline t n)
  show ?case
  proof (cases "reports_frozen (events t)")
    case True
    then show ?thesis
      using "1.prems"(1) by (auto simp: wait_for_frozen.simps)
  next
    case False
    then have t: "t < t0"
      using "1.prems"(2) not_le_imp_less by blast
    with False have "wait_for_frozen events over deadline (t + backoff_us n + over t) (Suc n) = (r, u)"
      using "1.prems"(1,3) by (simp add: wait_for_frozen.simps [of events over deadline t n])
    from "1.IH" [OF False _ this] t "1.prems"
    have IH: "r = Ok ()" "(\<forall>s. over s \<le> jitter) \<longrightarrow> u \<le> max (t + backoff_us n + over t) (t0 + 1600 + jitter)"
      by auto
    have "u \<le> t0 + 1600 + jitter" if "\<forall>s. over s \<le> jitter"
    proof -
      have "over t \<le> jitter" "backoff_us n \<le> 1600"
        using that backoff_bounds [of n] by auto
      then have "t + backoff_us n + over t \<le> t0 + 1600 + jitter"
        using t by simp
      with IH(2) that show ?thesis
        by simp
    qed
    with IH show ?thesis
      by auto
  qed
qed

text \<open>Waiting for a freeze ends, in bounded time, with the right answer.  When no sleep takes
  more than \<open>jitter\<close> longer than asked for, the wait ends before deadline plus 1.6 ms plus
  \<open>jitter\<close>; success means the group reported \<open>frozen 1\<close> at that time, failure that the deadline
  has passed; and a group that reports \<open>frozen 1\<close> from some time up to the deadline on is
  always recognised, at most 1.6 ms plus \<open>jitter\<close> later.\<close>

theorem freeze_wait_bounded:
  assumes "wait_for_frozen events over deadline 0 0 = (r, u)" "\<forall>s. over s \<le> jitter"
  shows "u < max 1 (deadline + 1600 + jitter) \<and>
         (r = Ok () \<longleftrightarrow> reports_frozen (events u)) \<and> (r \<noteq> Ok () \<longrightarrow> deadline \<le> u) \<and>
         (\<forall>t0 \<le> deadline. (\<forall>s \<ge> t0. reports_frozen (events s)) \<longrightarrow> r = Ok () \<and> u \<le> t0 + 1600 + jitter)"
  using wait_result [OF assms(1), of jitter] wait_live [OF _ _ assms(1), of _ jitter] assms(2) by auto

definition demo_events :: "nat \<Rightarrow> string option" where
  "demo_events t = Some (if 250 \<le> t then ''populated 1'' @ [CHR 0x0A] @ ''frozen 1'' @ [CHR 0x0A]
                         else ''populated 1'' @ [CHR 0x0A] @ ''frozen 0'' @ [CHR 0x0A])"

lemma demo_events_frozen: "reports_frozen (demo_events t) \<longleftrightarrow> 250 \<le> t"
  by (simp add: reports_frozen_def demo_events_def str_lines_def strip_cr_def Let_def)

theorem freeze_wait_bounded_witness:
  "wait_for_frozen demo_events (\<lambda>_. 10) 50000 0 0 = (Ok (), 320) \<and>
   (320 :: nat) < max 1 (50000 + 1600 + 10) \<and> reports_frozen (demo_events 320)"
proof -
  have w: "wait_for_frozen demo_events (\<lambda>_. 10) 50000 0 0 = (Ok (), 320)"
    by (simp add: wait_for_frozen.simps demo_events_frozen)
  show ?thesis
    using w freeze_wait_bounded [OF w, of 10] by simp
qed

text \<open>C31. A snapshot taken around a freeze thaws the group exactly when the freeze was seen.
  With a kernel that accepts the requests the snapshot is that of \<open>Snapshot::create\<close>, whatever
  it gives; the last request is to thaw if the group reported the freeze in time, and if it
  did not, the request to freeze stands and nothing takes it back.\<close>

theorem snapshot_frozen_thaws:
  assumes "wr ''cgroup.freeze'' ''1'' = None" "wr ''cgroup.freeze'' ''0'' = None"
  shows "fst (snapshot_frozen wr events over True now path d st ws) = snapshot_create now path d st \<and>
         freeze_requests (snd (snapshot_frozen wr events over True now path d st ws)) =
           freeze_requests ws @
             (if fst (wait_for_frozen events over FREEZE_DEADLINE_US 0 0) = Ok () then [''1'', ''0''] else [''1''])"
  using assms
  by (auto simp: snapshot_frozen_def freeze_cgroup_def thaw_cgroup_def cg_write_def freeze_requests_def Let_def
      split: sum.split prod.split)

theorem snapshot_frozen_thaws_witness:
  "freeze_requests (snd (snapshot_frozen (\<lambda>_ _. None) (\<lambda>_. None) (\<lambda>_. 0) True 7 ''/out'' (Some []) \<lparr>is_next = 0, is_data = Map.empty\<rparr> []))
     = [''1''] \<and>
   freeze_requests (snd (snapshot_frozen (\<lambda>_ _. None) demo_events (\<lambda>_. 0) True 7 ''/out'' None \<lparr>is_next = 0, is_data = Map.empty\<rparr> []))
     = [''1'', ''0'']"
proof -
  have "fst (wait_for_frozen (\<lambda>_. None) (\<lambda>_. 0) FREEZE_DEADLINE_US 0 0) \<noteq> Ok ()"
    using wait_result [of "\<lambda>_. None" "\<lambda>_. 0" FREEZE_DEADLINE_US 0 0] surjective_pairing
    by (metis option.simps(4) reports_frozen_def)
  moreover have "fst (wait_for_frozen demo_events (\<lambda>_. 0) FREEZE_DEADLINE_US 0 0) = Ok ()"
    by (simp add: wait_for_frozen.simps demo_events_frozen FREEZE_DEADLINE_US_def)
  ultimately show ?thesis
    using snapshot_frozen_thaws [where wr = "\<lambda>_ _. None" and events = "\<lambda>_. None" and over = "\<lambda>_. 0" and ws = "[]"
        and now = 7 and path = "''/out''" and d = "Some []" and st = "\<lparr>is_next = 0, is_data = Map.empty\<rparr>"]
      snapshot_frozen_thaws [where wr = "\<lambda>_ _. None" and events = demo_events and over = "\<lambda>_. 0" and ws = "[]"
        and now = 7 and path = "''/out''" and d = None and st = "\<lparr>is_next = 0, is_data = Map.empty\<rparr>"]
    by (simp add: freeze_requests_def)
qed

text \<open>C32. The limits of a jail, written out.  With a kernel that accepts the writes, the group of a
  jail with limits gets \<open>memory.max\<close>, \<open>cpu.max\<close> and \<open>pids.max\<close> for the limits that are not
  zero, in that order, and \<open>io.max\<close> for the device of the output directory.  The numbers are
  the megabytes in bytes and the quota modulo \<open>2 ^ 64\<close>, and exact below the overflow.\<close>

theorem cgroup_limits:
  assumes "has_limits config" "\<forall>f v. wr f v = None" "dev (jc_output config) = Ok (major, minor)"
    and "utf8_valid (jc_output config)"
  shows "create_cgroup (Ok ()) wr dev config = Ok (Some
     ((if jc_memory_mb config > 0 then [(''memory.max'', show_nat (jc_memory_mb config * 2 ^ 20 mod 2 ^ 64))] else []) @
      (if jc_cpu_percent config > 0
       then [(''cpu.max'', show_nat (100000 * jc_cpu_percent config mod 2 ^ 64 div 100) @ '' 100000'')] else []) @
      (if jc_max_pids config > 0 then [(''pids.max'', show_nat (jc_max_pids config mod 2 ^ 64))] else []) @
      (if jc_io_read_mbps config > 0 \<or> jc_io_write_mbps config > 0
       then [(''io.max'', show_nat major @ '':'' @ show_nat minor @
              '' rbps='' @ show_nat (jc_io_read_mbps config * 2 ^ 20 mod 2 ^ 64) @
              '' wbps='' @ show_nat (jc_io_write_mbps config * 2 ^ 20 mod 2 ^ 64))] else []))) \<and>
   (jc_memory_mb config < 2 ^ 44 \<longrightarrow> jc_memory_mb config * 2 ^ 20 mod 2 ^ 64 = jc_memory_mb config * 2 ^ 20) \<and>
   (jc_cpu_percent config < 2 ^ 47 \<longrightarrow> 100000 * jc_cpu_percent config mod 2 ^ 64 div 100 = 1000 * jc_cpu_percent config)"
proof -
  have mb: "unat (u64 n * 1024 * 1024) = n * 2 ^ 20 mod 2 ^ 64" for n
  proof -
    have "u64 n * 1024 * 1024 = of_nat (n * 2 ^ 20)"
      by (simp add: u64_def)
    then show ?thesis
      by (simp only: unsigned_of_nat take_bit_eq_mod) simp
  qed
  have cpu: "unat (cpu_quota (u64 n)) = 100000 * n mod 2 ^ 64 div 100" for n
  proof -
    have "100000 * u64 n = (of_nat (100000 * n) :: 64 word)"
      by (simp add: u64_def)
    then have "unat (100000 * u64 n) = 100000 * n mod 2 ^ 64"
      by (simp only: unsigned_of_nat take_bit_eq_mod) simp
    then show ?thesis
      by (simp add: cpu_quota_def unat_div)
  qed
  have pids: "unat (u64 n) = n mod 2 ^ 64" for n
    by (simp add: u64_def unsigned_of_nat take_bit_eq_mod)
  have period: "show_nat 100000 = ''100000''"
    by (simp add: show_nat_eval)
  have written: "cg_write wr f v ws = Ok (ws @ [(f, v)])" for f v ws
    using assms(2) by (simp add: cg_write_def)
  have opt: "(if b then Ok (ws @ [w]) else Ok ws) = (Ok (ws @ (if b then [w] else [])) :: (jail_error, cg_writes) result)"
    for b ws w
    by simp
  have opt0: "(if b then Ok [w] else Ok []) = (Ok (if b then [w] else []) :: (jail_error, cg_writes) result)"
    for b w
    by simp
  have io: "(if b then ws @ [w] else ws) = ws @ (if b then [w] else [])" for b and ws :: cg_writes and w
    by simp
  have "create_cgroup (Ok ()) wr dev config = Ok (Some
     ((if jc_memory_mb config > 0 then [(''memory.max'', show_nat (jc_memory_mb config * 2 ^ 20 mod 2 ^ 64))] else []) @
      (if jc_cpu_percent config > 0
       then [(''cpu.max'', show_nat (100000 * jc_cpu_percent config mod 2 ^ 64 div 100) @ '' 100000'')] else []) @
      (if jc_max_pids config > 0 then [(''pids.max'', show_nat (jc_max_pids config mod 2 ^ 64))] else []) @
      (if jc_io_read_mbps config > 0 \<or> jc_io_write_mbps config > 0
       then [(''io.max'', show_nat major @ '':'' @ show_nat minor @
              '' rbps='' @ show_nat (jc_io_read_mbps config * 2 ^ 20 mod 2 ^ 64) @
              '' wbps='' @ show_nat (jc_io_write_mbps config * 2 ^ 20 mod 2 ^ 64))] else [])))"
    using assms(1,3,4)
    by (simp only: create_cgroup_def set_memory_limit_def set_cpu_quota_def set_pids_max_def set_io_limit_def
        written show_u64_def mb cpu pids opt0 opt io append_Nil and_then.simps Let_def sum.case prod.case if_True
        not_True_eq_False if_False unsigned_numeral period append_assoc append_Cons simp_thms)
      (simp add: period)
  moreover have "jc_memory_mb config < 2 ^ 44 \<longrightarrow> jc_memory_mb config * 2 ^ 20 mod 2 ^ 64 = jc_memory_mb config * 2 ^ 20"
    by (auto intro!: mod_less)
  moreover have "jc_cpu_percent config < 2 ^ 47 \<longrightarrow> 100000 * jc_cpu_percent config mod 2 ^ 64 div 100 = 1000 * jc_cpu_percent config"
    by simp
  ultimately show ?thesis
    by blast
qed

theorem cgroup_limits_witness:
  "create_cgroup (Ok ()) (\<lambda>_ _. None) (\<lambda>_. Ok (8, 1))
     (jail_config_default\<lparr>jc_output := ''/out'', jc_memory_mb := 512, jc_cpu_percent := 50, jc_max_pids := 0,
        jc_io_read_mbps := 0, jc_io_write_mbps := 0\<rparr>) =
   Ok (Some [(''memory.max'', ''536870912''), (''cpu.max'', ''50000 100000'')])"
proof -
  let ?c = "jail_config_default\<lparr>jc_output := ''/out'', jc_memory_mb := 512, jc_cpu_percent := 50, jc_max_pids := 0,
        jc_io_read_mbps := 0, jc_io_write_mbps := 0\<rparr>"
  have h: "has_limits ?c" "\<forall>f v. (\<lambda>_ _. None :: string option) f v = None" "(\<lambda>_. Ok (8, 1)) (jc_output ?c) = Ok (8, 1)"
    "utf8_valid (jc_output ?c)"
    by (simp_all add: has_limits_def utf8_valid_ascii ascii_string_def)
  have "show_nat (512 * 2 ^ 20 mod 2 ^ 64) = ''536870912''" "show_nat (100000 * 50 mod 2 ^ 64 div 100) = ''50000''"
    by (simp_all add: show_nat_eval)
  with cgroup_limits [OF h] show ?thesis
    by simp
qed

end
