(* ===== verification/Netlink.thy ===== *)
theory Netlink
  imports Jail_Config "HOL-Library.Word"
begin

text \<open>
  Network set-up of a jail: the netlink messages of \<open>agentjail/src/netlink.rs\<close> as lists of
  bytes, and the addresses and names of \<open>agentjail/src/veth.rs\<close>.  Structures are laid out
  little-endian, as on the two architectures the crate supports.  The kernel is the argument
  \<open>nl\<close>, the answer to a message (the bytes received, or an error), and \<open>idx\<close>, the index of an
  interface.  \<open>parse_attrs\<close> is the reference reading of attributes: length and type, the data,
  padding to four bytes.
\<close>

section \<open>Bytes\<close>

definition le16 :: "16 word \<Rightarrow> byte list" where
  "le16 w = [ucast w, ucast (drop_bit 8 w)]"

definition le32 :: "32 word \<Rightarrow> byte list" where
  "le32 w = [ucast w, ucast (drop_bit 8 w), ucast (drop_bit 16 w), ucast (drop_bit 24 w)]"

definition read16 :: "byte list \<Rightarrow> nat" where
  "read16 bs = unat (bs ! 0) + 256 * unat (bs ! 1)"

definition read32 :: "byte list \<Rightarrow> nat" where
  "read32 bs = unat (bs ! 0) + 256 * unat (bs ! 1) + 65536 * unat (bs ! 2) + 16777216 * unat (bs ! 3)"

definition str_bytes :: "string \<Rightarrow> byte list" where
  "str_bytes s = map of_char s"

section \<open>Attributes and messages\<close>

unbundle bit_operations_syntax

definition NLM_F_REQUEST :: "16 word" where "NLM_F_REQUEST = 1"
definition NLM_F_ACK :: "16 word" where "NLM_F_ACK = 4"
definition NLM_F_EXCL :: "16 word" where "NLM_F_EXCL = 0x200"
definition NLM_F_CREATE :: "16 word" where "NLM_F_CREATE = 0x400"
definition NLA_F_NESTED :: "16 word" where "NLA_F_NESTED = push_bit 15 1"
definition NLMSG_ERROR :: nat where "NLMSG_ERROR = 2"
definition IFLA_INFO_KIND :: "16 word" where "IFLA_INFO_KIND = 1"
definition IFLA_INFO_DATA :: "16 word" where "IFLA_INFO_DATA = 2"
definition VETH_INFO_PEER :: "16 word" where "VETH_INFO_PEER = 1"
definition IFNAMSIZ :: nat where "IFNAMSIZ = 16"

text \<open>\<open>(n + 3) & !3\<close>.\<close>

definition pad4 :: "nat \<Rightarrow> nat" where
  "pad4 n = (n + 3) div 4 * 4"

definition push_attr :: "byte list \<Rightarrow> 16 word \<Rightarrow> byte list \<Rightarrow> byte list" where
  "push_attr buf rta_type data =
     (let rta_len = of_nat (4 + length data) :: 16 word;
          buf = buf @ le16 rta_len @ le16 rta_type @ data;
          padded = pad4 (unat rta_len)
      in buf @ replicate (padded - unat rta_len) 0)"

definition push_attr_nested :: "byte list \<Rightarrow> 16 word \<Rightarrow> byte list \<Rightarrow> byte list" where
  "push_attr_nested buf rta_type data = push_attr buf (rta_type OR NLA_F_NESTED) data"

definition name_nul :: "string \<Rightarrow> byte list" where
  "name_nul name = str_bytes name @ [0]"

definition validate_ifname :: "string \<Rightarrow> (string, unit) result" where
  "validate_ifname name =
     (if name = [] \<or> IFNAMSIZ \<le> length name
      then Err (''interface name must be 1..'' @ show_nat (IFNAMSIZ - 1) @ '' bytes, got '' @ show_nat (length name))
      else Ok ())"

definition ifinfomsg :: "32 word \<Rightarrow> byte list" where
  "ifinfomsg index = [0, 0] @ le16 0 @ le32 index @ le32 0 @ le32 0"

definition ifaddrmsg :: "byte \<Rightarrow> 32 word \<Rightarrow> byte list" where
  "ifaddrmsg prefix_len index = [2, prefix_len, 0, 0] @ le32 index"

definition rtmsg_default :: "byte list" where
  "rtmsg_default = [2, 0, 0, 0, 254, 3, 0, 1] @ le32 0"

definition nl_message :: "16 word \<Rightarrow> 16 word \<Rightarrow> 32 word \<Rightarrow> byte list \<Rightarrow> byte list" where
  "nl_message typ flags seq payload =
     le32 (of_nat (16 + length payload)) @ le16 typ @ le16 flags @ le32 seq @ le32 0 @ payload"

definition veth_payload :: "string \<Rightarrow> string \<Rightarrow> byte list" where
  "veth_payload host_name jail_name =
     (let peer_data = push_attr (ifinfomsg 0) 3 (name_nul jail_name);
          info_data = push_attr_nested [] VETH_INFO_PEER peer_data;
          linkinfo = push_attr_nested (push_attr [] IFLA_INFO_KIND (name_nul ''veth'')) IFLA_INFO_DATA info_data
      in push_attr_nested (push_attr (ifinfomsg 0) 3 (name_nul host_name)) 18 linkinfo)"

definition create_flags :: "16 word" where
  "create_flags = NLM_F_REQUEST OR NLM_F_CREATE OR NLM_F_EXCL OR NLM_F_ACK"

definition veth_msg :: "string \<Rightarrow> string \<Rightarrow> byte list" where
  "veth_msg host_name jail_name = nl_message 16 create_flags 1 (veth_payload host_name jail_name)"

definition move_msg :: "32 word \<Rightarrow> 32 word \<Rightarrow> byte list" where
  "move_msg index pid =
     nl_message 16 (NLM_F_REQUEST OR NLM_F_ACK) 2 (push_attr (ifinfomsg index) 19 (le32 pid))"

definition addr_msg :: "32 word \<Rightarrow> byte list \<Rightarrow> byte \<Rightarrow> byte list" where
  "addr_msg index octets prefix_len =
     nl_message 20 create_flags 3
       (push_attr (push_attr (ifaddrmsg prefix_len index) 2 octets) 1 octets)"

definition route_msg :: "byte list \<Rightarrow> byte list" where
  "route_msg gateway = nl_message 24 create_flags 4 (push_attr rtmsg_default 5 gateway)"

definition delete_msg :: "32 word \<Rightarrow> byte list" where
  "delete_msg index = nl_message 17 (NLM_F_REQUEST OR NLM_F_ACK) 5 (ifinfomsg index)"

section \<open>Operations\<close>

type_synonym nl_kernel = "byte list \<Rightarrow> (string, byte list) result"
type_synonym if_kernel = "string \<Rightarrow> (string, 32 word) result"

definition os_error :: "nat \<Rightarrow> string" where
  "os_error n = ''os error '' @ show_nat n"

text \<open>The answer: at least header and error code; an error message with a negative code is an
  error, anything else counts as acknowledged.\<close>

definition nl_ack :: "byte list \<Rightarrow> (string, unit) result" where
  "nl_ack buf =
     (if length buf < 16 + 4 then Err ''netlink: short ACK''
      else if read16 (drop 4 buf) = NLMSG_ERROR
      then (let code = sint (of_nat (read32 (drop 16 buf)) :: 32 word)
            in if code < 0 then Err (os_error (nat (- code))) else Ok ())
      else Ok ())"

definition nl_exec :: "nl_kernel \<Rightarrow> byte list \<Rightarrow> (jail_error, unit) result" where
  "nl_exec nl msg =
     (case and_then (nl msg) nl_ack of Inl e \<Rightarrow> Err (NetworkError e) | Inr u \<Rightarrow> Ok ())"

definition ifindex :: "if_kernel \<Rightarrow> string \<Rightarrow> (string, 32 word) result" where
  "ifindex idx name = and_then (validate_ifname name) (\<lambda>_. idx name)"

definition net_err :: "(string, 'a) result \<Rightarrow> (jail_error, 'a) result" where
  "net_err r = (case r of Inl e \<Rightarrow> Err (NetworkError e) | Inr a \<Rightarrow> Ok a)"

definition create_veth_pair :: "nl_kernel \<Rightarrow> string \<Rightarrow> string \<Rightarrow> (jail_error, unit) result" where
  "create_veth_pair nl host_name jail_name = nl_exec nl (veth_msg host_name jail_name)"

definition move_to_netns :: "nl_kernel \<Rightarrow> if_kernel \<Rightarrow> string \<Rightarrow> 32 word \<Rightarrow> (jail_error, unit) result" where
  "move_to_netns nl idx ifname pid =
     and_then (net_err (ifindex idx ifname)) (\<lambda>i. nl_exec nl (move_msg i pid))"

definition add_ipv4_addr :: "nl_kernel \<Rightarrow> if_kernel \<Rightarrow> string \<Rightarrow> byte list \<Rightarrow> byte \<Rightarrow> (jail_error, unit) result" where
  "add_ipv4_addr nl idx ifname octets prefix_len =
     and_then (net_err (ifindex idx ifname)) (\<lambda>i. nl_exec nl (addr_msg i octets prefix_len))"

definition set_link_up :: "(string \<Rightarrow> (string, unit) result) \<Rightarrow> string \<Rightarrow> (jail_error, unit) result" where
  "set_link_up up ifname = net_err (and_then (validate_ifname ifname) (\<lambda>_. up ifname))"

definition add_default_route :: "nl_kernel \<Rightarrow> byte list \<Rightarrow> (jail_error, unit) result" where
  "add_default_route nl gateway = nl_exec nl (route_msg gateway)"

definition delete_link :: "nl_kernel \<Rightarrow> if_kernel \<Rightarrow> string \<Rightarrow> (jail_error, unit) result" where
  "delete_link nl idx ifname =
     (case ifindex idx ifname of
        Inl e \<Rightarrow> Ok ()
      | Inr i \<Rightarrow> nl_exec nl (delete_msg i))"

section \<open>Veth pairs\<close>

definition PROXY_PORT :: nat where "PROXY_PORT = 8080"

definition veth_addrs :: "32 word \<Rightarrow> byte list \<times> byte list" where
  "veth_addrs vid =
     (let b2 = ucast (drop_bit 8 vid AND 0xFF) :: byte;
          b3 = ucast (vid AND 0xFF) :: byte;
          b3 = (if b2 = 0 \<and> b3 = 0 then 1 else b3)
      in ([10, b2, b3, 1], [10, b2, b3, 2]))"

definition host_if :: "32 word \<Rightarrow> string" where
  "host_if vid = ''aj-h'' @ show_nat (unat vid)"

definition jail_if :: "32 word \<Rightarrow> string" where
  "jail_if vid = ''aj-j'' @ show_nat (unat vid)"

definition show_ipv4 :: "byte list \<Rightarrow> string" where
  "show_ipv4 o4 =
     show_nat (unat (o4 ! 0)) @ ''.'' @ show_nat (unat (o4 ! 1)) @ ''.'' @
     show_nat (unat (o4 ! 2)) @ ''.'' @ show_nat (unat (o4 ! 3))"

definition proxy_env_vars :: "byte list \<Rightarrow> (string \<times> string) list" where
  "proxy_env_vars host_ip =
     (let url = ''http://'' @ show_ipv4 host_ip @ '':'' @ show_nat PROXY_PORT
      in [(''HTTP_PROXY'', url), (''HTTPS_PROXY'', url), (''http_proxy'', url), (''https_proxy'', url)])"

text \<open>The links that are deleted, of the names under \<open>/sys/class/net\<close>.\<close>

definition stale_veths :: "string list \<Rightarrow> string list" where
  "stale_veths names = filter (\<lambda>n. starts_with n ''aj-h'') names"

section \<open>Reading messages\<close>

function parse_attrs :: "byte list \<Rightarrow> (nat \<times> byte list) list option" where
  "parse_attrs bs =
     (if bs = [] then Some []
      else if length bs < 4 then None
      else (let len = read16 bs
            in if len < 4 \<or> length bs < len then None
               else map_option ((#) (read16 (drop 2 bs), take (len - 4) (drop 4 bs)))
                      (parse_attrs (drop (pad4 len) bs))))"
  by pat_completeness auto
termination
  by (relation "measure length") (auto simp: pad4_def)

declare parse_attrs.simps [simp del]

lemma le16_length [simp]: "length (le16 w) = 2"
  by (simp add: le16_def)

lemma le32_length [simp]: "length (le32 w) = 4"
  by (simp add: le32_def)

lemma read_le16: "read16 (le16 w @ r) = unat w"
proof -
  have w: "unat w < 65536"
    using unsigned_less [of w, where ?'a = nat] by simp
  have "unat (ucast w :: byte) = unat w mod 256"
    by (simp add: unsigned_ucast_eq take_bit_eq_mod)
  moreover have "unat (ucast (drop_bit 8 w) :: byte) = unat w div 256 mod 256"
    by (simp add: unsigned_ucast_eq take_bit_eq_mod drop_bit_eq_div unat_div)
  ultimately show ?thesis
    using w by (simp add: read16_def le16_def)
qed


lemma read_le32: "read32 (le32 w @ r) = unat w"
proof -
  have w: "unat w < 4294967296"
    using unsigned_less [of w, where ?'a = nat] by simp
  have b: "unat (ucast (drop_bit n w) :: byte) = unat w div 2 ^ n mod 256" for n
    by (simp add: unsigned_ucast_eq take_bit_eq_mod unat_drop_bit_eq) (simp add: drop_bit_eq_div)
  have "unat (ucast w :: byte) = unat w mod 256"
    by (simp add: unsigned_ucast_eq take_bit_eq_mod)
  moreover have "n mod 256 + 256 * (n div 256 mod 256) + 65536 * (n div 65536 mod 256) + 16777216 * (n div 16777216 mod 256) = n"
    if "n < 4294967296" for n :: nat
  proof -
    define q1 q2 q3 where "q1 = n div 256" and "q2 = q1 div 256" and "q3 = q2 div 256"
    have "n = 256 * q1 + n mod 256" "q1 = 256 * q2 + q1 mod 256" "q2 = 256 * q3 + q2 mod 256"
      unfolding q1_def q2_def q3_def by (simp_all only: mult_div_mod_eq)
    moreover have "n div 65536 = q2" "n div 16777216 = q3"
      unfolding q1_def q2_def q3_def by (simp_all add: div_mult2_eq [symmetric])
    moreover have "q3 mod 256 = q3"
      using that unfolding q1_def q2_def q3_def by (simp add: div_mult2_eq [symmetric])
    ultimately show ?thesis
      unfolding q1_def [symmetric] by simp
  qed
  ultimately show ?thesis
    using w b [of 8] b [of 16] b [of 24] by (simp add: read32_def le32_def)
qed

lemma attr_bytes: "push_attr buf t d = buf @ push_attr [] t d"
  by (simp add: push_attr_def Let_def)

lemma attr_bytes2: "push_attr (push_attr buf t d) t' d' = buf @ push_attr [] t d @ push_attr [] t' d'"
  using attr_bytes [of "push_attr buf t d" t' d'] attr_bytes [of buf t d] by simp

lemma parse_push_attr:
  assumes "length d < 65532" "parse_attrs rest = Some as"
  shows "parse_attrs (push_attr [] t d @ rest) = Some ((unat t, d) # as)"
proof -
  let ?n = "4 + length d"
  let ?pad = "replicate (pad4 ?n - ?n) (0 :: byte)"
  have n: "unat (of_nat ?n :: 16 word) = ?n"
    using assms(1) by (simp only: unsigned_of_nat take_bit_eq_mod) simp
  define bs where "bs = push_attr [] t d @ rest"
  have bytes: "bs = le16 (of_nat ?n) @ le16 t @ d @ ?pad @ rest"
    unfolding bs_def push_attr_def Let_def n by simp
  have len: "read16 bs = ?n"
    unfolding bytes read_le16 n ..
  have ty: "read16 (drop 2 bs) = unat t"
    unfolding bytes by (simp add: read_le16)
  have "?n \<le> pad4 ?n"
    by (simp add: pad4_def)
  then have "drop (pad4 ?n) bs = rest"
    unfolding bytes by simp
  moreover have "take (?n - 4) (drop 4 bs) = d"
    unfolding bytes by simp
  moreover have "\<not> length bs < ?n" "bs \<noteq> []"
    unfolding bytes by (simp_all add: le16_def)
  ultimately have "parse_attrs bs = Some ((unat t, d) # as)"
    using assms(2) by (subst parse_attrs.simps) (simp add: len ty Let_def)
  then show ?thesis
    by (simp add: bs_def)
qed

lemma parse_attrs_Nil [simp]: "parse_attrs [] = Some []"
  by (simp add: parse_attrs.simps)

lemmas parse_one = parse_push_attr [where rest = "[]" and as = "[]", simplified]

lemma push_attr_length: "length d < 65532 \<Longrightarrow> length (push_attr buf t d) \<le> length buf + length d + 7"
proof -
  assume "length d < 65532"
  then have n: "unat (of_nat (4 + length d) :: 16 word) = 4 + length d"
    by (simp only: unsigned_of_nat take_bit_eq_mod) simp
  show ?thesis
    unfolding push_attr_def Let_def n by (simp add: pad4_def)
qed

lemma message_length:
  assumes "length p < 65536"
  shows "read32 (nl_message t f s p) = length (nl_message t f s p)"
proof -
  have "unat (of_nat (16 + length p) :: 32 word) = 16 + length p"
    using assms by (simp only: unsigned_of_nat take_bit_eq_mod) simp
  then show ?thesis
    unfolding nl_message_def read_le32 by simp
qed

lemma message_payload: "drop (16 + n) (nl_message t f s p) = drop n p"
  by (simp add: nl_message_def)

lemma header_lengths: "length (ifinfomsg x) = 16" "length (ifaddrmsg l x) = 8" "length rtmsg_default = 12"
  by (simp_all add: ifinfomsg_def ifaddrmsg_def rtmsg_default_def)

lemma name_nul_length: "length (name_nul n) = length n + 1"
  by (simp add: name_nul_def str_bytes_def)

lemma nested_types:
  "unat (VETH_INFO_PEER OR NLA_F_NESTED) = 1 + 32768" "unat (IFLA_INFO_DATA OR NLA_F_NESTED) = 2 + 32768"
  "unat (18 OR NLA_F_NESTED) = 18 + 32768" "unat IFLA_INFO_KIND = 1"
  by (simp_all add: VETH_INFO_PEER_def IFLA_INFO_DATA_def IFLA_INFO_KIND_def NLA_F_NESTED_def)

lemma addr_msg_reads:
  assumes "length octets = 4"
  shows "read32 (addr_msg i octets len) = length (addr_msg i octets len)"
    "parse_attrs (drop 24 (addr_msg i octets len)) = Some [(2, octets), (1, octets)]"
proof -
  have p: "push_attr (push_attr (ifaddrmsg len i) 2 octets) 1 octets =
      ifaddrmsg len i @ push_attr [] 2 octets @ push_attr [] 1 octets"
    by (rule attr_bytes2)
  show "read32 (addr_msg i octets len) = length (addr_msg i octets len)"
    unfolding addr_msg_def p using push_attr_length [of octets "[]" 2] push_attr_length [of octets "[]" 1] assms
    by (intro message_length) (simp add: header_lengths)
  show "parse_attrs (drop 24 (addr_msg i octets len)) = Some [(2, octets), (1, octets)]"
    using assms parse_push_attr [OF _ parse_one, of octets octets 2 1]
      message_payload [of 8 20 create_flags 3 "push_attr (push_attr (ifaddrmsg len i) 2 octets) 1 octets"]
    by (simp add: addr_msg_def p header_lengths)
qed

lemma route_msg_reads:
  assumes "length octets = 4"
  shows "read32 (route_msg octets) = length (route_msg octets)"
    "parse_attrs (drop 28 (route_msg octets)) = Some [(5, octets)]"
proof -
  show "read32 (route_msg octets) = length (route_msg octets)"
    unfolding route_msg_def using push_attr_length [of octets rtmsg_default 5] assms
    by (intro message_length) (simp add: header_lengths)
  show "parse_attrs (drop 28 (route_msg octets)) = Some [(5, octets)]"
    using assms parse_one [of octets 5] attr_bytes [of rtmsg_default 5 octets]
    by (simp add: route_msg_def nl_message_def header_lengths)
qed

lemma move_msg_reads: "parse_attrs (drop 32 (move_msg i pid)) = Some [(19, le32 pid)]"
  using parse_one [of "le32 pid" 19] attr_bytes [of "ifinfomsg i" 19 "le32 pid"]
  by (simp add: move_msg_def nl_message_def header_lengths)

lemma veth_msg_reads:
  assumes "length h \<le> 1000" "length j \<le> 1000"
  shows "read32 (veth_msg h j) = length (veth_msg h j)"
    "\<exists>link info peer. parse_attrs (drop 32 (veth_msg h j)) = Some [(3, name_nul h), (18 + 32768, link)] \<and>
        parse_attrs link = Some [(1, name_nul ''veth''), (2 + 32768, info)] \<and>
        parse_attrs info = Some [(1 + 32768, peer)] \<and> parse_attrs (drop 16 peer) = Some [(3, name_nul j)]"
proof -
  define peer where "peer = push_attr (ifinfomsg 0) 3 (name_nul j)"
  define info where "info = push_attr_nested [] VETH_INFO_PEER peer"
  define link where "link = push_attr_nested (push_attr [] IFLA_INFO_KIND (name_nul ''veth'')) IFLA_INFO_DATA info"
  note defs = peer_def info_def link_def push_attr_nested_def header_lengths name_nul_length nested_types
  have lp: "length peer \<le> 1024"
    using push_attr_length [of "name_nul j" "ifinfomsg 0" 3] assms(2) by (simp add: defs)
  then have li: "length info \<le> 1031"
    using push_attr_length [of peer "[]" "VETH_INFO_PEER OR NLA_F_NESTED"] by (simp add: info_def push_attr_nested_def)
  then have ll: "length link \<le> 1050"
    using push_attr_length [of info "push_attr [] IFLA_INFO_KIND (name_nul ''veth'')" "IFLA_INFO_DATA OR NLA_F_NESTED"]
      push_attr_length [of "name_nul ''veth''" "[]" IFLA_INFO_KIND]
    by (simp add: link_def push_attr_nested_def name_nul_length)
  have "veth_payload h j = push_attr_nested (push_attr (ifinfomsg 0) 3 (name_nul h)) 18 link"
    by (simp add: veth_payload_def Let_def peer_def info_def link_def)
  then have payload: "veth_payload h j = ifinfomsg 0 @ push_attr [] 3 (name_nul h) @ push_attr [] (18 OR NLA_F_NESTED) link"
    by (simp only: push_attr_nested_def attr_bytes2)
  have "parse_attrs (drop 16 peer) = Some [(3, name_nul j)]"
    using assms(2) parse_one [of "name_nul j" 3] attr_bytes [of "ifinfomsg 0" 3 "name_nul j"] by (simp add: defs)
  moreover have "parse_attrs info = Some [(1 + 32768, peer)]"
    using lp parse_one [of peer "VETH_INFO_PEER OR NLA_F_NESTED"]
    by (simp add: info_def push_attr_nested_def nested_types)
  moreover have "parse_attrs link = Some [(1, name_nul ''veth''), (2 + 32768, info)]"
    unfolding link_def push_attr_nested_def
    using li by (subst attr_bytes, subst parse_push_attr [OF _ parse_one]) (simp_all add: name_nul_length nested_types)
  moreover have "parse_attrs (drop 32 (veth_msg h j)) = Some [(3, name_nul h), (18 + 32768, link)]"
    using ll assms(1) parse_push_attr [OF _ parse_one, of "name_nul h" link 3 "18 OR NLA_F_NESTED"]
    by (simp add: veth_msg_def nl_message_def payload header_lengths name_nul_length nested_types)
  ultimately show "\<exists>link info peer. parse_attrs (drop 32 (veth_msg h j)) = Some [(3, name_nul h), (18 + 32768, link)] \<and>
        parse_attrs link = Some [(1, name_nul ''veth''), (2 + 32768, info)] \<and>
        parse_attrs info = Some [(1 + 32768, peer)] \<and> parse_attrs (drop 16 peer) = Some [(3, name_nul j)]"
    by blast
  show "read32 (veth_msg h j) = length (veth_msg h j)"
    unfolding veth_msg_def
    using push_attr_length [of "name_nul h" "[]" 3] push_attr_length [of link "[]" "18 OR NLA_F_NESTED"] ll assms(1)
    by (intro message_length) (simp add: payload header_lengths name_nul_length)
qed

section \<open>Identifiers\<close>

lemma show_nat_inj: "show_nat m = show_nat n \<longleftrightarrow> m = n"
proof
  assume eq: "show_nat m = show_nat n"
  have "Some m = parse_unsigned (max m n) (show_nat m)"
    by (rule parse_show_nat [symmetric]) simp
  also have "\<dots> = Some n"
    unfolding eq by (rule parse_show_nat) simp
  finally show "m = n"
    by (rule option.inject [THEN iffD1])
qed (rule arg_cong)

lemma show_nat_length: "n < 10 ^ Suc k \<Longrightarrow> length (show_nat n) \<le> Suc k"
proof (induction k arbitrary: n)
  case 0
  then show ?case
    by (simp add: show_nat.simps)
next
  case (Suc k)
  then have "n div 10 < 10 ^ Suc k"
    by (auto intro: less_mult_imp_div_less simp: mult.commute)
  from Suc.IH [OF this] show ?case
    by (simp add: show_nat.simps [of n])
qed

lemma low_byte: "unat (ucast (x AND 0xFF) :: byte) = unat x mod 256" for x :: "32 word"
proof -
  have "x AND 0xFF = take_bit 8 x"
    by (simp add: take_bit_eq_mask mask_eq_exp_minus_1)
  then have "unat (x AND 0xFF) = unat x mod 256"
    by (simp add: take_bit_eq_mod unat_mod)
  then show ?thesis
    by (simp add: unsigned_ucast_eq take_bit_eq_mod)
qed

lemma veth_bytes:
  fixes v :: "32 word"
  shows "unat (ucast (drop_bit 8 v AND 0xFF) :: byte) = unat v mod 65536 div 256"
  "unat (ucast (v AND 0xFF) :: byte) = unat v mod 65536 mod 256"
proof -
  have "unat (drop_bit 8 v) = unat v div 256"
    by (simp add: unat_drop_bit_eq) (simp add: drop_bit_eq_div)
  moreover have "n div 256 mod 256 = n mod 65536 div 256" for n :: nat
    using mod_mult2_eq [of n 256 256] by simp
  ultimately show "unat (ucast (drop_bit 8 v AND 0xFF) :: byte) = unat v mod 65536 div 256"
    by (simp only: low_byte)
  show "unat (ucast (v AND 0xFF) :: byte) = unat v mod 65536 mod 256"
    unfolding low_byte by (simp add: mod_mod_cancel)
qed

text \<open>The addresses depend on the lower half of the identifier alone.\<close>

definition addr_bytes :: "nat \<Rightarrow> byte list \<times> byte list" where
  "addr_bytes m = (let b2 = of_nat (m div 256); b3 = (if m = 0 then 1 else of_nat (m mod 256))
                   in ([10, b2, b3, 1], [10, b2, b3, 2]))"

lemma veth_addr_bytes: "veth_addrs v = addr_bytes (unat v mod 65536)"
proof -
  let ?m = "unat v mod 65536"
  have m: "?m div 256 < 256" "?m mod 256 < 256"
    by (simp_all add: less_mult_imp_div_less)
  have byte: "ucast x = (of_nat n :: byte)" if "unat (ucast x :: byte) = n" for x :: "32 word" and n
    using that by (metis of_nat_unat ucast_id)
  note b2 = byte [OF veth_bytes(1) [of v]] and b3 = byte [OF veth_bytes(2) [of v]]
  have zero: "(of_nat (?m div 256) :: byte) = 0 \<and> (of_nat (?m mod 256) :: byte) = 0 \<longleftrightarrow> ?m = 0"
  proof -
    have unat: "unat (of_nat n :: byte) = n" if "n < 256" for n
      using that by (simp only: unsigned_of_nat take_bit_eq_mod) simp
    have "(of_nat n :: byte) = 0 \<longleftrightarrow> n = 0" if "n < 256" for n
      using unat [OF that] by (auto simp del: unsigned_of_nat)
    from this [OF m(1)] this [OF m(2)] show ?thesis
      using div_mult_mod_eq [of ?m 256] by auto
  qed
  show ?thesis
    unfolding veth_addrs_def addr_bytes_def Let_def b2 b3 using zero by auto
qed

lemma addr_bytes_inj:
  assumes "0 < m" "m < 65536" "0 < n" "n < 65536" "addr_bytes m = addr_bytes n"
  shows "m = n"
proof -
  have "(of_nat (m div 256) :: byte) = of_nat (n div 256)" "(of_nat (m mod 256) :: byte) = of_nat (n mod 256)"
    using assms by (simp_all add: addr_bytes_def Let_def)
  then have "unat (of_nat (m div 256) :: byte) = unat (of_nat (n div 256) :: byte)"
    "unat (of_nat (m mod 256) :: byte) = unat (of_nat (n mod 256) :: byte)"
    by simp_all
  then have "m div 256 = n div 256" "m mod 256 = n mod 256"
    using assms by (simp_all only: unsigned_of_nat take_bit_eq_mod) (simp_all add: less_mult_imp_div_less)
  then show ?thesis
    by (metis div_mult_mod_eq)
qed

section \<open>Properties\<close>

text \<open>The messages say what they mean.  Every message starts with its own length.  Read by the
  rules of the protocol, the message for a veth pair has the host interface's name and a
  nested description of kind \<open>veth\<close> whose peer has the jail interface's name; the messages for
  an address and a route carry the octets they are given, and the one for moving an interface
  the process id.\<close>

theorem netlink_messages:
  assumes "length h \<le> 1000" "length j \<le> 1000" "length octets = 4"
  shows "read32 (veth_msg h j) = length (veth_msg h j) \<and>
     (\<exists>link info peer. parse_attrs (drop 32 (veth_msg h j)) = Some [(3, name_nul h), (18 + 32768, link)] \<and>
        parse_attrs link = Some [(1, name_nul ''veth''), (2 + 32768, info)] \<and>
        parse_attrs info = Some [(1 + 32768, peer)] \<and>
        parse_attrs (drop 16 peer) = Some [(3, name_nul j)]) \<and>
     read32 (addr_msg i octets len) = length (addr_msg i octets len) \<and>
     parse_attrs (drop 24 (addr_msg i octets len)) = Some [(2, octets), (1, octets)] \<and>
     read32 (route_msg octets) = length (route_msg octets) \<and>
     parse_attrs (drop 28 (route_msg octets)) = Some [(5, octets)] \<and>
     parse_attrs (drop 32 (move_msg i pid)) = Some [(19, le32 pid)]"
  by (intro conjI veth_msg_reads addr_msg_reads route_msg_reads move_msg_reads assms)

theorem netlink_messages_witness:
  "parse_attrs (drop 24 (addr_msg 7 [10, 0, 1, 1] 30)) = Some [(2, [10, 0, 1, 1]), (1, [10, 0, 1, 1])] \<and>
   read32 (veth_msg ''aj-h1'' ''aj-j1'') = length (veth_msg ''aj-h1'' ''aj-j1'')"
  using netlink_messages [of "''aj-h1''" "''aj-j1''" "[10, 0, 1, 1]" 7 30] by simp

text \<open>Names and addresses of veth pairs.  For every identifier both interface names are valid
  and belong to no other identifier; the two addresses of a pair differ.  Pairs with different
  identifiers between 1 and 65535 have different addresses, and addresses repeat from 65536
  on: a pair has the addresses of the pair 65536 before it, and pair 65536 those of pair 1.\<close>

theorem veth_identifiers:
  "validate_ifname (host_if v) = Ok () \<and> validate_ifname (jail_if v) = Ok () \<and>
   (host_if v = host_if w \<longleftrightarrow> v = w) \<and> (jail_if v = jail_if w \<longleftrightarrow> v = w) \<and> host_if v \<noteq> jail_if w \<and>
   fst (veth_addrs v) \<noteq> snd (veth_addrs w) \<and>
   (0 < v \<and> v < 65536 \<and> 0 < w \<and> w < 65536 \<longrightarrow> (veth_addrs v = veth_addrs w \<longleftrightarrow> v = w)) \<and>
   veth_addrs (v + 65536) = veth_addrs v \<and> veth_addrs 65536 = veth_addrs 1"
proof -
  have "length (show_nat (unat v)) < 12"
    using show_nat_length [of "unat v" 9] unsigned_less [of v, where ?'a = nat] by simp
  then have names: "validate_ifname (host_if v) = Ok ()" "validate_ifname (jail_if v) = Ok ()"
    by (simp_all add: validate_ifname_def host_if_def jail_if_def IFNAMSIZ_def)
  have inj: "v = w" if "0 < v" "v < 65536" "0 < w" "w < 65536" "veth_addrs v = veth_addrs w"
  proof -
    have "0 < unat v" "unat v < 65536" "0 < unat w" "unat w < 65536"
      using that by (simp_all add: word_less_nat_alt)
    with that(5) have "unat v = unat w"
      using addr_bytes_inj [of "unat v" "unat w"] by (simp add: veth_addr_bytes)
    then show ?thesis
      by (simp only: word_unat_eq_iff)
  qed
  have unat: "unat v = unat w \<longleftrightarrow> v = w"
    by (simp only: word_unat_eq_iff)
  have "unat (v + 65536) mod 65536 = unat v mod 65536"
    by (simp add: unat_word_ariths mod_mod_cancel)
  then have "veth_addrs (v + 65536) = veth_addrs v"
    by (simp add: veth_addr_bytes)
  moreover have "veth_addrs 65536 = veth_addrs 1"
    by (simp add: veth_addr_bytes addr_bytes_def)
  moreover have "fst (veth_addrs v) \<noteq> snd (veth_addrs w)"
    by (simp add: veth_addrs_def Let_def)
  ultimately show ?thesis
    using names inj by (auto simp: host_if_def jail_if_def show_nat_inj unat)
qed

theorem veth_identifiers_witness:
  "veth_addrs 300 \<noteq> veth_addrs 301 \<and> veth_addrs 65836 = veth_addrs 300"
  using veth_identifiers [of 300 301] by simp

end
