(* ===== verification/Jail_Spawn.thy ===== *)
theory Jail_Spawn
  imports Cgroup
begin

text \<open>
  Starting a jail: the handshake between parent (\<open>Jail::spawn\<close> in \<open>agentjail/src/run.rs\<close>) and
  child (the child branch of \<open>spawn\<close> and the synchronising parts of \<open>setup_child\<close> in
  \<open>agentjail/src/exec.rs\<close>), waiting for a jail (\<open>JailHandle::wait\<close>), and the exit code a caller gets
  (\<open>run_internal.rs\<close>).

  Parent and child are two processes that interleave; the pipes between them hold the bytes
  written and not yet read.  A read blocks until there is a byte: no end of file is seen,
  because parent and child each keep a descriptor of the other's end open while they read, and
  \<open>setsid\<close> of the freshly forked child succeeds.  A step of the parent that fails while the
  \<open>ChildGuard\<close> is armed kills and reaps the child.  After the guard is disarmed the parent still has
  to register the two output pipes; when that fails only the drop of the \<open>Cgroup\<close>, if there is one,
  kills the processes it finds in the group.
\<close>

section \<open>Handshake\<close>

record spawn_config =
  sp_userns :: bool
  sp_limits :: bool
  sp_veth :: bool

definition spawn_config_of :: "jail_config \<Rightarrow> spawn_config" where
  "spawn_config_of c =
     \<lparr>sp_userns = jc_user_namespace c, sp_limits = has_limits c,
      sp_veth = (case jc_network c of Allowlist _ \<Rightarrow> True | _ \<Rightarrow> False)\<rparr>"

datatype parent_pc =
    PUsernsWait | PUsernsMap | PUsernsAck | PCgroup | PBarrier
  | PVethWait | PVethSetup | PVethAck | PStdout | PStderr | PDone | PFail | PLost

datatype child_pc =
    CBarrier | CUserns | CUsernsWait | CNamespaces | CNetWait | CSetup | CExec | CExit | CKilled

record handshake =
  hs_parent :: parent_pc
  hs_child :: child_pc
  hs_barrier :: nat
  hs_user_up :: nat
  hs_user_down :: nat
  hs_net_up :: nat
  hs_net_down :: nat
  hs_maps :: bool
  hs_cgroup :: bool
  hs_veth :: bool

definition hs_init :: "spawn_config \<Rightarrow> handshake" where
  "hs_init c = \<lparr>hs_parent = (if sp_userns c then PUsernsWait else PCgroup), hs_child = CBarrier,
     hs_barrier = 0, hs_user_up = 0, hs_user_down = 0, hs_net_up = 0, hs_net_down = 0,
     hs_maps = False, hs_cgroup = False, hs_veth = False\<rparr>"

text \<open>Steps of the parent after the fork, in the order of the code, then those of the child.
  The write of the maps may fail without consequences when the parent is root.  Without limits there
  is no cgroup.  \<open>PFail\<close> is a failure under the guard; \<open>PLost\<close> is one after it has been disarmed.\<close>

inductive hs_step :: "spawn_config \<Rightarrow> handshake \<Rightarrow> handshake \<Rightarrow> bool" for c where
  userns_ready: "hs_parent s = PUsernsWait \<Longrightarrow> 0 < hs_user_up s \<Longrightarrow>
     hs_step c s (s\<lparr>hs_parent := PUsernsMap, hs_user_up := hs_user_up s - 1\<rparr>)"
| maps_written: "hs_parent s = PUsernsMap \<Longrightarrow> hs_step c s (s\<lparr>hs_parent := PUsernsAck, hs_maps := True\<rparr>)"
| maps_failed_root: "hs_parent s = PUsernsMap \<Longrightarrow> hs_step c s (s\<lparr>hs_parent := PUsernsAck\<rparr>)"
| maps_failed: "hs_parent s = PUsernsMap \<Longrightarrow> hs_step c s (s\<lparr>hs_parent := PFail, hs_child := CKilled\<rparr>)"
| userns_ack: "hs_parent s = PUsernsAck \<Longrightarrow>
     hs_step c s (s\<lparr>hs_parent := PCgroup, hs_user_down := hs_user_down s + 1\<rparr>)"
| userns_ack_failed: "hs_parent s = PUsernsAck \<Longrightarrow> hs_step c s (s\<lparr>hs_parent := PFail, hs_child := CKilled\<rparr>)"
| cgroup_none: "hs_parent s = PCgroup \<Longrightarrow> \<not> sp_limits c \<Longrightarrow> hs_step c s (s\<lparr>hs_parent := PBarrier\<rparr>)"
| cgroup_assigned: "hs_parent s = PCgroup \<Longrightarrow> sp_limits c \<Longrightarrow> hs_step c s (s\<lparr>hs_parent := PBarrier, hs_cgroup := True\<rparr>)"
| cgroup_failed: "hs_parent s = PCgroup \<Longrightarrow> sp_limits c \<Longrightarrow> hs_step c s (s\<lparr>hs_parent := PFail, hs_child := CKilled\<rparr>)"
| barrier_open: "hs_parent s = PBarrier \<Longrightarrow>
     hs_step c s (s\<lparr>hs_parent := (if sp_veth c then PVethWait else PStdout), hs_barrier := hs_barrier s + 1\<rparr>)"
| netns_ready: "hs_parent s = PVethWait \<Longrightarrow> 0 < hs_net_up s \<Longrightarrow>
     hs_step c s (s\<lparr>hs_parent := PVethSetup, hs_net_up := hs_net_up s - 1\<rparr>)"
| veth_created: "hs_parent s = PVethSetup \<Longrightarrow> hs_step c s (s\<lparr>hs_parent := PVethAck, hs_veth := True\<rparr>)"
| veth_failed: "hs_parent s = PVethSetup \<Longrightarrow> hs_step c s (s\<lparr>hs_parent := PFail, hs_child := CKilled\<rparr>)"
| veth_ack: "hs_parent s = PVethAck \<Longrightarrow>
     hs_step c s (s\<lparr>hs_parent := PStdout, hs_net_down := hs_net_down s + 1\<rparr>)"
| veth_ack_failed: "hs_parent s = PVethAck \<Longrightarrow> hs_step c s (s\<lparr>hs_parent := PFail, hs_child := CKilled\<rparr>)"
| stdout_registered: "hs_parent s = PStdout \<Longrightarrow> hs_step c s (s\<lparr>hs_parent := PStderr\<rparr>)"
| stderr_registered: "hs_parent s = PStderr \<Longrightarrow> hs_step c s (s\<lparr>hs_parent := PDone\<rparr>)"
| stream_failed: "hs_parent s \<in> {PStdout, PStderr} \<Longrightarrow> hs_step c s (s\<lparr>hs_parent := PLost\<rparr>)"
| stream_failed_cgroup: "hs_parent s \<in> {PStdout, PStderr} \<Longrightarrow> hs_cgroup s \<Longrightarrow>
     hs_step c s (s\<lparr>hs_parent := PLost, hs_child := CKilled\<rparr>)"
| child_barrier: "hs_child s = CBarrier \<Longrightarrow> 0 < hs_barrier s \<Longrightarrow>
     hs_step c s (s\<lparr>hs_child := (if sp_userns c then CUserns else CNamespaces), hs_barrier := hs_barrier s - 1\<rparr>)"
| child_userns: "hs_child s = CUserns \<Longrightarrow>
     hs_step c s (s\<lparr>hs_child := CUsernsWait, hs_user_up := hs_user_up s + 1\<rparr>)"
| child_userns_failed: "hs_child s = CUserns \<Longrightarrow> hs_step c s (s\<lparr>hs_child := CExit\<rparr>)"
| child_userns_ack: "hs_child s = CUsernsWait \<Longrightarrow> 0 < hs_user_down s \<Longrightarrow>
     hs_step c s (s\<lparr>hs_child := CNamespaces, hs_user_down := hs_user_down s - 1\<rparr>)"
| child_namespaces: "hs_child s = CNamespaces \<Longrightarrow>
     hs_step c s (if sp_veth c then s\<lparr>hs_child := CNetWait, hs_net_up := hs_net_up s + 1\<rparr> else s\<lparr>hs_child := CSetup\<rparr>)"
| child_namespaces_failed: "hs_child s = CNamespaces \<Longrightarrow> hs_step c s (s\<lparr>hs_child := CExit\<rparr>)"
| child_veth_id: "hs_child s = CNetWait \<Longrightarrow> 0 < hs_net_down s \<Longrightarrow>
     hs_step c s (s\<lparr>hs_child := CSetup, hs_net_down := hs_net_down s - 1\<rparr>)"
| child_exec: "hs_child s = CSetup \<Longrightarrow> hs_step c s (s\<lparr>hs_child := CExec\<rparr>)"
| child_setup_failed: "hs_child s = CSetup \<Longrightarrow> hs_step c s (s\<lparr>hs_child := CExit\<rparr>)"

inductive hs_reach :: "spawn_config \<Rightarrow> handshake \<Rightarrow> bool" for c where
  start: "hs_reach c (hs_init c)"
| step: "hs_reach c s \<Longrightarrow> hs_step c s s' \<Longrightarrow> hs_reach c s'"

definition hs_stuck :: "spawn_config \<Rightarrow> handshake \<Rightarrow> bool" where
  "hs_stuck c s = (\<forall>s'. \<not> hs_step c s s')"

section \<open>Exit codes\<close>

datatype wait_status = Exited nat | Signaled nat | OtherStatus

definition extract_exit_code :: "wait_status \<Rightarrow> int" where
  "extract_exit_code status =
     (case status of Exited n \<Rightarrow> int n | Signaled n \<Rightarrow> 128 + int n | OtherStatus \<Rightarrow> - 1)"

text \<open>The intermediate process of a PID namespace waits for the command and exits with its
  code; \<open>_exit\<close> keeps the low eight bits.\<close>

definition intermediate_exit :: "wait_status \<Rightarrow> wait_status" where
  "intermediate_exit status =
     Exited ((case status of Exited n \<Rightarrow> n | Signaled n \<Rightarrow> 128 + n | OtherStatus \<Rightarrow> 1) mod 256)"

text \<open>\<open>JailHandle::wait\<close>, called \<open>now\<close>; times count from the start of the jail.  The process ends by
  itself at some time with a status, or is killed when the time that remains runs out; a timeout of
  zero seconds means none.  When the time has run out already, a process that has ended still counts
  as timed out unless the first look at it (\<open>prompt\<close>) finds it ended; the kill of an ended process
  changes nothing, and its own status is returned.  Then the tasks that drain the two streams are
  awaited: \<open>drained\<close> gives the time at which both have ended, for a process that is dead from some
  time on, or \<open>None\<close> if a stream stays open.\<close>

definition spawn_timeout :: "nat \<Rightarrow> nat option" where
  "spawn_timeout timeout_secs = (if 0 < timeout_secs then Some timeout_secs else None)"

record jail_output =
  out_exit_code :: int
  out_timed_out :: bool

definition wait_process ::
  "nat option \<Rightarrow> bool \<Rightarrow> nat \<Rightarrow> (nat \<times> wait_status) option \<Rightarrow> (nat \<times> jail_output) option" where
  "wait_process timeout prompt now ends =
     (let by_itself = (\<lambda>at status late. Some (max now at, \<lparr>out_exit_code = extract_exit_code status, out_timed_out = late\<rparr>));
          killed = (\<lambda>limit. Some (max now limit, \<lparr>out_exit_code = extract_exit_code (Signaled 9), out_timed_out = True\<rparr>))
      in case (timeout, ends) of
           (None, None) \<Rightarrow> None
         | (None, Some (at, status)) \<Rightarrow> by_itself at status False
         | (Some limit, None) \<Rightarrow> killed limit
         | (Some limit, Some (at, status)) \<Rightarrow>
             if at \<le> now then by_itself at status (limit \<le> now \<and> \<not> prompt)
             else if at \<le> limit then by_itself at status False
             else killed limit)"

definition wait_jail ::
  "nat option \<Rightarrow> bool \<Rightarrow> nat \<Rightarrow> (nat \<times> wait_status) option \<Rightarrow> (nat \<Rightarrow> nat option) \<Rightarrow> (nat \<times> jail_output) option" where
  "wait_jail timeout prompt now ends drained =
     (case wait_process timeout prompt now ends of
        None \<Rightarrow> None
      | Some (dead, output) \<Rightarrow> map_option (\<lambda>eof. (max dead eof, output)) (drained dead))"

lemma wait_process_None [simp]: "wait_process timeout prompt now ends = None \<longleftrightarrow> timeout = None \<and> ends = None"
  by (auto simp: wait_process_def Let_def split: option.splits prod.splits)

lemma wait_process_forever [simp]: "wait_process None prompt now None = None"
  by simp

lemma wait_process_time:
  assumes "wait_process timeout prompt now ends = Some (t, output)"
  shows "now \<le> t \<and> (\<forall>limit. timeout = Some limit \<longrightarrow> t \<le> max now limit) \<and>
    (out_timed_out output \<longrightarrow> (\<exists>limit. timeout = Some limit \<and> limit \<le> t))"
  using assms by (auto simp: wait_process_def Let_def split: option.splits prod.splits if_splits)

text \<open>A wait with a limit returns by then when the streams end with the process, and never when one of
  them stays open.\<close>

lemma wait_jail_limit:
  "\<exists>t output. wait_jail (Some limit) prompt now ends Some = Some (t, output) \<and> t \<le> max now limit"
proof -
  obtain t res where "wait_process (Some limit) prompt now ends = Some (t, res)"
    using wait_process_None [of "Some limit" prompt now ends] by (cases "wait_process (Some limit) prompt now ends") auto
  then show ?thesis
    using wait_process_time by (simp add: wait_jail_def)
qed

lemma wait_jail_open: "wait_jail timeout prompt now ends (\<lambda>_. None) = None"
  by (simp add: wait_jail_def split: option.split prod.split)

section \<open>Invariant\<close>

text \<open>Without a user namespace: where the child can be, and what the pipes hold, for each point
  of the parent.\<close>

definition hs_limited :: "spawn_config \<Rightarrow> handshake \<Rightarrow> bool" where
  "hs_limited c s = (hs_cgroup s = sp_limits c)"

definition hs_child_free :: "spawn_config \<Rightarrow> handshake \<Rightarrow> bool" where
  "hs_child_free c s =
     (if sp_veth c then hs_veth s \<and> (hs_child s = CNetWait \<and> hs_net_down s = 1 \<or> hs_child s \<in> {CSetup, CExec, CExit})
      else hs_child s = CBarrier \<and> hs_barrier s = 1 \<or> hs_child s \<in> {CNamespaces, CSetup, CExec, CExit})"

definition hs_inv :: "spawn_config \<Rightarrow> handshake \<Rightarrow> bool" where
  "hs_inv c s =
     (case hs_parent s of
        PCgroup \<Rightarrow> hs_child s = CBarrier \<and> hs_barrier s = 0 \<and> hs_net_up s = 0 \<and> hs_net_down s = 0 \<and> \<not> hs_cgroup s
      | PBarrier \<Rightarrow> hs_child s = CBarrier \<and> hs_barrier s = 0 \<and> hs_net_up s = 0 \<and> hs_net_down s = 0 \<and> hs_limited c s
      | PVethWait \<Rightarrow> sp_veth c \<and> hs_limited c s \<and> hs_net_down s = 0 \<and>
          (if hs_child s = CNetWait then hs_net_up s = 1
           else hs_net_up s = 0 \<and> (hs_child s = CBarrier \<and> hs_barrier s = 1 \<or> hs_child s \<in> {CNamespaces, CExit}))
      | PVethSetup \<Rightarrow> sp_veth c \<and> hs_limited c s \<and> hs_net_down s = 0 \<and> hs_child s = CNetWait
      | PVethAck \<Rightarrow> sp_veth c \<and> hs_limited c s \<and> hs_net_down s = 0 \<and> hs_child s = CNetWait \<and> hs_veth s
      | PStdout \<Rightarrow> hs_limited c s \<and> hs_child_free c s
      | PStderr \<Rightarrow> hs_limited c s \<and> hs_child_free c s
      | PDone \<Rightarrow> hs_limited c s \<and> hs_child_free c s
      | PLost \<Rightarrow> hs_limited c s \<and> (hs_child_free c s \<or> hs_child s = CKilled \<and> sp_limits c)
      | PFail \<Rightarrow> hs_child s = CKilled
      | _ \<Rightarrow> False)"

lemmas hs_inv_defs = hs_inv_def hs_limited_def hs_child_free_def

lemma hs_inv_init: "\<not> sp_userns c \<Longrightarrow> hs_inv c (hs_init c)"
  by (simp add: hs_inv_def hs_init_def)

lemma hs_inv_step:
  assumes "hs_step c s s'" "hs_inv c s" "\<not> sp_userns c"
  shows "hs_inv c s'"
  using assms
  by (cases rule: hs_step.cases) (simp_all add: hs_inv_defs split: parent_pc.splits if_splits, auto)

lemma hs_reach_inv:
  assumes "hs_reach c s" "\<not> sp_userns c"
  shows "hs_inv c s"
  using assms by (induction rule: hs_reach.induct) (auto intro: hs_inv_init hs_inv_step)

section \<open>Progress\<close>

definition parent_rank :: "parent_pc \<Rightarrow> nat" where
  "parent_rank p =
     (case p of PUsernsWait \<Rightarrow> 11 | PUsernsMap \<Rightarrow> 10 | PUsernsAck \<Rightarrow> 9 | PCgroup \<Rightarrow> 8 | PBarrier \<Rightarrow> 7
      | PVethWait \<Rightarrow> 6 | PVethSetup \<Rightarrow> 5 | PVethAck \<Rightarrow> 4 | PStdout \<Rightarrow> 2 | PStderr \<Rightarrow> 1
      | PDone \<Rightarrow> 0 | PFail \<Rightarrow> 0 | PLost \<Rightarrow> 0)"

definition child_rank :: "child_pc \<Rightarrow> nat" where
  "child_rank p =
     (case p of CBarrier \<Rightarrow> 6 | CUserns \<Rightarrow> 5 | CUsernsWait \<Rightarrow> 4 | CNamespaces \<Rightarrow> 3 | CNetWait \<Rightarrow> 2
      | CSetup \<Rightarrow> 1 | CExec \<Rightarrow> 0 | CExit \<Rightarrow> 0 | CKilled \<Rightarrow> 0)"

definition hs_rank :: "handshake \<Rightarrow> nat" where
  "hs_rank s = parent_rank (hs_parent s) + child_rank (hs_child s)"

lemma hs_step_rank:
  assumes "hs_step c s s'"
  shows "hs_rank s' < hs_rank s"
  using assms
  by (cases rule: hs_step.cases) (auto simp: hs_rank_def parent_rank_def child_rank_def)

lemma hs_step_wf: "wf {(s', s). hs_step c s s'}"
  by (rule wf_subset [OF wf_measure [of hs_rank]]) (auto dest: hs_step_rank)

lemma hs_userns_no_step:
  assumes "sp_userns c"
  shows "\<not> hs_step c (hs_init c) s"
proof
  assume "hs_step c (hs_init c) s"
  then show False
    using assms by (cases rule: hs_step.cases) (simp_all add: hs_init_def)
qed

lemma hs_userns_reach:
  assumes "hs_reach c s" "sp_userns c"
  shows "s = hs_init c"
  using assms by (induction rule: hs_reach.induct) (auto dest: hs_userns_no_step)

lemma hs_stuckE:
  assumes stuck: "hs_stuck c s"
  shows "hs_parent s \<notin> {PCgroup, PBarrier, PVethSetup, PVethAck, PStdout, PStderr}"
    and "hs_parent s = PVethWait \<Longrightarrow> hs_net_up s = 0"
    and "hs_child s \<notin> {CNamespaces, CSetup}"
    and "hs_child s = CBarrier \<Longrightarrow> hs_barrier s = 0"
    and "hs_child s = CNetWait \<Longrightarrow> hs_net_down s = 0"
  using stuck cgroup_none [of s c] cgroup_assigned [of s c] unfolding hs_stuck_def by (auto intro: hs_step.intros)

text \<open>Where a spawn without a user namespace can come to rest.\<close>

definition hs_outcome :: "spawn_config \<Rightarrow> handshake \<Rightarrow> bool" where
  "hs_outcome c s =
     (hs_parent s = PDone \<and> hs_child s \<in> {CExec, CExit} \<or>
      hs_parent s = PFail \<and> hs_child s = CKilled \<or>
      hs_parent s = PLost \<and> hs_child s \<in> {CExec, CExit, CKilled} \<or>
      sp_veth c \<and> hs_parent s = PVethWait \<and> hs_child s = CExit \<and> hs_net_up s = 0)"

lemma hs_outcome_stuck: "hs_outcome c s \<Longrightarrow> hs_stuck c s"
  unfolding hs_outcome_def hs_stuck_def by (auto elim: hs_step.cases)

lemma hs_stuck_outcome:
  assumes "hs_reach c s" "\<not> sp_userns c" "hs_stuck c s"
  shows "hs_outcome c s"
  using hs_reach_inv [OF assms(1,2)] hs_stuckE [OF assms(3)]
  by (simp add: hs_inv_defs hs_outcome_def split: parent_pc.splits if_splits) auto


text \<open>One schedule: the parent moves when it can, the child otherwise, and every system call
  succeeds.\<close>

definition hs_child_next :: "spawn_config \<Rightarrow> handshake \<Rightarrow> handshake" where
  "hs_child_next c s =
     (case hs_child s of
        CBarrier \<Rightarrow> if 0 < hs_barrier s
          then s\<lparr>hs_child := (if sp_userns c then CUserns else CNamespaces), hs_barrier := hs_barrier s - 1\<rparr> else s
      | CNamespaces \<Rightarrow> if sp_veth c then s\<lparr>hs_child := CNetWait, hs_net_up := hs_net_up s + 1\<rparr> else s\<lparr>hs_child := CSetup\<rparr>
      | CNetWait \<Rightarrow> if 0 < hs_net_down s then s\<lparr>hs_child := CSetup, hs_net_down := hs_net_down s - 1\<rparr> else s
      | CSetup \<Rightarrow> s\<lparr>hs_child := CExec\<rparr>
      | _ \<Rightarrow> s)"

definition hs_next :: "spawn_config \<Rightarrow> handshake \<Rightarrow> handshake" where
  "hs_next c s =
     (case hs_parent s of
        PCgroup \<Rightarrow> if sp_limits c then s\<lparr>hs_parent := PBarrier, hs_cgroup := True\<rparr> else s\<lparr>hs_parent := PBarrier\<rparr>
      | PBarrier \<Rightarrow> s\<lparr>hs_parent := (if sp_veth c then PVethWait else PStdout), hs_barrier := hs_barrier s + 1\<rparr>
      | PVethWait \<Rightarrow> if 0 < hs_net_up s then s\<lparr>hs_parent := PVethSetup, hs_net_up := hs_net_up s - 1\<rparr> else hs_child_next c s
      | PVethSetup \<Rightarrow> s\<lparr>hs_parent := PVethAck, hs_veth := True\<rparr>
      | PVethAck \<Rightarrow> s\<lparr>hs_parent := PStdout, hs_net_down := hs_net_down s + 1\<rparr>
      | PStdout \<Rightarrow> s\<lparr>hs_parent := PStderr\<rparr>
      | PStderr \<Rightarrow> s\<lparr>hs_parent := PDone\<rparr>
      | _ \<Rightarrow> hs_child_next c s)"

lemma hs_child_next_step: "hs_child_next c s = s \<or> hs_step c s (hs_child_next c s)"
  using child_barrier [of s c] child_namespaces [of s c] child_veth_id [of s c] child_exec [of s c]
  by (cases "hs_child s") (auto simp: hs_child_next_def)

lemma hs_next_step: "hs_next c s = s \<or> hs_step c s (hs_next c s)"
  using hs_child_next_step [of c s] cgroup_none [of s c] cgroup_assigned [of s c] barrier_open [of s c]
    netns_ready [of s c] veth_created [of s c] veth_ack [of s c] stdout_registered [of s c] stderr_registered [of s c]
  by (cases "hs_parent s") (auto simp: hs_next_def)

lemma hs_next_reach: "hs_reach c ((hs_next c ^^ n) (hs_init c))"
proof (induction n)
  case (Suc n)
  then show ?case
    using hs_next_step [of c "(hs_next c ^^ n) (hs_init c)"] by (auto intro: hs_reach.step)
qed (simp add: hs_reach.start)

lemmas hs_run_simps = eval_nat_numeral hs_next_def hs_child_next_def hs_init_def

lemma hs_next_started:
  assumes "\<not> sp_userns c"
  shows "hs_child ((hs_next c ^^ 11) (hs_init c)) = CExec" "hs_parent ((hs_next c ^^ 11) (hs_init c)) = PDone"
  using assms by (cases "sp_veth c"; cases "sp_limits c"; simp add: hs_run_simps)+

text \<open>The registration of the standard output fails, and the child goes on.\<close>

definition hs_lost :: "spawn_config \<Rightarrow> handshake" where
  "hs_lost c =
     (hs_child_next c ^^ 3) (((hs_next c ^^ (if sp_veth c then 7 else 2)) (hs_init c))\<lparr>hs_parent := PLost\<rparr>)"

lemma hs_child_next_reach: "hs_reach c s \<Longrightarrow> hs_reach c ((hs_child_next c ^^ n) s)"
proof (induction n)
  case (Suc n)
  then show ?case
    using hs_child_next_step [of c "(hs_child_next c ^^ n) s"] by (auto intro: hs_reach.step)
qed simp

lemma hs_lost_reach:
  assumes "\<not> sp_userns c"
  shows "hs_reach c (hs_lost c)" "hs_parent (hs_lost c) = PLost" "hs_child (hs_lost c) = CExec"
proof -
  let ?s = "(hs_next c ^^ (if sp_veth c then 7 else 2)) (hs_init c)"
  have "hs_parent ?s = PStdout"
    using assms by (cases "sp_veth c"; cases "sp_limits c"; simp add: hs_run_simps)
  then have "hs_step c ?s (?s\<lparr>hs_parent := PLost\<rparr>)"
    by (simp add: stream_failed)
  then show "hs_reach c (hs_lost c)"
    unfolding hs_lost_def by (rule hs_child_next_reach [OF hs_reach.step [OF hs_next_reach]])
  show "hs_parent (hs_lost c) = PLost" "hs_child (hs_lost c) = CExec"
    using assms by (cases "sp_veth c"; cases "sp_limits c"; simp add: hs_lost_def hs_run_simps)+
qed

section \<open>Properties\<close>

text \<open>C7. In every interleaving of parent and child, the child of a jail with limits runs code past the
  barrier only after the parent has put it into its cgroup, and the command is executed only after the
  veth pair of an allowlist jail has been set up.  A spawn that fails under the guard leaves no child
  running, and one that succeeds has not killed it.  A spawn that fails after the guard has been
  disarmed, because an output pipe cannot be registered, does not kill the child by itself: the child is
  killed only where there is a cgroup whose drop finds it, and for every jail without a user namespace
  there is a run in which the caller gets an error while the command is executed.\<close>
theorem spawn_ordering:
  assumes "hs_reach c s"
  shows "(hs_child s \<notin> {CBarrier, CKilled} \<and> sp_limits c \<longrightarrow> hs_cgroup s) \<and>
    (hs_child s = CExec \<and> sp_veth c \<longrightarrow> hs_veth s) \<and>
    (hs_parent s = PFail \<longrightarrow> hs_child s = CKilled) \<and>
    (hs_parent s = PDone \<longrightarrow> hs_child s \<noteq> CKilled) \<and>
    (hs_parent s = PLost \<and> hs_child s = CKilled \<longrightarrow> hs_cgroup s) \<and>
    (\<not> sp_userns c \<longrightarrow> hs_reach c (hs_lost c) \<and> hs_parent (hs_lost c) = PLost \<and> hs_child (hs_lost c) = CExec)"
proof -
  have "hs_inv c s \<or> s = hs_init c"
    using assms hs_reach_inv hs_userns_reach by blast
  then have "(hs_child s \<notin> {CBarrier, CKilled} \<and> sp_limits c \<longrightarrow> hs_cgroup s) \<and>
    (hs_child s = CExec \<and> sp_veth c \<longrightarrow> hs_veth s) \<and> (hs_parent s = PFail \<longrightarrow> hs_child s = CKilled) \<and>
    (hs_parent s = PDone \<longrightarrow> hs_child s \<noteq> CKilled) \<and> (hs_parent s = PLost \<and> hs_child s = CKilled \<longrightarrow> hs_cgroup s)"
    by (auto simp: hs_inv_defs hs_init_def split: parent_pc.splits if_splits)
  then show ?thesis
    using hs_lost_reach by blast
qed

definition demo_spawn :: spawn_config where
  "demo_spawn = \<lparr>sp_userns = False, sp_limits = True, sp_veth = True\<rparr>"

definition demo_started :: handshake where
  "demo_started = (hs_next demo_spawn ^^ 11) (hs_init demo_spawn)"

lemma demo_started_reach: "hs_reach demo_spawn demo_started"
  by (simp only: demo_started_def hs_next_reach)

lemma demo_started_child: "hs_child demo_started = CExec" "hs_parent demo_started = PDone"
  by (simp_all add: demo_started_def demo_spawn_def hs_run_simps)

theorem spawn_ordering_witness:
  "hs_child demo_started = CExec \<and> sp_veth demo_spawn \<and> hs_cgroup demo_started \<and> hs_veth demo_started \<and>
   hs_parent (hs_lost demo_spawn) = PLost \<and> hs_child (hs_lost demo_spawn) = CExec"
  using spawn_ordering [OF demo_started_reach] demo_started_child by (simp add: demo_spawn_def)

text \<open>C30. Without a user namespace every run of the handshake is finite, and it comes to rest
  exactly when the jail is started or its child has reported a setup error (127), when the parent
  failed and has killed the child, when the parent failed after disarming the guard and the child has
  been executed, has exited or was killed with its cgroup, or - only for an allowlist jail - when the
  child exits before it has reported its network namespace: then the parent waits forever, since it
  holds the child's end of the socket pair open itself.  With every system call succeeding the command
  is executed.\<close>
theorem spawn_terminates:
  assumes "\<not> sp_userns c"
  shows "wf {(s', s). hs_step c s s'} \<and>
    (\<forall>s. hs_reach c s \<longrightarrow> hs_stuck c s \<longleftrightarrow> hs_outcome c s) \<and>
    hs_child ((hs_next c ^^ 11) (hs_init c)) = CExec \<and> hs_parent ((hs_next c ^^ 11) (hs_init c)) = PDone"
proof (intro conjI)
  show "\<forall>s. hs_reach c s \<longrightarrow> hs_stuck c s \<longleftrightarrow> hs_outcome c s"
    using assms hs_stuck_outcome hs_outcome_stuck by blast
qed (use assms hs_step_wf hs_next_started in simp_all)

definition demo_hang :: handshake where
  "demo_hang = ((hs_next demo_spawn ^^ 3) (hs_init demo_spawn))\<lparr>hs_child := CExit\<rparr>"

lemma demo_hang_reach: "hs_reach demo_spawn demo_hang"
proof -
  have "hs_child ((hs_next demo_spawn ^^ 3) (hs_init demo_spawn)) = CNamespaces"
    by (simp add: demo_spawn_def hs_run_simps)
  then show ?thesis
    unfolding demo_hang_def by (rule hs_reach.step [OF hs_next_reach child_namespaces_failed])
qed

theorem spawn_terminates_witness:
  "\<not> sp_userns demo_spawn \<and> hs_reach demo_spawn demo_hang \<and> hs_parent demo_hang = PVethWait \<and>
   hs_stuck demo_spawn demo_hang"
proof (intro conjI)
  have outcome: "hs_outcome demo_spawn demo_hang"
    by (simp add: hs_outcome_def demo_hang_def demo_spawn_def hs_run_simps)
  have "\<not> sp_userns demo_spawn"
    by (simp add: demo_spawn_def)
  from spawn_terminates [OF this] demo_hang_reach outcome
  show "hs_stuck demo_spawn demo_hang"
    by blast
qed (simp_all only: demo_hang_reach, simp_all add: demo_hang_def demo_spawn_def hs_run_simps)

text \<open>C33. With a user namespace, which is the default, the handshake cannot make a first step:
  the parent waits for the child's byte before it opens the barrier, and the child sends that
  byte only after the barrier.  No other state is reachable.\<close>
theorem userns_deadlock:
  assumes "jc_user_namespace config"
  shows "(hs_reach (spawn_config_of config) s \<longleftrightarrow> s = hs_init (spawn_config_of config)) \<and>
    hs_stuck (spawn_config_of config) (hs_init (spawn_config_of config))"
proof -
  have userns: "sp_userns (spawn_config_of config)"
    using assms by (simp add: spawn_config_of_def)
  then show ?thesis
    using hs_userns_reach hs_userns_no_step by (auto simp: hs_stuck_def intro: hs_reach.start)
qed

theorem userns_deadlock_witness:
  "jc_user_namespace jail_config_default \<and>
   hs_stuck (spawn_config_of jail_config_default) (hs_init (spawn_config_of jail_config_default)) \<and>
   \<not> hs_reach (spawn_config_of jail_config_default) demo_started"
proof -
  have userns: "jc_user_namespace jail_config_default"
    by (simp add: jail_config_default_def)
  have "hs_child demo_started \<noteq> hs_child (hs_init (spawn_config_of jail_config_default))"
    using demo_started_child by (simp add: hs_init_def)
  then have "demo_started \<noteq> hs_init (spawn_config_of jail_config_default)"
    by metis
  then show ?thesis
    using userns userns_deadlock [OF userns] by simp
qed

text \<open>The exit code a caller sees is that of the command, also through the process that
  waits in between when the jail has a PID namespace: an exit status is kept and death by signal
  \<open>n\<close> is \<open>128 + n\<close>.\<close>
lemma exit_code_transparent:
  "extract_exit_code (intermediate_exit (Exited (n mod 256))) = int (n mod 256) \<and>
   extract_exit_code (intermediate_exit (Signaled (n mod 128))) = extract_exit_code (Signaled (n mod 128))"
  by (simp add: extract_exit_code_def intermediate_exit_def)

end
