(* ===== verification/Sys_Program.thy ===== *)
theory Sys_Program
  imports Jail_Config "HOL-Library.Sublist"
begin

text \<open>
  The child of a spawn as a sequence of system calls.  The setup code of
  \<open>agentjail/src/exec.rs\<close> and \<open>agentjail/src/mount.rs\<close> runs straight through: which call comes
  next depends on the configuration and on what exists on the host, and a failing call is
  either passed on (the child exits with 127) or ignored.  A setup is a list of instructions;
  the kernel is an argument of its execution that may refuse any call, depending on all calls
  made before.
\<close>

section \<open>System calls\<close>

text \<open>\<open>LandlockRestrict\<close> stands for the calls of the \<open>landlock\<close> crate up to \<open>restrict_self\<close>; it succeeds
  when they return without an error, whatever status they report.\<close>

datatype ns = NewUser | NewNs | NewPid | NewNet | NewIpc

datatype mflag = MBind | MRec | NoSuid | NoDev | NoExec | RdOnly

datatype 'bpf sysop =
    Unshare "ns list" | UsernsSignal | UsernsWait | NetnsSignal | VethIdRead | CloseSync
  | UdpSocket | LoopbackUp | AddAddr string "byte list" nat | LinkUp string | DefaultRoute "byte list"
  | MakePrivate string | GetRandom nat | Mkdir string nat | CreateDirAll string | CreateFile string
  | MountBind string string "mflag list" | MountRemount string "mflag list"
  | MountFs string string "mflag list" string
  | LandlockRestrict "(string \<times> access) list"
  | Chdir string | PivotRoot string string | Umount2Detach string
  | Setrlimit string nat | NoNewPrivs | CloseRangeCloexec nat | Fork | Pdeathsig
  | CapAmbientClear | SetSecurebits nat | CapBsetDrop nat | CapsetZero
  | LoadFilter 'bpf
  | Execve string "string list" "string list"

text \<open>Why the setup gives up without a system call having failed.\<close>

datatype refusal =
    UsernsNeedsFd | NoLandlock | OverlayNoName string | DuplicateFlavor string
  | InvalidCommand | NulArgument string | NulEnv string string

datatype 'bpf instr =
    Must "'bpf sysop"
  | Try "'bpf sysop"
  | Refuse refusal

datatype 'bpf outcome = Executed | Failed "'bpf sysop" | Refused refusal | Returned

type_synonym 'bpf sys_trace = "('bpf sysop \<times> bool) list"
type_synonym 'bpf sys_kernel = "'bpf sys_trace \<Rightarrow> 'bpf sysop \<Rightarrow> bool"

definition is_exec :: "'bpf sysop \<Rightarrow> bool" where
  "is_exec op = (case op of Execve c a e \<Rightarrow> True | _ \<Rightarrow> False)"

fun run_setup :: "'bpf sys_kernel \<Rightarrow> 'bpf sys_trace \<Rightarrow> 'bpf instr list \<Rightarrow> 'bpf sys_trace \<times> 'bpf outcome" where
  "run_setup k tr [] = (tr, Returned)"
| "run_setup k tr (Refuse e # is) = (tr, Refused e)"
| "run_setup k tr (Try op # is) = run_setup k (tr @ [(op, k tr op)]) is"
| "run_setup k tr (Must op # is) =
     (if \<not> k tr op then (tr @ [(op, False)], Failed op)
      else if is_exec op then (tr @ [(op, True)], Executed)
      else run_setup k (tr @ [(op, True)]) is)"

fun instr_op :: "'bpf instr \<Rightarrow> 'bpf sysop option" where
  "instr_op (Must op) = Some op"
| "instr_op (Try op) = Some op"
| "instr_op (Refuse e) = None"

definition required :: "'bpf instr list \<Rightarrow> 'bpf sysop list" where
  "required is = List.map_filter (\<lambda>i. case i of Must op \<Rightarrow> Some op | _ \<Rightarrow> None) is"

definition attempted :: "'bpf instr list \<Rightarrow> 'bpf sysop list" where
  "attempted is = List.map_filter instr_op is"

definition succeeded :: "'bpf sys_trace \<Rightarrow> 'bpf sysop list" where
  "succeeded tr = map fst (filter snd tr)"

text \<open>A setup ends with the \<open>execve\<close> and has no other.\<close>

definition exec_last :: "'bpf instr list \<Rightarrow> bool" where
  "exec_last is = list_all (\<lambda>i. case i of Must op \<Rightarrow> \<not> is_exec op | _ \<Rightarrow> True) (butlast is)"

section \<open>What an executed setup has done\<close>

lemma required_simps [simp]:
  "required [] = []"
  "required (Must op # is) = op # required is"
  "required (Try op # is) = required is"
  "required (Refuse e # is) = required is"
  "required (xs @ ys) = required xs @ required ys"
  by (simp_all add: required_def List.map_filter_def)

lemma attempted_simps [simp]:
  "attempted [] = []"
  "attempted (Must op # is) = op # attempted is"
  "attempted (Try op # is) = op # attempted is"
  "attempted (Refuse e # is) = attempted is"
  "attempted (xs @ ys) = attempted xs @ attempted ys"
  by (simp_all add: attempted_def List.map_filter_def)

lemma succeeded_simps [simp]:
  "succeeded [] = []"
  "succeeded ((op, True) # tr) = op # succeeded tr"
  "succeeded ((op, False) # tr) = succeeded tr"
  "succeeded (tr @ tr') = succeeded tr @ succeeded tr'"
  by (simp_all add: succeeded_def)

lemma exec_last_Cons:
  "exec_last (i # is) \<Longrightarrow> is \<noteq> [] \<Longrightarrow> exec_last is \<and> (case i of Must op \<Rightarrow> \<not> is_exec op | _ \<Rightarrow> True)"
  by (simp add: exec_last_def)

text \<open>The instructions of a setup that reached its command correspond one to one to the calls
  made, each answered by the kernel after the calls before it, the required ones with success.\<close>

definition answers :: "'bpf sys_kernel \<Rightarrow> 'bpf sys_trace \<Rightarrow> 'bpf instr list \<Rightarrow> bool" where
  "answers k tr is =
     (length tr = length is \<and>
      (\<forall>i < length is. \<exists>op. instr_op (is ! i) = Some op \<and> tr ! i = (op, k (take i tr) op) \<and>
         (is ! i = Must op \<longrightarrow> k (take i tr) op)))"

lemma run_executed:
  assumes "run_setup k tr is = (tr', Executed)" "exec_last is"
  shows "\<exists>new. tr' = tr @ new \<and> length new = length is \<and>
    (\<forall>i < length is. \<exists>op. instr_op (is ! i) = Some op \<and> new ! i = (op, k (tr @ take i new) op) \<and>
         (is ! i = Must op \<longrightarrow> k (tr @ take i new) op))"
  using assms
proof (induction k tr "is" rule: run_setup.induct)
  case (3 k tr op "is")
  then have "is \<noteq> []" "exec_last is"
    by (auto dest: exec_last_Cons split: prod.splits)
  from 3 this obtain new where new: "tr' = (tr @ [(op, k tr op)]) @ new" "length new = length is"
    "\<forall>i < length is. \<exists>op'. instr_op (is ! i) = Some op' \<and>
       new ! i = (op', k ((tr @ [(op, k tr op)]) @ take i new) op') \<and>
       (is ! i = Must op' \<longrightarrow> k ((tr @ [(op, k tr op)]) @ take i new) op')"
    by auto
  then show ?case
    by (intro exI [of _ "(op, k tr op) # new"]) (auto simp: less_Suc_eq_0_disj)
next
  case (4 k tr op "is")
  show ?case
  proof (cases "is_exec op")
    case True
    with 4 have "is = []"
      by (cases "is") (auto dest: exec_last_Cons)
    then show ?thesis
      using 4 True by (intro exI [of _ "[(op, True)]"]) (auto split: if_splits)
  next
    case False
    then have "is \<noteq> []" "exec_last is" "k tr op"
      using 4 by (auto dest: exec_last_Cons split: if_splits)
    from 4 this False obtain new where new: "tr' = (tr @ [(op, True)]) @ new" "length new = length is"
      "\<forall>i < length is. \<exists>op'. instr_op (is ! i) = Some op' \<and>
         new ! i = (op', k ((tr @ [(op, True)]) @ take i new) op') \<and>
         (is ! i = Must op' \<longrightarrow> k ((tr @ [(op, True)]) @ take i new) op')"
      by auto
    then show ?thesis
      using \<open>k tr op\<close> by (intro exI [of _ "(op, True) # new"]) (auto simp: less_Suc_eq_0_disj)
  qed
qed auto

lemma run_executed_answers:
  assumes "run_setup k [] is = (tr, Executed)" "exec_last is"
  shows "answers k tr is"
  using run_executed [OF assms] by (auto simp: answers_def)

lemma answers_Nil [simp]: "answers k tr [] = (tr = [])"
  by (simp add: answers_def)

lemma answers_attempted:
  assumes "answers k tr is"
  shows "map fst tr = attempted is"
proof -
  have "map Some (map fst tr) = map instr_op is"
    using assms by (intro nth_equalityI) (auto simp: answers_def)
  moreover have "attempted is = xs" if "map Some xs = map instr_op is" for xs
    using that by (induction "is" arbitrary: xs) (auto simp: attempted_def List.map_filter_def)
  ultimately show ?thesis
    by metis
qed

lemma answers_required:
  assumes "answers k tr is"
  shows "subseq (required is) (succeeded tr)"
proof -
  have "subseq (required is) (succeeded tr)"
    if "length tr = length is"
      "\<forall>i < length is. \<exists>op. instr_op (is ! i) = Some op \<and> fst (tr ! i) = op \<and> (is ! i = Must op \<longrightarrow> snd (tr ! i))"
    for tr :: "'a sys_trace" and "is"
    using that
  proof (induction tr "is" rule: list_induct2)
    case (Cons c tr i "is")
    then have rest: "subseq (required is) (succeeded tr)"
      by (metis Suc_less_eq length_Cons nth_Cons_Suc)
    from Cons.prems have "\<exists>op. instr_op i = Some op \<and> fst c = op \<and> (i = Must op \<longrightarrow> snd c)"
      by (metis length_Cons nth_Cons_0 zero_less_Suc)
    then show ?case
      using rest by (cases i; cases c; cases "snd c") auto
  qed simp
  with assms show ?thesis
    unfolding answers_def by (metis fst_conv snd_conv)
qed

lemma answers_nth_Must:
  assumes "answers k tr is" "i < length is" "is ! i = Must op"
  shows "i < length tr" "tr ! i = (op, True)" "k (take i tr) op"
  using assms by (auto simp: answers_def)

lemma answers_nth_op:
  assumes "answers k tr is" "i < length tr" "fst (tr ! i) = op"
  shows "is ! i = Must op \<or> is ! i = Try op"
proof -
  from assms have "instr_op (is ! i) = Some op"
    unfolding answers_def by (metis fst_conv)
  then show ?thesis
    by (cases "is ! i") auto
qed

text \<open>A call the kernel always refuses once another has succeeded cannot come after it in a setup
  that reaches its command.\<close>

lemma blocked_never_executes:
  assumes "exec_last (xs @ Must a # ys @ Must b # zs)"
    and "\<And>tr. (a, True) \<in> set tr \<Longrightarrow> \<not> k tr b"
  shows "snd (run_setup k [] (xs @ Must a # ys @ Must b # zs)) \<noteq> Executed"
proof
  let ?is = "xs @ Must a # ys @ Must b # zs" and ?j = "length xs + Suc (length ys)"
  assume "snd (run_setup k [] ?is) = Executed"
  then obtain tr where "run_setup k [] ?is = (tr, Executed)"
    by (cases "run_setup k [] ?is") simp
  then have answers: "answers k tr ?is"
    using assms(1) run_executed_answers by blast
  have a: "tr ! length xs = (a, True)" "length xs < length tr"
    using answers_nth_Must [OF answers, of "length xs" a] by (simp_all add: nth_append)
  have "k (take ?j tr) b"
    using answers_nth_Must(3) [OF answers, of ?j b] by (simp add: nth_append)
  moreover have "(a, True) \<in> set (take ?j tr)"
    unfolding in_set_conv_nth using a by (intro exI [of _ "length xs"]) simp
  ultimately show False
    using assms(2) by blast
qed

text \<open>A call that the kernel accepts and that leaves no mark on its later answers can be left out.\<close>

definition ignores :: "('bpf sysop \<Rightarrow> bool) \<Rightarrow> 'bpf sys_kernel \<Rightarrow> bool" where
  "ignores f k = (\<forall>tr op. k tr op = k (filter (\<lambda>(c, ok). \<not> f c) tr) op)"

lemma run_ignores:
  assumes "ignores f k" "filter (\<lambda>(c, ok). \<not> f c) tr = filter (\<lambda>(c, ok). \<not> f c) tr'"
  shows "snd (run_setup k tr is) = snd (run_setup k tr' is)"
  using assms(2)
proof (induction "is" arbitrary: tr tr')
  case (Cons i "is")
  have same: "k tr op = k tr' op" for op
    using assms(1) Cons.prems unfolding ignores_def by metis
  show ?case
  proof (cases i)
    case (Must op)
    have "snd (run_setup k (tr @ [(op, True)]) is) = snd (run_setup k (tr' @ [(op, True)]) is)"
      by (rule Cons.IH) (simp add: Cons.prems)
    then show ?thesis
      by (simp add: Must same)
  next
    case (Try op)
    have "snd (run_setup k (tr @ [(op, k tr' op)]) is) = snd (run_setup k (tr' @ [(op, k tr' op)]) is)"
      by (rule Cons.IH) (simp add: Cons.prems)
    then show ?thesis
      by (simp add: Try same)
  qed simp
qed simp

lemma run_without:
  assumes "ignores f k" "f op" "\<not> is_exec op" "\<And>tr. k tr op"
    "filter (\<lambda>(c, ok). \<not> f c) tr = filter (\<lambda>(c, ok). \<not> f c) tr'"
  shows "snd (run_setup k tr (xs @ Must op # ys)) = snd (run_setup k tr' (xs @ ys))"
  using assms(5)
proof (induction xs arbitrary: tr tr')
  case Nil
  have "snd (run_setup k (tr @ [(op, True)]) ys) = snd (run_setup k tr' ys)"
    using assms(1,2) Nil by (intro run_ignores [of f]) simp_all
  then show ?case
    using assms(3,4) by simp
next
  case (Cons i xs)
  have same: "k tr op = k tr' op" for op
    using assms(1) Cons.prems unfolding ignores_def by metis
  show ?case
  proof (cases i)
    case (Must op')
    have "snd (run_setup k (tr @ [(op', True)]) (xs @ Must op # ys)) = snd (run_setup k (tr' @ [(op', True)]) (xs @ ys))"
      by (rule Cons.IH) (simp add: Cons.prems)
    then show ?thesis
      by (simp add: Must same)
  next
    case (Try op')
    have "snd (run_setup k (tr @ [(op', k tr' op')]) (xs @ Must op # ys)) =
        snd (run_setup k (tr' @ [(op', k tr' op')]) (xs @ ys))"
      by (rule Cons.IH) (simp add: Cons.prems)
    then show ?thesis
      by (simp add: Try same)
  qed simp
qed

end
