(* ===== verification/Jail_Mounts.thy ===== *)
theory Jail_Mounts
  imports Sys_Program Paths Phantom_Token Cgroup "HOL-Library.Char_ord" "HOL-Library.List_Lexorder"
begin

text \<open>
  The file system of a jail: \<open>agentjail/src/mount.rs\<close> and \<open>agentjail/src/gpu.rs\<close>.  What exists on
  the host when the child looks is the record \<open>host\<close>; its field \<open>h_jail_is_dir\<close> is the same question
  asked after the child has changed its root.  Each function gives the instructions its call
  performs.  Two fields stand for the \<open>landlock\<close> crate on the running kernel: whether \<open>handle_access\<close>
  accepts the rights of the first version, and the status that \<open>restrict_self\<close> reports.
\<close>

datatype ruleset_status = FullyEnforced | PartiallyEnforced | NotEnforced

record host =
  h_exists :: "string \<Rightarrow> bool"
  h_is_dir :: "string \<Rightarrow> bool"
  h_is_file :: "string \<Rightarrow> bool"
  h_opens :: "string \<Rightarrow> bool"
  h_read_dir :: "string \<Rightarrow> string list option"
  h_canonicalize :: "string \<Rightarrow> string option"
  h_ldconfig :: "string option"
  h_landlock :: bool
  h_ruleset :: ruleset_status
  h_temp_dir :: string
  h_random :: "byte list"
  h_jail_is_dir :: "string \<Rightarrow> bool"

section \<open>Mounts\<close>

definition do_bind_mount :: "host \<Rightarrow> string \<Rightarrow> string \<Rightarrow> access \<Rightarrow> bool \<Rightarrow> 'bpf instr list" where
  "do_bind_mount h src dst access nodev =
     (if \<not> h_exists h src then []
      else (if h_is_dir h src then [Must (CreateDirAll dst)]
            else (case path_parent dst of Some parent \<Rightarrow> [Must (CreateDirAll parent)] | None \<Rightarrow> []) @
                 [Must (CreateFile dst)]) @
           [Must (MountBind src dst [MBind]),
            Must (MountRemount dst ([MBind, NoSuid] @ (if nodev then [NoDev] else []) @
                                    (if access = ReadOnly then [RdOnly] else [])))])"

definition bind_mount :: "host \<Rightarrow> string \<Rightarrow> string \<Rightarrow> access \<Rightarrow> 'bpf instr list" where
  "bind_mount h src dst access = do_bind_mount h src dst access True"

definition bind_mount_dev :: "host \<Rightarrow> string \<Rightarrow> string \<Rightarrow> access \<Rightarrow> 'bpf instr list" where
  "bind_mount_dev h src dst access = do_bind_mount h src dst access False"

definition tmpfs_options :: "nat \<Rightarrow> string" where
  "tmpfs_options size_mb = ''size='' @ show_nat size_mb @ ''m,mode=1777''"

definition mount_tmpfs :: "string \<Rightarrow> nat \<Rightarrow> 'bpf instr list" where
  "mount_tmpfs dst size_mb =
     [Must (CreateDirAll dst), Must (MountFs ''tmpfs'' dst [NoSuid, NoDev] (tmpfs_options size_mb))]"

definition mount_tmpfs_noexec :: "string \<Rightarrow> nat \<Rightarrow> 'bpf instr list" where
  "mount_tmpfs_noexec dst size_mb =
     [Must (CreateDirAll dst), Must (MountFs ''tmpfs'' dst [NoSuid, NoDev, NoExec] (tmpfs_options size_mb))]"

definition mount_proc :: "string \<Rightarrow> 'bpf instr list" where
  "mount_proc dst =
     [Must (CreateDirAll dst), Must (MountFs ''proc'' dst [NoSuid, NoDev, NoExec] ''hidepid=invisible'')]"

definition bind_self :: "string \<Rightarrow> 'bpf instr list" where
  "bind_self p = [Must (MountBind p p [MBind, MRec])]"

definition jail_root :: "host \<Rightarrow> string" where
  "jail_root h = path_join (h_temp_dir h) (''agentjail-'' @ concat (map hex_of_byte (h_random h)))"

definition make_jail_root :: "host \<Rightarrow> 'bpf instr list" where
  "make_jail_root h = [Must (GetRandom 16), Must (Mkdir (jail_root h) 448)]"

definition pivot_into :: "string \<Rightarrow> 'bpf instr list" where
  "pivot_into new_root =
     [Must (Chdir new_root), Must (PivotRoot ''.'' ''.''), Must (Umount2Detach ''.''), Must (Chdir ''/'')]"

definition make_root_private :: "'bpf instr list" where
  "make_root_private = [Must (MakePrivate ''/'')]"

section \<open>The root file system\<close>

definition trim_slashes :: "string \<Rightarrow> string" where
  "trim_slashes p = dropWhile (\<lambda>c. c = CHR ''/'') p"

definition system_dirs :: "string list" where
  "system_dirs = [''/bin'', ''/lib'', ''/lib64'', ''/usr'']"

definition safe_etc_files :: "string list" where
  "safe_etc_files = [''ld.so.cache'', ''ld.so.conf'', ''resolv.conf'', ''nsswitch.conf'', ''passwd'',
     ''group'', ''ssl/certs/ca-certificates.crt'', ''ssl/openssl.cnf'']"

definition dev_ro :: "string list" where
  "dev_ro = [''/dev/zero'', ''/dev/urandom'', ''/dev/random'']"

definition dev_rw :: "string list" where
  "dev_rw = [''/dev/null'']"

fun overlay_mounts :: "host \<Rightarrow> string \<Rightarrow> string list \<Rightarrow> string list \<Rightarrow> 'bpf instr list" where
  "overlay_mounts h flavors_root seen [] = []"
| "overlay_mounts h flavors_root seen (overlay # rest) =
     (case file_name overlay of
        Some name \<Rightarrow>
          if \<not> utf8_valid name then [Refuse (OverlayNoName overlay)]
          else if name \<in> set seen then [Refuse (DuplicateFlavor name)]
          else bind_mount h overlay (path_join flavors_root name) ReadOnly @
               overlay_mounts h flavors_root (name # seen) rest
      | None \<Rightarrow> [Refuse (OverlayNoName overlay)])"

definition setup_root :: "host \<Rightarrow> string \<Rightarrow> string \<Rightarrow> string \<Rightarrow> bool \<Rightarrow> string list \<Rightarrow> 'bpf instr list" where
  "setup_root h new_root source output source_rw readonly_overlays =
     [Must (CreateDirAll new_root)] @
     bind_self new_root @
     bind_mount h source (path_join new_root ''workspace'') (if source_rw then ReadWrite else ReadOnly) @
     bind_mount h output (path_join new_root ''output'') ReadWrite @
     concat (map (\<lambda>dir. if \<not> h_exists h dir then []
                        else bind_mount h dir (path_join new_root (trim_slashes dir)) ReadOnly) system_dirs) @
     mount_tmpfs (path_join new_root ''etc'') 1 @
     concat (map (\<lambda>name. bind_mount h (path_join ''/etc'' name)
                           (path_join (path_join new_root ''etc'') name) ReadOnly) safe_etc_files) @
     mount_tmpfs_noexec (path_join new_root ''tmp'') 100 @
     mount_proc (path_join new_root ''proc'') @
     [Must (CreateDirAll (path_join new_root ''dev''))] @
     concat (map (\<lambda>node. bind_mount_dev h node (path_join new_root (trim_slashes node)) ReadWrite) dev_rw) @
     concat (map (\<lambda>node. bind_mount_dev h node (path_join new_root (trim_slashes node)) ReadOnly) dev_ro) @
     (if readonly_overlays = [] then []
      else [Must (CreateDirAll (path_join new_root ''opt/flavors''))] @
           overlay_mounts h (path_join new_root ''opt/flavors'') [] readonly_overlays)"

section \<open>GPU passthrough\<close>

record nvidia_resources =
  nv_ctl :: string
  nv_uvm :: "string option"
  nv_gpus :: "string list"
  nv_lib_dirs :: "string list"

text \<open>The index of a device name \<open>nvidia<N>\<close>.\<close>

definition gpu_index :: "string \<Rightarrow> nat option" where
  "gpu_index name =
     (case strip_prefix ''nvidia'' name of Some idx \<Rightarrow> parse_unsigned (2 ^ 32 - 1) idx | None \<Rightarrow> None)"

definition discover_gpu_devices :: "host \<Rightarrow> nat list \<Rightarrow> (jail_error, string list) result" where
  "discover_gpu_devices h wanted =
     (case h_read_dir h ''/dev'' of
        None \<Rightarrow> Err (GpuError ''/dev'')
      | Some names \<Rightarrow>
          Ok (sort (map (path_join ''/dev'')
            (filter (\<lambda>name. case gpu_index name of Some idx \<Rightarrow> wanted = [] \<or> idx \<in> set wanted | None \<Rightarrow> False) names))))"

definition lib_search_paths :: "string list" where
  "lib_search_paths = [''/usr/lib/x86_64-linux-gnu'', ''/usr/lib/aarch64-linux-gnu'', ''/usr/lib64'',
     ''/usr/lib'', ''/usr/local/cuda/lib64'']"

text \<open>\<open>str::split\<close> on \<open>=>\<close> and its second piece.\<close>

fun after_arrow :: "string \<Rightarrow> string option" where
  "after_arrow [] = None"
| "after_arrow (c # s) = (case strip_prefix ''=>'' (c # s) of Some r \<Rightarrow> Some r | None \<Rightarrow> after_arrow s)"

fun before_arrow :: "string \<Rightarrow> string" where
  "before_arrow [] = []"
| "before_arrow (c # s) = (if starts_with (c # s) ''=>'' then [] else c # before_arrow s)"

fun ldconfig_line :: "string list \<Rightarrow> string option" where
  "ldconfig_line [] = None"
| "ldconfig_line (l # ls) =
     (if contains_str l ''libcuda.so.1''
      then (case after_arrow l of Some r \<Rightarrow> path_parent (trim (before_arrow r)) | None \<Rightarrow> ldconfig_line ls)
      else ldconfig_line ls)"

definition find_nvidia_lib_via_ldconfig :: "host \<Rightarrow> string option" where
  "find_nvidia_lib_via_ldconfig h =
     (case h_ldconfig h of Some out \<Rightarrow> ldconfig_line (str_lines out) | None \<Rightarrow> None)"

definition discover_nvidia_libs :: "host \<Rightarrow> string list" where
  "discover_nvidia_libs h =
     (let dirs = filter (\<lambda>dir. h_exists h (path_join dir ''libcuda.so.1'') \<or> h_exists h (path_join dir ''libcuda.so''))
                   lib_search_paths
      in if dirs = [] then (case find_nvidia_lib_via_ldconfig h of Some dir \<Rightarrow> [dir] | None \<Rightarrow> []) else dirs)"

definition discover :: "host \<Rightarrow> gpu_config \<Rightarrow> (jail_error, nvidia_resources) result" where
  "discover h config =
     (if \<not> h_exists h ''/dev/nvidiactl'' then Err (GpuError ''no NVIDIA GPU found (/dev/nvidiactl missing)'')
      else and_then (discover_gpu_devices h (gpu_devices config)) (\<lambda>gpus.
        if gpus = [] then Err (GpuError ''no NVIDIA GPU devices found in /dev'')
        else let lib_dirs = discover_nvidia_libs h
          in if lib_dirs = [] then Err (GpuError ''NVIDIA libraries not found (libcuda.so.1 missing)'')
          else Ok \<lparr>nv_ctl = ''/dev/nvidiactl'',
                   nv_uvm = (if h_exists h ''/dev/nvidia-uvm'' then Some ''/dev/nvidia-uvm'' else None),
                   nv_gpus = gpus, nv_lib_dirs = lib_dirs\<rparr>))"

definition dominated :: "string \<Rightarrow> bool" where
  "dominated name = (starts_with name ''libcuda'' \<or> starts_with name ''libnvidia'' \<or>
     starts_with name ''libnvoptix'' \<or> starts_with name ''libnvcuvid'')"

definition mount_nvidia_libs_from :: "host \<Rightarrow> string \<Rightarrow> string \<Rightarrow> 'bpf instr list" where
  "mount_nvidia_libs_from h host_dir jail_lib_dir =
     (case h_read_dir h host_dir of
        None \<Rightarrow> []
      | Some names \<Rightarrow>
          concat (map (\<lambda>name.
            if dominated name \<and> contains_str name ''.so''
            then (case h_canonicalize h (path_join host_dir name) of
                    Some real_src \<Rightarrow>
                      if h_is_file h real_src then bind_mount h real_src (path_join jail_lib_dir name) ReadOnly else []
                  | None \<Rightarrow> [])
            else []) names))"

definition setup_mounts :: "host \<Rightarrow> string \<Rightarrow> nvidia_resources \<Rightarrow> 'bpf instr list" where
  "setup_mounts h new_root res =
     (let dev_dir = path_join new_root ''dev''; lib_dir = path_join new_root ''usr/lib/nvidia''
      in [Must (CreateDirAll dev_dir)] @
         bind_mount_dev h (nv_ctl res) (path_join dev_dir ''nvidiactl'') ReadWrite @
         (case nv_uvm res of Some uvm \<Rightarrow> bind_mount_dev h uvm (path_join dev_dir ''nvidia-uvm'') ReadWrite | None \<Rightarrow> []) @
         concat (map (\<lambda>gpu. case file_name gpu of
             Some name \<Rightarrow> bind_mount_dev h gpu (path_join dev_dir name) ReadWrite | None \<Rightarrow> []) (nv_gpus res)) @
         [Must (CreateDirAll lib_dir)] @
         concat (map (\<lambda>dir. mount_nvidia_libs_from h dir lib_dir) (nv_lib_dirs res)))"

definition gpu_env_vars :: "gpu_config \<Rightarrow> (string \<times> string) list" where
  "gpu_env_vars config =
     [(''LD_LIBRARY_PATH'', ''/usr/lib/nvidia'')] @
     (if gpu_devices config = [] then []
      else [(''CUDA_VISIBLE_DEVICES'', join_with '','' (map show_nat (gpu_devices config)))])"

section \<open>No command before the last instruction\<close>

definition no_exec :: "'bpf instr list \<Rightarrow> bool" where
  "no_exec is = (\<forall>i \<in> set is. case i of Must op \<Rightarrow> \<not> is_exec op | _ \<Rightarrow> True)"

lemma no_exec_simps [simp]:
  "no_exec []"
  "no_exec (i # is) = ((case i of Must op \<Rightarrow> \<not> is_exec op | _ \<Rightarrow> True) \<and> no_exec is)"
  "no_exec (xs @ ys) = (no_exec xs \<and> no_exec ys)"
  "no_exec (concat xss) = (\<forall>xs \<in> set xss. no_exec xs)"
  by (auto simp: no_exec_def)

lemma exec_last_append: "no_exec xs \<Longrightarrow> exec_last (xs @ [i])"
  by (simp add: no_exec_def exec_last_def list_all_iff)

lemma no_exec_bind [simp]:
  "no_exec (bind_mount h src dst access)"
  "no_exec (bind_mount_dev h src dst access)"
  by (simp_all add: bind_mount_def bind_mount_dev_def do_bind_mount_def is_exec_def split: option.split)

lemma no_exec_overlays [simp]: "no_exec (overlay_mounts h flavors_root seen overlays)"
  by (induction h flavors_root seen overlays rule: overlay_mounts.induct) (auto split: option.split)

lemma no_exec_mounts [simp]:
  "no_exec (setup_root h new_root source output source_rw overlays)"
  "no_exec (setup_mounts h new_root res)"
  "no_exec (make_jail_root h)" "no_exec make_root_private" "no_exec (pivot_into new_root)"
  by (auto simp: setup_root_def setup_mounts_def mount_nvidia_libs_from_def Let_def is_exec_def bind_self_def
      mount_tmpfs_def mount_tmpfs_noexec_def mount_proc_def make_jail_root_def make_root_private_def
      pivot_into_def split: option.split)

section \<open>Hardened mounts\<close>

text \<open>A list of instructions mounts safely: a bind mount is followed at once by a remount
  without set-user-id binaries, read-only unless \<open>wr\<close> admits it and without device nodes unless
  \<open>dv\<close> does; only the new root is bound to itself; a file system is mounted without
  set-user-id binaries and devices, and not executable unless it is the jail's \<open>/etc\<close>.\<close>

definition mounting :: "'bpf instr \<Rightarrow> bool" where
  "mounting i = (case instr_op i of Some op \<Rightarrow>
     (case op of MountBind s d f \<Rightarrow> True | MountFs t d f opt \<Rightarrow> True | _ \<Rightarrow> False) | None \<Rightarrow> False)"

inductive hardened ::
  "(string \<Rightarrow> string \<Rightarrow> bool) \<Rightarrow> (string \<Rightarrow> string \<Rightarrow> bool) \<Rightarrow> string \<Rightarrow> 'bpf instr list \<Rightarrow> bool" for wr dv root where
  nil: "hardened wr dv root []"
| bind: "hardened wr dv root is \<Longrightarrow> NoSuid \<in> set fl' \<Longrightarrow> RdOnly \<in> set fl' \<or> wr src dst \<Longrightarrow>
    NoDev \<in> set fl' \<or> dv src dst \<Longrightarrow>
    hardened wr dv root (Must (MountBind src dst fl) # Must (MountRemount dst fl') # is)"
| self: "hardened wr dv root is \<Longrightarrow> hardened wr dv root (Must (MountBind root root fl) # is)"
| fs: "hardened wr dv root is \<Longrightarrow> {NoSuid, NoDev} \<subseteq> set fl \<Longrightarrow> NoExec \<in> set fl \<or> dst = path_join root ''etc'' \<Longrightarrow>
    hardened wr dv root (Must (MountFs t dst fl opt) # is)"
| other: "hardened wr dv root is \<Longrightarrow> \<not> mounting i \<Longrightarrow> hardened wr dv root (i # is)"

lemma hardened_append: "hardened wr dv root xs \<Longrightarrow> hardened wr dv root ys \<Longrightarrow> hardened wr dv root (xs @ ys)"
  by (induction rule: hardened.induct) (auto intro: hardened.intros)

lemma hardened_concat: "(\<And>xs. xs \<in> set xss \<Longrightarrow> hardened wr dv root xs) \<Longrightarrow> hardened wr dv root (concat xss)"
  by (induction xss) (auto intro: hardened.nil hardened_append)

lemma hardened_others: "list_all (\<lambda>i. \<not> mounting i) is \<Longrightarrow> hardened wr dv root is"
  by (induction "is") (auto intro: hardened.nil hardened.other)

lemma hardened_one:
  "hardened wr dv root [Refuse e]"
  "hardened wr dv root is \<Longrightarrow> hardened wr dv root (Must (CreateDirAll p) # is)"
  by (auto intro: hardened.other hardened.nil simp: mounting_def)

lemma hardened_do_bind:
  assumes "access = ReadOnly \<or> wr src dst" "nodev \<or> dv src dst"
  shows "hardened wr dv root (do_bind_mount h src dst access nodev)"
proof (cases "h_exists h src")
  case True
  have "hardened wr dv root (if h_is_dir h src then [Must (CreateDirAll dst)]
      else (case path_parent dst of Some parent \<Rightarrow> [Must (CreateDirAll parent)] | None \<Rightarrow> []) @ [Must (CreateFile dst)])"
    by (rule hardened_others) (simp add: mounting_def split: option.split)
  then show ?thesis
    unfolding do_bind_mount_def using True assms
    by (simp only: simp_thms if_False) (intro hardened_append hardened.bind hardened.nil; auto)
qed (simp add: do_bind_mount_def hardened.nil)

lemma hardened_bind: "access = ReadOnly \<or> wr src dst \<Longrightarrow> hardened wr dv root (bind_mount h src dst access)"
  unfolding bind_mount_def by (rule hardened_do_bind) auto

lemma hardened_bind_dev:
  "access = ReadOnly \<or> wr src dst \<Longrightarrow> dv src dst \<Longrightarrow> hardened wr dv root (bind_mount_dev h src dst access)"
  unfolding bind_mount_dev_def by (rule hardened_do_bind) auto

lemma hardened_fs:
  "hardened wr dv root (mount_tmpfs (path_join root ''etc'') n)"
  "hardened wr dv root (mount_tmpfs_noexec dst n)"
  "hardened wr dv root (mount_proc dst)"
  "hardened wr dv root (bind_self root)"
  unfolding mount_tmpfs_def mount_tmpfs_noexec_def mount_proc_def bind_self_def
  by (auto intro!: hardened.other [OF hardened.fs] hardened.self hardened.nil simp: mounting_def)

lemma hardened_overlays: "hardened wr dv root (overlay_mounts h flavors_root seen overlays)"
  by (induction h flavors_root seen overlays rule: overlay_mounts.induct)
    (auto intro!: hardened.nil hardened_append hardened_bind hardened_one split: option.splits)

lemmas hardened_rules = hardened.nil hardened_append hardened_concat hardened_bind hardened_bind_dev
  hardened_fs hardened_overlays hardened_one

lemma hardened_setup_root:
  assumes "wr output (path_join root ''output'')" "source_rw \<longrightarrow> wr source (path_join root ''workspace'')"
    and "\<And>node. node \<in> set dev_rw \<Longrightarrow> wr node (path_join root (trim_slashes node))"
    and "\<And>node. node \<in> set (dev_rw @ dev_ro) \<Longrightarrow> dv node (path_join root (trim_slashes node))"
  shows "hardened wr dv root (setup_root h root source output source_rw overlays)"
  unfolding setup_root_def using assms
  by (intro hardened_append) (auto intro!: hardened_rules)

lemma hardened_nvidia_libs: "hardened wr dv root (mount_nvidia_libs_from h dir lib_dir)"
  unfolding mount_nvidia_libs_from_def by (auto intro!: hardened_rules split: option.splits)

definition gpu_binds :: "nvidia_resources \<Rightarrow> (string \<times> string) set" where
  "gpu_binds res = {(nv_ctl res, ''nvidiactl'')} \<union> (\<lambda>uvm. (uvm, ''nvidia-uvm'')) ` set_option (nv_uvm res) \<union>
     {(gpu, name). gpu \<in> set (nv_gpus res) \<and> file_name gpu = Some name}"

lemma hardened_setup_mounts:
  assumes "\<And>src name. (src, name) \<in> gpu_binds res \<Longrightarrow>
    wr src (path_join (path_join root ''dev'') name) \<and> dv src (path_join (path_join root ''dev'') name)"
  shows "hardened wr dv root (setup_mounts h root res)"
  unfolding setup_mounts_def Let_def using assms unfolding gpu_binds_def
  by (intro hardened_append) (auto intro!: hardened_rules hardened_nvidia_libs split: option.splits)

lemma hardened_nth:
  assumes "hardened wr dv root is" "i < length is" "is ! i = Must (MountBind src dst fl)"
  shows "src = root \<and> dst = root \<or>
    Suc i < length is \<and> (\<exists>fl'. is ! Suc i = Must (MountRemount dst fl') \<and> NoSuid \<in> set fl' \<and>
      (RdOnly \<in> set fl' \<or> wr src dst) \<and> (NoDev \<in> set fl' \<or> dv src dst))"
  using assms
proof (induction arbitrary: i rule: hardened.induct)
  case (bind "is" fl' src' dst' fl'')
  then show ?case
    by (cases i; cases "i - 1") auto
next
  case (self "is" fl')
  then show ?case
    by (cases i) auto
next
  case (fs "is" fl' dst' t opt)
  then show ?case
    by (cases i) auto
next
  case (other "is" j)
  then show ?case
    by (cases i) (auto simp: mounting_def)
qed simp

lemma hardened_fs_mem:
  assumes "hardened wr dv root is" "Must (MountFs t dst fl opt) \<in> set is"
  shows "{NoSuid, NoDev} \<subseteq> set fl \<and> (NoExec \<in> set fl \<or> dst = path_join root ''etc'')"
  using assms by (induction rule: hardened.induct) (auto simp: mounting_def)

lemma hardened_Try: "hardened wr dv root is \<Longrightarrow> Try op \<in> set is \<Longrightarrow> \<not> mounting (Try op)"
  by (induction rule: hardened.induct) auto

text \<open>The devices a jail gets are those asked for.\<close>

definition gpu_wanted :: "gpu_config \<Rightarrow> string \<Rightarrow> bool" where
  "gpu_wanted config name =
     (case gpu_index name of Some idx \<Rightarrow> gpu_devices config = [] \<or> idx \<in> set (gpu_devices config) | None \<Rightarrow> False)"

lemma discover_gpus_wanted:
  assumes "discover h config = Ok res"
  shows "set (nv_gpus res) \<subseteq> path_join ''/dev'' ` {name. gpu_wanted config name}"
proof -
  from assms have "discover_gpu_devices h (gpu_devices config) = Ok (nv_gpus res)"
    by (auto simp: discover_def and_then_Ok_iff Let_def split: if_splits)
  then obtain names where names: "sort (map (path_join ''/dev'') (filter (gpu_wanted config) names)) = nv_gpus res"
    unfolding discover_gpu_devices_def gpu_wanted_def [abs_def] by (cases "h_read_dir h ''/dev''") auto
  show ?thesis
    unfolding names [symmetric] by auto
qed

lemma discover_nodes:
  assumes "discover h config = Ok res"
  shows "nv_ctl res = ''/dev/nvidiactl''" "nv_uvm res \<in> {None, Some ''/dev/nvidia-uvm''}"
  using assms by (auto simp: discover_def and_then_Ok_iff Let_def split: if_splits)

end
