(* ===== verification/Jail_Setup.thy ===== *)
theory Jail_Setup
  imports Jail_Mounts Netlink Seccomp
begin

text \<open>
  What the child does between the barrier and its command: \<open>setup_child\<close> and its helpers of
  \<open>agentjail/src/exec.rs\<close>, with \<open>agentjail/src/namespace.rs\<close> and \<open>agentjail/src/landlock.rs\<close>, as a
  list of instructions.  With a PID namespace the instructions after \<open>Fork\<close> are those of the
  grandchild, which becomes the command; what the process in between returns is in
  \<open>Jail_Spawn\<close>.
\<close>

section \<open>Namespaces, network and landlock\<close>

record namespace_config =
  ns_user :: bool
  ns_mount :: bool
  ns_pid :: bool
  ns_network :: bool
  ns_ipc :: bool

definition enter_namespaces :: "namespace_config \<Rightarrow> 'bpf instr list" where
  "enter_namespaces c =
     [Must (Unshare ((if ns_user c then [NewUser] else []) @ (if ns_mount c then [NewNs] else []) @
        (if ns_pid c then [NewPid] else []) @ (if ns_network c then [NewNet] else []) @
        (if ns_ipc c then [NewIpc] else [])))]"

definition enter_user_namespace_alone :: "'bpf instr list" where
  "enter_user_namespace_alone = [Must (Unshare [NewUser])]"

definition setup_loopback :: "'bpf instr list" where
  "setup_loopback = [Must UdpSocket, Must LoopbackUp]"

text \<open>\<open>apply_rules\<close>: paths that do not exist or cannot be opened are left out of the rules.  The status
  that \<open>restrict_self\<close> returns is dropped: the call succeeds also where nothing is enforced.\<close>

definition apply_rules :: "host \<Rightarrow> (string \<times> access) list \<Rightarrow> 'bpf instr list" where
  "apply_rules h rules = [Must (LandlockRestrict (filter (\<lambda>(path, access). h_exists h path \<and> h_opens h path) rules))]"

definition setup_landlock :: "host \<Rightarrow> jail_config \<Rightarrow> 'bpf instr list" where
  "setup_landlock h config =
     (if \<not> jc_landlock config then []
      else if \<not> h_landlock h then [Refuse NoLandlock]
      else apply_rules h [(jc_source config, ReadOnly), (jc_output config, ReadWrite)])"

text \<open>The user namespace is entered first, with the parent writing the maps in between.\<close>

definition setup_userns :: "jail_config \<Rightarrow> bool \<Rightarrow> 'bpf instr list" where
  "setup_userns config has_fd =
     (if \<not> jc_user_namespace config then []
      else if \<not> has_fd then [Refuse UsernsNeedsFd]
      else enter_user_namespace_alone @ [Must UsernsSignal, Must UsernsWait])"

text \<open>The network of the jail; for an allowlist the identifier of the veth pair comes from the
  parent, and the address of the proxy is kept for the environment.\<close>

definition setup_network :: "jail_config \<Rightarrow> 32 word option \<Rightarrow> 'bpf instr list" where
  "setup_network config veth =
     (case (jc_network config, veth) of
        (NetNone, _) \<Rightarrow> []
      | (Loopback, _) \<Rightarrow> setup_loopback
      | (Allowlist _, Some vid) \<Rightarrow>
          [Must NetnsSignal, Must VethIdRead, Try CloseSync] @ setup_loopback @
          [Must (AddAddr (jail_if vid) (snd (veth_addrs vid)) 30), Must (LinkUp (jail_if vid)),
           Must (DefaultRoute (fst (veth_addrs vid)))]
      | (Allowlist _, None) \<Rightarrow> [])"

definition proxy_host_ip :: "jail_config \<Rightarrow> 32 word option \<Rightarrow> byte list option" where
  "proxy_host_ip config veth =
     (case (jc_network config, veth) of (Allowlist _, Some vid) \<Rightarrow> Some (fst (veth_addrs vid)) | _ \<Rightarrow> None)"

section \<open>Environment\<close>

text \<open>The environment is put together after the root has been changed: the test for a flavor's
  \<open>bin\<close> directory looks for the host's path inside the jail.\<close>

fun env_set :: "string \<Rightarrow> (string \<Rightarrow> string) \<Rightarrow> (string \<times> string) list \<Rightarrow> (string \<times> string) list option" where
  "env_set k f [] = None"
| "env_set k f ((k', v) # env) =
     (if k' = k then Some ((k', f v) # env)
      else case env_set k f env of Some env' \<Rightarrow> Some ((k', v) # env') | None \<Rightarrow> None)"

definition flavor_bins :: "host \<Rightarrow> string list \<Rightarrow> string list" where
  "flavor_bins h overlays =
     concat (map (\<lambda>overlay. case file_name overlay of
        Some name \<Rightarrow> if utf8_valid name \<and> h_jail_is_dir h (path_join overlay ''bin'')
                     then [''/opt/flavors/'' @ name @ ''/bin''] else []
      | None \<Rightarrow> []) overlays)"

definition prepend_flavor_bins_to_path ::
  "host \<Rightarrow> (string \<times> string) list \<Rightarrow> string list \<Rightarrow> (string \<times> string) list" where
  "prepend_flavor_bins_to_path h env overlays =
     (let bins = flavor_bins h overlays; joined = join_with '':'' bins
      in if bins = [] then env
         else case env_set ''PATH'' (\<lambda>v. if v = [] then joined else joined @ '':'' @ v) env of
                Some env' \<Rightarrow> env'
              | None \<Rightarrow> env @ [(''PATH'', joined)])"

definition setup_env ::
  "host \<Rightarrow> jail_config \<Rightarrow> byte list option \<Rightarrow> bool \<Rightarrow> (string \<times> string) list" where
  "setup_env h config host_ip gpu =
     (let env = jc_env config;
          env = (case host_ip of Some ip \<Rightarrow> env @ proxy_env_vars ip | None \<Rightarrow> env);
          env = (if gpu then env @ gpu_env_vars (jc_gpu config) else env)
      in if jc_readonly_overlays config = [] then env
         else prepend_flavor_bins_to_path h env (jc_readonly_overlays config))"

section \<open>Privileges and the command\<close>

definition set_fd_limit :: "nat \<Rightarrow> 'bpf instr list" where
  "set_fd_limit n = [Try (Setrlimit ''NOFILE'' n)]"

definition set_core_limit :: "nat \<Rightarrow> 'bpf instr list" where
  "set_core_limit n = [Try (Setrlimit ''CORE'' n)]"

definition close_inherited_fds :: "'bpf instr list" where
  "close_inherited_fds = [Try (CloseRangeCloexec 3)]"

definition drop_all_capabilities :: "'bpf instr list" where
  "drop_all_capabilities =
     [Try CapAmbientClear, Try (SetSecurebits (2 ^ 0 + 2 ^ 1 + 2 ^ 2 + 2 ^ 3))] @
     map (\<lambda>cap. Try (CapBsetDrop cap)) [0..<64] @ [Try CapsetZero]"

definition has_nul :: "string \<Rightarrow> bool" where
  "has_nul s = (CHR 0x00 \<in> set s)"

definition do_exec :: "string \<Rightarrow> string list \<Rightarrow> (string \<times> string) list \<Rightarrow> 'bpf instr list" where
  "do_exec cmd args env =
     (if has_nul cmd then [Refuse InvalidCommand]
      else case find has_nul args of
        Some a \<Rightarrow> [Refuse (NulArgument a)]
      | None \<Rightarrow> (case find (\<lambda>(k, v). has_nul (k @ ''='' @ v)) env of
          Some (k, v) \<Rightarrow> [Refuse (NulEnv k v)]
        | None \<Rightarrow> [Must (Execve cmd (cmd # args) (map (\<lambda>(k, v). k @ ''='' @ v) env))]))"

definition remount_proc :: "'bpf instr list" where
  "remount_proc =
     [Try (Umount2Detach ''/proc''),
      Must (MountFs ''proc'' ''/proc'' [NoSuid, NoDev, NoExec] ''hidepid=invisible'')]"

definition load_filter :: "'bpf option \<Rightarrow> 'bpf instr list" where
  "load_filter seccomp_filter = (case seccomp_filter of Some bpf \<Rightarrow> [Must (LoadFilter bpf)] | None \<Rightarrow> [])"

definition enter_pid_namespace_and_exec ::
  "'bpf option \<Rightarrow> string \<Rightarrow> string list \<Rightarrow> (string \<times> string) list \<Rightarrow> 'bpf instr list" where
  "enter_pid_namespace_and_exec seccomp_filter cmd args env =
     [Must (Unshare [NewPid]), Must Fork, Try Pdeathsig] @ remount_proc @
     drop_all_capabilities @ load_filter seccomp_filter @ do_exec cmd args env"

definition setup_child ::
  "host \<Rightarrow> jail_config \<Rightarrow> nvidia_resources option \<Rightarrow> 'bpf option \<Rightarrow> string \<Rightarrow> string list \<Rightarrow>
   32 word option \<Rightarrow> bool \<Rightarrow> 'bpf instr list" where
  "setup_child h config gpu seccomp_filter cmd args veth userns_fd =
     (let new_root = jail_root h;
          env = setup_env h config (proxy_host_ip config veth) (gpu \<noteq> None)
      in setup_userns config userns_fd @
         enter_namespaces \<lparr>ns_user = False, ns_mount = True, ns_pid = False, ns_network = True,
                           ns_ipc = jc_ipc_namespace config\<rparr> @
         setup_network config veth @
         make_root_private @
         make_jail_root h @
         setup_root h new_root (jc_source config) (jc_output config) (jc_source_rw config)
           (jc_readonly_overlays config) @
         (case gpu of Some res \<Rightarrow> setup_mounts h new_root res | None \<Rightarrow> []) @
         setup_landlock h config @
         pivot_into new_root @
         [Must (Chdir ''/workspace'')] @
         set_fd_limit 4096 @ set_core_limit 0 @ [Try NoNewPrivs] @ close_inherited_fds @
         (if jc_pid_namespace config then enter_pid_namespace_and_exec seccomp_filter cmd args env
          else drop_all_capabilities @ load_filter seccomp_filter @ do_exec cmd args env))"

text \<open>\<open>Jail::new\<close> checks the paths, looks for the GPU and compiles the filter once; every child of
  the jail runs \<open>setup_child\<close> with these.  The descriptors for the handshake exist exactly when the
  configuration needs them.\<close>

record 'bpf jail =
  jl_config :: jail_config
  jl_gpu :: "nvidia_resources option"
  jl_filter :: "'bpf option"

definition jail_new ::
  "(seccomp_filter \<Rightarrow> (string, 'bpf) result) \<Rightarrow> bool \<Rightarrow> host \<Rightarrow> jail_config \<Rightarrow> (jail_error, 'bpf jail) result" where
  "jail_new backend x86 h config =
     (if \<not> h_exists h (jc_source config) then Err (PathNotFound (jc_source config))
      else if \<not> h_exists h (jc_output config) then Err (PathNotFound (jc_output config))
      else and_then (if gpu_enabled (jc_gpu config)
                     then and_then (discover h (jc_gpu config)) (\<lambda>res. Ok (Some res)) else Ok None) (\<lambda>gpu.
        case compile backend x86 (jc_seccomp config) of
          Inl e \<Rightarrow> Err (SeccompError e)
        | Inr filt \<Rightarrow> Ok \<lparr>jl_config = config, jl_gpu = gpu, jl_filter = filt\<rparr>))"

definition jail_veth :: "jail_config \<Rightarrow> 32 word \<Rightarrow> 32 word option" where
  "jail_veth config vid = (case jc_network config of Allowlist domains \<Rightarrow> Some vid | _ \<Rightarrow> None)"

definition jail_child :: "host \<Rightarrow> 'bpf jail \<Rightarrow> string \<Rightarrow> string list \<Rightarrow> 32 word \<Rightarrow> 'bpf instr list" where
  "jail_child h j cmd args vid =
     (let config = jl_config j
      in setup_child h config (jl_gpu j) (jl_filter j) cmd args
           (jail_veth config vid) (jc_user_namespace config))"

section \<open>The instructions of a setup\<close>

definition setup_hardening :: "jail_config \<Rightarrow> 'bpf option \<Rightarrow> 'bpf instr list" where
  "setup_hardening config seccomp_filter =
     set_fd_limit 4096 @ set_core_limit 0 @ [Try NoNewPrivs] @ close_inherited_fds @
     (if jc_pid_namespace config then [Must (Unshare [NewPid]), Must Fork, Try Pdeathsig] @ remount_proc else []) @
     drop_all_capabilities @ load_filter seccomp_filter"

definition setup_view :: "host \<Rightarrow> jail_config \<Rightarrow> nvidia_resources option \<Rightarrow> 32 word option \<Rightarrow> bool \<Rightarrow> 'bpf instr list" where
  "setup_view h config gpu veth userns_fd =
     setup_userns config userns_fd @
     enter_namespaces \<lparr>ns_user = False, ns_mount = True, ns_pid = False, ns_network = True,
                       ns_ipc = jc_ipc_namespace config\<rparr> @
     setup_network config veth @
     make_root_private @
     make_jail_root h @
     setup_root h (jail_root h) (jc_source config) (jc_output config) (jc_source_rw config)
       (jc_readonly_overlays config) @
     (case gpu of Some res \<Rightarrow> setup_mounts h (jail_root h) res | None \<Rightarrow> [])"

lemma setup_child_parts:
  "setup_child h config gpu filt cmd args veth userns_fd =
     setup_view h config gpu veth userns_fd @ setup_landlock h config @ pivot_into (jail_root h) @
     [Must (Chdir ''/workspace'')] @ setup_hardening config filt @
     do_exec cmd args (setup_env h config (proxy_host_ip config veth) (gpu \<noteq> None))"
  by (simp add: setup_child_def setup_view_def setup_hardening_def enter_pid_namespace_and_exec_def Let_def)

lemma do_exec_cases:
  "(\<exists>e. do_exec cmd args env = [Refuse e]) \<or>
   do_exec cmd args env = [Must (Execve cmd (cmd # args) (map (\<lambda>(k, v). k @ ''='' @ v) env))]"
  by (auto simp: do_exec_def split: option.split)

lemma do_exec_single: "\<exists>i. do_exec cmd args env = [i]"
  using do_exec_cases [of cmd args env] by blast

lemma no_exec_setup [simp]:
  "no_exec (setup_userns config fd)" "no_exec (enter_namespaces c)" "no_exec (setup_network config veth)"
  "no_exec (setup_landlock h config)" "no_exec (setup_hardening config filt)"
  by (auto simp: setup_userns_def enter_user_namespace_alone_def enter_namespaces_def setup_network_def
      setup_loopback_def setup_landlock_def apply_rules_def setup_hardening_def set_fd_limit_def
      set_core_limit_def close_inherited_fds_def remount_proc_def drop_all_capabilities_def load_filter_def
      is_exec_def no_exec_def split: network.split option.split)

lemma no_exec_view [simp]: "no_exec (setup_view h config gpu veth userns_fd)"
  by (simp add: setup_view_def split: option.split)

lemma exec_last_do_exec: "no_exec xs \<Longrightarrow> exec_last (xs @ do_exec cmd args env)"
  using do_exec_single [of cmd args env, where ?'a = 'a] exec_last_append by metis

lemma setup_child_exec_last: "exec_last (setup_child h config gpu filt cmd args veth userns_fd)"
  unfolding setup_child_parts append_assoc [symmetric]
  by (rule exec_last_do_exec) (simp add: is_exec_def)

lemma setup_child_answers:
  assumes "run_setup k [] (setup_child h config gpu filt cmd args veth userns_fd) = (tr, Executed)"
  shows "answers k tr (setup_child h config gpu filt cmd args veth userns_fd)"
  using assms setup_child_exec_last by (rule run_executed_answers)

text \<open>The call that becomes the command, and the calls that load the filter.\<close>

definition command_call ::
  "host \<Rightarrow> jail_config \<Rightarrow> nvidia_resources option \<Rightarrow> 32 word option \<Rightarrow> string \<Rightarrow> string list \<Rightarrow> 'bpf sysop" where
  "command_call h config gpu veth cmd args =
     Execve cmd (cmd # args)
       (map (\<lambda>(k, v). k @ ''='' @ v) (setup_env h config (proxy_host_ip config veth) (gpu \<noteq> None)))"

definition filter_calls :: "'bpf option \<Rightarrow> 'bpf sysop list" where
  "filter_calls filt = (case filt of Some bpf \<Rightarrow> [LoadFilter bpf] | None \<Rightarrow> [])"

definition confinement_calls :: "host \<Rightarrow> jail_config \<Rightarrow> 'bpf sysop list" where
  "confinement_calls h config =
     [Unshare ([NewNs, NewNet] @ (if jc_ipc_namespace config then [NewIpc] else [])), MakePrivate ''/'',
      Mkdir (jail_root h) 448, Chdir (jail_root h), PivotRoot ''.'' ''.'', Umount2Detach ''.'', Chdir ''/'',
      Chdir ''/workspace''] @
     (if jc_pid_namespace config
      then [Unshare [NewPid], Fork, MountFs ''proc'' ''/proc'' [NoSuid, NoDev, NoExec] ''hidepid=invisible''] else [])"

definition privilege_calls :: "'bpf sysop list" where
  "privilege_calls =
     [NoNewPrivs, CloseRangeCloexec 3, CapAmbientClear, SetSecurebits 15] @ map CapBsetDrop [0..<64] @ [CapsetZero]"

lemma confinement_calls_split:
  "confinement_calls h config =
     [Unshare ([NewNs, NewNet] @ (if jc_ipc_namespace config then [NewIpc] else [])), MakePrivate ''/'',
      Mkdir (jail_root h) 448] @
     [Chdir (jail_root h), PivotRoot ''.'' ''.'', Umount2Detach ''.'', Chdir ''/'', Chdir ''/workspace''] @
     (if jc_pid_namespace config
      then [Unshare [NewPid], Fork, MountFs ''proc'' ''/proc'' [NoSuid, NoDev, NoExec] ''hidepid=invisible''] else [])"
  by (simp add: confinement_calls_def)

lemma required_view:
  "subseq [Unshare ([NewNs, NewNet] @ (if jc_ipc_namespace config then [NewIpc] else [])), MakePrivate ''/'',
      Mkdir (jail_root h) 448] (required (setup_view h config gpu veth userns_fd))"
  unfolding setup_view_def enter_namespaces_def make_root_private_def make_jail_root_def
  by (simp add: subseq_drop_many)

lemma required_hardening:
  "required (setup_hardening config filt) =
     (if jc_pid_namespace config
      then [Unshare [NewPid], Fork, MountFs ''proc'' ''/proc'' [NoSuid, NoDev, NoExec] ''hidepid=invisible''] else []) @
     filter_calls filt"
proof -
  have "required (drop_all_capabilities :: 'a instr list) = []"
    by (simp add: drop_all_capabilities_def required_def List.map_filter_def)
  moreover have "required (load_filter filt) = filter_calls filt"
    by (simp add: load_filter_def filter_calls_def split: option.split)
  ultimately show ?thesis
    by (simp add: setup_hardening_def set_fd_limit_def set_core_limit_def close_inherited_fds_def remount_proc_def)
qed

lemma attempted_hardening:
  "subseq (privilege_calls @ filter_calls filt) (attempted (setup_hardening config filt))"
proof -
  have caps: "attempted (drop_all_capabilities :: 'a instr list) =
      [CapAmbientClear, SetSecurebits 15] @ map CapBsetDrop [0..<64] @ [CapsetZero]"
    unfolding drop_all_capabilities_def by (simp add: attempted_def List.map_filter_def comp_def)
  have filt: "attempted (load_filter filt) = filter_calls filt"
    by (simp add: load_filter_def filter_calls_def split: option.split)
  show ?thesis
    unfolding setup_hardening_def privilege_calls_def attempted_simps(5) caps filt
    by (simp add: set_fd_limit_def set_core_limit_def close_inherited_fds_def subseq_drop_many)
qed

lemma answers_last:
  assumes "answers k tr (is @ [Must op])"
  shows "last tr = (op, True)"
proof -
  have "tr ! length is = (op, True)" "length tr = Suc (length is)"
    using answers_nth_Must(2) [OF assms, of "length is" op] assms by (simp_all add: answers_def)
  then show ?thesis
    by (metis diff_Suc_1 last_conv_nth length_0_conv nat.distinct(1))
qed

lemma answers_no_refusal: "answers k tr is \<Longrightarrow> Refuse e \<notin> set is"
  by (auto simp: answers_def in_set_conv_nth)

lemma setup_child_do_exec:
  fixes tr :: "'bpf sys_trace"
  assumes "answers k tr (setup_child h config gpu filt cmd args veth userns_fd)"
  shows "(do_exec cmd args (setup_env h config (proxy_host_ip config veth) (gpu \<noteq> None)) :: 'bpf instr list) =
    [Must (command_call h config gpu veth cmd args)]"
proof -
  let ?exec = "do_exec cmd args (setup_env h config (proxy_host_ip config veth) (gpu \<noteq> None)) :: 'bpf instr list"
  have "Refuse e \<notin> set ?exec" for e
    using answers_no_refusal [OF assms] by (simp add: setup_child_parts)
  then show ?thesis
    using do_exec_cases [of cmd args "setup_env h config (proxy_host_ip config veth) (gpu \<noteq> None)", where ?'a = 'bpf]
    unfolding command_call_def by (metis list.set_intros(1))
qed

text \<open>A flavor whose host path is not a directory inside the jail adds nothing to \<open>PATH\<close>.\<close>

lemma flavor_path_lost:
  assumes "\<And>overlay. overlay \<in> set (jc_readonly_overlays config) \<Longrightarrow> \<not> h_jail_is_dir h (path_join overlay ''bin'')"
  shows "setup_env h config ip gpu = setup_env h (config\<lparr>jc_readonly_overlays := []\<rparr>) ip gpu"
proof -
  have "flavor_bins h (jc_readonly_overlays config) = []"
    using assms by (auto simp: flavor_bins_def split: option.split)
  then show ?thesis
    by (auto simp: setup_env_def prepend_flavor_bins_to_path_def Let_def split: option.split)
qed

section \<open>Properties\<close>

lemma executed_calls:
  assumes "run_setup k [] (setup_child h config gpu filt cmd args veth userns_fd) = (tr, Executed)"
  shows "subseq (confinement_calls h config @ filter_calls filt @ [command_call h config gpu veth cmd args]) (succeeded tr)"
    and "subseq (privilege_calls @ filter_calls filt @ [command_call h config gpu veth cmd args]) (map fst tr)"
    and "last tr = (command_call h config gpu veth cmd args, True)"
proof -
  let ?is = "setup_child h config gpu filt cmd args veth userns_fd"
  have answers: "answers k tr ?is"
    using assms by (rule setup_child_answers)
  note parts = setup_child_parts setup_child_do_exec [OF answers]
  have "subseq (confinement_calls h config @ filter_calls filt @ [command_call h config gpu veth cmd args]) (required ?is)"
    unfolding parts confinement_calls_split required_simps(5) append_assoc
    by (rule list_emb_append_mono [OF required_view subseq_drop_many]) (simp add: pivot_into_def required_hardening)
  then show "subseq (confinement_calls h config @ filter_calls filt @ [command_call h config gpu veth cmd args]) (succeeded tr)"
    using answers_required [OF answers] subseq_order.order_trans by blast
  show "subseq (privilege_calls @ filter_calls filt @ [command_call h config gpu veth cmd args]) (map fst tr)"
    unfolding answers_attempted [OF answers] parts attempted_simps(5) append_assoc [of privilege_calls, symmetric]
    by (intro subseq_drop_many list_emb_append_mono attempted_hardening) simp
  have "answers k tr ((setup_view h config gpu veth userns_fd @ setup_landlock h config @ pivot_into (jail_root h) @
      [Must (Chdir ''/workspace'')] @ setup_hardening config filt) @ [Must (command_call h config gpu veth cmd args)])"
    using answers unfolding parts by simp
  then show "last tr = (command_call h config gpu veth cmd args, True)"
    by (rule answers_last)
qed

lemma jail_newD:
  assumes "jail_new backend x86 h config = Ok j"
  shows "jl_config j = config"
    and "jl_gpu j = Some res \<Longrightarrow> discover h (jc_gpu config) = Ok res \<and> gpu_enabled (jc_gpu config)"
    and "compile backend x86 (jc_seccomp config) = Ok (jl_filter j)"
  using assms
  by (cases "compile backend x86 (jc_seccomp config)"; cases "discover h (jc_gpu config)";
      auto simp: jail_new_def split: if_splits)+

section \<open>Properties\<close>

text \<open>C4. If the command of a jail runs, then these calls have succeeded, in this order: the mount,
  network and IPC namespaces, private mount propagation, the fresh root directory, the change of
  root and the detachment of the host's tree, with a PID namespace the fork into it and a new
  \<open>/proc\<close>, the system-call filter compiled from the configured level, and last the command with its
  arguments and environment.  Before it, setting no-new-privileges, closing descriptors and the
  removal of all capabilities have been attempted, in this order; whether these succeed is not
  looked at.\<close>
theorem executed_hardened:
  assumes "jail_new backend x86 h config = Ok j"
    and "run_setup k [] (jail_child h j cmd args vid) = (tr, Executed)"
  shows "let command = command_call h config (jl_gpu j) (jail_veth config vid) cmd args in
    subseq (confinement_calls h config @ filter_calls (jl_filter j) @ [command]) (succeeded tr) \<and>
    subseq (privilege_calls @ filter_calls (jl_filter j) @ [command]) (map fst tr) \<and>
    last tr = (command, True) \<and>
    compile backend x86 (jc_seccomp config) = Ok (jl_filter j)"
  using executed_calls [OF assms(2) [unfolded jail_child_def Let_def]] jail_newD [OF assms(1)]
  unfolding Let_def by simp

text \<open>A host and a configuration on which everything succeeds.\<close>

definition demo_host :: host where
  "demo_host = \<lparr>h_exists = (\<lambda>p. True), h_is_dir = (\<lambda>p. True), h_is_file = (\<lambda>p. False), h_opens = (\<lambda>p. True),
     h_read_dir = (\<lambda>p. None), h_canonicalize = (\<lambda>p. None), h_ldconfig = None, h_landlock = True, h_ruleset = NotEnforced,
     h_temp_dir = ''/tmp'', h_random = replicate 16 0, h_jail_is_dir = (\<lambda>p. False)\<rparr>"

definition demo_config :: jail_config where
  "demo_config = jail_config_default\<lparr>jc_source := ''/srv/s'', jc_output := ''/srv/o'', jc_user_namespace := False,
     jc_landlock := False\<rparr>"

definition demo_jail :: "unit jail" where
  "demo_jail = \<lparr>jl_config = demo_config, jl_gpu = None, jl_filter = Some ()\<rparr>"

definition demo_setup :: "unit instr list" where
  "demo_setup = jail_child demo_host demo_jail ''/bin/true'' [] 0"

lemma demo_jail_new: "jail_new (\<lambda>f. Ok ()) True demo_host demo_config = Ok demo_jail"
  by (simp add: jail_new_def demo_host_def demo_config_def jail_config_default_def gpu_default_def compile_def
      demo_jail_def)

lemma run_all_succeed:
  assumes "no_exec is" "\<And>e. Refuse e \<notin> set is"
  shows "run_setup (\<lambda>tr op. True) tr (is @ [Must (Execve c a e)]) =
    (tr @ map (\<lambda>i. (the (instr_op i), True)) is @ [(Execve c a e, True)], Executed)"
  using assms
proof (induction "is" arbitrary: tr)
  case (Cons i "is")
  then show ?case
    by (cases i) auto
qed (simp add: is_exec_def)

lemma bind_no_refusal [simp]:
  "Refuse e \<notin> set (bind_mount h src dst access)" "Refuse e \<notin> set (bind_mount_dev h src dst access)"
  by (auto simp: bind_mount_def bind_mount_dev_def do_bind_mount_def split: option.split)

definition demo_prefix :: "unit instr list" where
  "demo_prefix = setup_view demo_host demo_config None None False @ pivot_into (jail_root demo_host) @
     [Must (Chdir ''/workspace'')] @ setup_hardening demo_config (Some ())"

definition demo_trace :: "unit sys_trace" where
  "demo_trace = map (\<lambda>i. (the (instr_op i), True)) demo_prefix @ [(Execve ''/bin/true'' [''/bin/true''] [], True)]"

lemma demo_setup_eq: "demo_setup = demo_prefix @ [Must (Execve ''/bin/true'' [''/bin/true''] [])]"
proof -
  have "do_exec ''/bin/true'' [] (setup_env demo_host demo_config None False) =
      ([Must (Execve ''/bin/true'' [''/bin/true''] [])] :: unit instr list)"
    by (simp add: do_exec_def has_nul_def setup_env_def demo_config_def jail_config_default_def)
  then show ?thesis
    by (simp add: demo_setup_def demo_prefix_def jail_child_def demo_jail_def setup_child_parts demo_config_def
      jail_config_default_def jail_veth_def proxy_host_ip_def setup_landlock_def Let_def)
qed

lemma demo_prefix_no_refusal: "Refuse e \<notin> set demo_prefix"
  by (auto simp: demo_prefix_def setup_view_def demo_config_def jail_config_default_def setup_userns_def
      enter_namespaces_def setup_network_def make_root_private_def make_jail_root_def setup_root_def bind_self_def
      mount_tmpfs_def mount_tmpfs_noexec_def mount_proc_def pivot_into_def setup_hardening_def set_fd_limit_def
      set_core_limit_def close_inherited_fds_def remount_proc_def drop_all_capabilities_def load_filter_def
      split: if_splits)

lemma demo_run: "run_setup (\<lambda>tr op. True) [] demo_setup = (demo_trace, Executed)"
proof -
  have "no_exec demo_prefix"
    by (simp add: demo_prefix_def is_exec_def)
  from run_all_succeed [OF this demo_prefix_no_refusal, of "[]"] show ?thesis
    by (simp add: demo_setup_eq demo_trace_def)
qed

theorem executed_hardened_witness:
  "jail_new (\<lambda>f. Ok ()) True demo_host demo_config = Ok demo_jail \<and>
   run_setup (\<lambda>tr op. True) [] (jail_child demo_host demo_jail ''/bin/true'' [] 0) = (demo_trace, Executed) \<and>
   subseq [PivotRoot ''.'' ''.'', LoadFilter ()] (succeeded demo_trace)"
proof -
  have "subseq [PivotRoot ''.'' ''.'', LoadFilter ()]
      (confinement_calls demo_host demo_config @ filter_calls (jl_filter demo_jail) @ [cmd])" for cmd :: "unit sysop"
    by (simp add: confinement_calls_def filter_calls_def demo_jail_def)
  then show ?thesis
    using executed_hardened [OF demo_jail_new demo_run [unfolded demo_setup_def]] demo_jail_new demo_run
      subseq_order.order_trans unfolding Let_def demo_setup_def by blast
qed

definition gpu_device :: "jail_config \<Rightarrow> string \<Rightarrow> bool" where
  "gpu_device config src =
     (gpu_enabled (jc_gpu config) \<and>
      (src \<in> {''/dev/nvidiactl'', ''/dev/nvidia-uvm''} \<or>
       (case strip_prefix ''/dev/'' src of Some name \<Rightarrow> gpu_wanted (jc_gpu config) name | None \<Rightarrow> False)))"

definition writable_bind :: "host \<Rightarrow> jail_config \<Rightarrow> string \<Rightarrow> string \<Rightarrow> bool" where
  "writable_bind h config src dst =
     ((jc_source_rw config \<and> src = jc_source config \<and> dst = path_join (jail_root h) ''workspace'') \<or>
      (src = jc_output config \<and> dst = path_join (jail_root h) ''output'') \<or>
      (src = ''/dev/null'' \<and> dst = path_join (jail_root h) ''dev/null'') \<or>
      (gpu_device config src \<and>
       (case file_name src of Some name \<Rightarrow> dst = path_join (path_join (jail_root h) ''dev'') name | None \<Rightarrow> False)))"

definition device_bind :: "host \<Rightarrow> jail_config \<Rightarrow> string \<Rightarrow> string \<Rightarrow> bool" where
  "device_bind h config src dst =
     (src \<in> set dev_rw \<union> set dev_ro \<and> dst = path_join (jail_root h) (trim_slashes src) \<or> gpu_device config src)"

lemma path_join_dev:
  assumes "gpu_wanted config name"
  shows "path_join ''/dev'' name = ''/dev/'' @ name"
proof -
  from assms obtain r where "name = ''nvidia'' @ r"
    by (auto simp: gpu_wanted_def gpu_index_def strip_prefix_Some_iff split: option.splits)
  then show ?thesis
    by (simp add: path_join_def is_absolute_def starts_with_def ends_with_def strip_suffix_def)
qed

lemma gpu_binds_device:
  assumes discover: "discover h (jc_gpu config) = Ok res" and enabled: "gpu_enabled (jc_gpu config)"
    and bind: "(src, name) \<in> gpu_binds res"
  shows "gpu_device config src \<and> file_name src = Some name"
proof -
  from bind discover_nodes [OF discover] consider
      "src = ''/dev/nvidiactl''" "name = ''nvidiactl''"
    | "src = ''/dev/nvidia-uvm''" "name = ''nvidia-uvm''"
    | "src \<in> set (nv_gpus res)" "file_name src = Some name"
    by (auto simp: gpu_binds_def)
  then show ?thesis
  proof cases
    case 3
    then obtain n where "src = ''/dev/'' @ n" "gpu_wanted (jc_gpu config) n"
      using discover_gpus_wanted [OF discover] path_join_dev by fastforce
    then show ?thesis
      using 3 enabled by (simp add: gpu_device_def)
  qed (use enabled in \<open>simp_all add: gpu_device_def file_name_def components_def seg_component_def starts_with_def\<close>)
qed

lemma not_mounting:
  "list_all (\<lambda>i. \<not> mounting i) (setup_userns config fd)"
  "list_all (\<lambda>i. \<not> mounting i) (enter_namespaces c)"
  "list_all (\<lambda>i. \<not> mounting i) (setup_network config veth)"
  "list_all (\<lambda>i. \<not> mounting i) make_root_private"
  "list_all (\<lambda>i. \<not> mounting i) (make_jail_root h)"
  "list_all (\<lambda>i. \<not> mounting i) (setup_landlock h config)"
  "list_all (\<lambda>i. \<not> mounting i) (pivot_into root)"
  "list_all (\<lambda>i. \<not> mounting i) drop_all_capabilities"
  "list_all (\<lambda>i. \<not> mounting i) (load_filter filt)"
  "list_all (\<lambda>i. \<not> mounting i) (do_exec cmd args env)"
  by (auto simp: mounting_def setup_userns_def enter_user_namespace_alone_def enter_namespaces_def setup_network_def
      setup_loopback_def make_root_private_def make_jail_root_def setup_landlock_def apply_rules_def pivot_into_def
      drop_all_capabilities_def load_filter_def do_exec_def list_all_iff split: network.split option.split)

lemma hardened_remount_proc: "hardened wr dv root remount_proc"
  unfolding remount_proc_def by (rule hardened.other [OF hardened.fs [OF hardened.nil]]) (simp_all add: mounting_def)

lemma hardened_hardening:
  fixes filt :: "'bpf option"
  shows "hardened wr dv root (setup_hardening config filt)"
proof -
  have "hardened wr dv root ([Must (Unshare [NewPid]), Must Fork, Try Pdeathsig] @ remount_proc :: 'bpf instr list)"
    by (intro hardened_append hardened_remount_proc hardened_others) (simp add: mounting_def)
  then have pid: "hardened wr dv root (if jc_pid_namespace config
      then [Must (Unshare [NewPid]), Must Fork, Try Pdeathsig] @ remount_proc else [] :: 'bpf instr list)"
    by (simp add: hardened.nil)
  show ?thesis
    unfolding setup_hardening_def set_fd_limit_def set_core_limit_def close_inherited_fds_def
    by (intro hardened_append pid hardened_others not_mounting) (simp_all add: mounting_def)
qed

lemma hardened_child:
  assumes "jail_new backend x86 h config = Ok j"
  shows "hardened (writable_bind h config) (device_bind h config) (jail_root h) (jail_child h j cmd args vid)"
proof -
  let ?wr = "writable_bind h config" and ?dv = "device_bind h config" and ?root = "jail_root h"
  have root: "hardened ?wr ?dv ?root (setup_root h ?root (jc_source config) (jc_output config) (jc_source_rw config)
      (jc_readonly_overlays config))"
    by (rule hardened_setup_root) (auto simp: writable_bind_def device_bind_def dev_rw_def trim_slashes_def)
  have "hardened ?wr ?dv ?root (setup_mounts h ?root res)" if "jl_gpu j = Some res" for res
    using gpu_binds_device [of h config res] jail_newD(2) [OF assms that]
    by (intro hardened_setup_mounts) (auto simp: writable_bind_def device_bind_def)
  then have gpu: "hardened ?wr ?dv ?root (case jl_gpu j of Some res \<Rightarrow> setup_mounts h ?root res | None \<Rightarrow> [])"
    by (auto intro: hardened.nil split: option.split)
  show ?thesis
    unfolding jail_child_def Let_def setup_child_parts setup_view_def jail_newD(1) [OF assms]
    by (intro hardened_append root gpu hardened_hardening not_mounting [THEN hardened_others])
      (auto intro!: hardened_others simp: mounting_def)
qed

text \<open>C13. Every bind mount of a jail whose command runs was remounted at once without set-user-id
  binaries; it is read-only unless it is the workspace of a writable jail, the output directory,
  \<open>/dev/null\<close> or a GPU device that was asked for, and it has no device nodes unless it is one of the
  device files.  The exception is the jail's own root, bound to itself.  Every file system that
  was mounted has neither set-user-id binaries nor devices, and is not executable but for
  \<open>/etc\<close>.\<close>

theorem mounts_hardened:
  assumes "jail_new backend x86 h config = Ok j"
    and "run_setup k [] (jail_child h j cmd args vid) = (tr, Executed)"
  shows "(\<forall>i < length tr. \<forall>src dst fl. fst (tr ! i) = MountBind src dst fl \<longrightarrow>
       src = jail_root h \<and> dst = jail_root h \<or>
       (Suc i < length tr \<and> (\<exists>fl'. tr ! Suc i = (MountRemount dst fl', True) \<and> NoSuid \<in> set fl' \<and>
         (RdOnly \<in> set fl' \<or> writable_bind h config src dst) \<and> (NoDev \<in> set fl' \<or> device_bind h config src dst)))) \<and>
    (\<forall>t dst fl opt b. (MountFs t dst fl opt, b) \<in> set tr \<longrightarrow>
       {NoSuid, NoDev} \<subseteq> set fl \<and> (NoExec \<in> set fl \<or> dst = path_join (jail_root h) ''etc''))"
proof (intro conjI allI impI)
  let ?is = "jail_child h j cmd args vid"
  have answers: "answers k tr ?is"
    using assms(2) setup_child_answers unfolding jail_child_def Let_def by blast
  have hardened: "hardened (writable_bind h config) (device_bind h config) (jail_root h) ?is"
    using assms(1) by (rule hardened_child)
  have len: "length tr = length ?is"
    using answers by (simp add: answers_def)
  have must: "?is ! i = Must op" "Must op \<in> set ?is" if "i < length tr" "fst (tr ! i) = op" "mounting (Must op)" for i op
  proof -
    have "?is ! i \<in> set ?is"
      using that(1) len by simp
    then show "?is ! i = Must op" "Must op \<in> set ?is"
      using answers_nth_op [OF answers that(1,2)] hardened_Try [OF hardened, of op] that(3)
      by (auto simp: mounting_def)
  qed
  show "src = jail_root h \<and> dst = jail_root h \<or>
       (Suc i < length tr \<and> (\<exists>fl'. tr ! Suc i = (MountRemount dst fl', True) \<and> NoSuid \<in> set fl' \<and>
         (RdOnly \<in> set fl' \<or> writable_bind h config src dst) \<and> (NoDev \<in> set fl' \<or> device_bind h config src dst)))"
    if "i < length tr" "fst (tr ! i) = MountBind src dst fl" for i src dst fl
  proof -
    have "?is ! i = Must (MountBind src dst fl)"
      using must(1) [OF that] by (simp add: mounting_def)
    from hardened_nth [OF hardened _ this] that(1) len show ?thesis
      using answers_nth_Must(2) [OF answers] by metis
  qed
  show "{NoSuid, NoDev} \<subseteq> set fl" "NoExec \<in> set fl \<or> dst = path_join (jail_root h) ''etc''"
    if "(MountFs t dst fl opt, b) \<in> set tr" for t dst fl opt b
  proof -
    from that obtain i where "i < length tr" "fst (tr ! i) = MountFs t dst fl opt"
      by (metis fst_conv in_set_conv_nth)
    then have "Must (MountFs t dst fl opt) \<in> set ?is"
      using must(2) by (simp add: mounting_def)
    from hardened_fs_mem [OF hardened this]
    show "{NoSuid, NoDev} \<subseteq> set fl" "NoExec \<in> set fl \<or> dst = path_join (jail_root h) ''etc''"
      by simp_all
  qed
qed

lemma demo_usr_mount: "(MountBind ''/usr'' (path_join (jail_root demo_host) ''usr'') [MBind], True) \<in> set demo_trace"
  by (simp add: demo_trace_def demo_prefix_def setup_view_def setup_root_def system_dirs_def bind_mount_def
      do_bind_mount_def demo_host_def trim_slashes_def)

theorem mounts_hardened_witness:
  "jail_new (\<lambda>f. Ok ()) True demo_host demo_config = Ok demo_jail \<and>
   run_setup (\<lambda>tr op. True) [] (jail_child demo_host demo_jail ''/bin/true'' [] 0) = (demo_trace, Executed) \<and>
   (\<exists>i fl. fst (demo_trace ! i) = MountBind ''/usr'' (path_join (jail_root demo_host) ''usr'') [MBind] \<and>
      demo_trace ! Suc i = (MountRemount (path_join (jail_root demo_host) ''usr'') fl, True) \<and>
      NoSuid \<in> set fl \<and> RdOnly \<in> set fl)"
proof -
  let ?dst = "path_join (jail_root demo_host) ''usr''"
  obtain i where i: "i < length demo_trace" "fst (demo_trace ! i) = MountBind ''/usr'' ?dst [MBind]"
    using demo_usr_mount by (metis fst_conv in_set_conv_nth)
  have ro: "\<not> writable_bind demo_host demo_config ''/usr'' ?dst"
    by (simp add: writable_bind_def demo_config_def jail_config_default_def gpu_device_def gpu_default_def)
  have root: "''/usr'' \<noteq> jail_root demo_host"
    by (simp add: jail_root_def demo_host_def path_join_def is_absolute_def starts_with_def ends_with_def strip_suffix_def)
  from mounts_hardened [OF demo_jail_new demo_run [unfolded demo_setup_def]] i ro root show ?thesis
    using demo_jail_new demo_run unfolding demo_setup_def by blast
qed

text \<open>What the documentation of the \<open>landlock\<close> crate and of the kernel says.  A ruleset is built in the
  best-effort mode unless another is asked for: rights that the kernel does not know are accepted, and
  where it has no landlock at all the calls succeed, report \<open>NotEnforced\<close> and have no effect.  Where a
  ruleset is enforced, in full or in part, the thread can no longer change the file system topology
  with \<open>pivot_root\<close>.\<close>

definition is_restrict :: "'bpf sysop \<Rightarrow> bool" where
  "is_restrict op = (case op of LandlockRestrict rules \<Rightarrow> True | _ \<Rightarrow> False)"

definition landlock_documented :: "host \<Rightarrow> 'bpf sys_kernel \<Rightarrow> bool" where
  "landlock_documented h k =
     (h_landlock h \<and>
      (if h_ruleset h = NotEnforced then ignores is_restrict k \<and> (\<forall>tr rules. k tr (LandlockRestrict rules))
       else \<forall>tr rules a b. (LandlockRestrict rules, True) \<in> set tr \<longrightarrow> \<not> k tr (PivotRoot a b)))"

definition landlock_off :: "jail_config \<Rightarrow> jail_config" where
  "landlock_off config = config\<lparr>jc_landlock := False\<rparr>"

lemma landlock_parts:
  assumes "jc_landlock config" "h_landlock h"
  shows "\<exists>xs rules zs. setup_child h config gpu filt cmd args veth userns_fd =
      xs @ Must (LandlockRestrict rules) # [Must (Chdir (jail_root h))] @ Must (PivotRoot ''.'' ''.'') # zs \<and>
    setup_child h (landlock_off config) gpu filt cmd args veth userns_fd =
      xs @ [Must (Chdir (jail_root h))] @ Must (PivotRoot ''.'' ''.'') # zs"
proof -
  have same: "setup_view h (landlock_off config) gpu veth userns_fd = (setup_view h config gpu veth userns_fd :: 'a instr list)"
    "setup_hardening (landlock_off config) filt = setup_hardening config filt"
    "setup_env h (landlock_off config) ip g = setup_env h config ip g"
    "proxy_host_ip (landlock_off config) veth = proxy_host_ip config veth" for ip g
    by (simp_all add: landlock_off_def setup_view_def setup_userns_def setup_network_def setup_hardening_def setup_env_def Let_def
        proxy_host_ip_def split: option.split)
  show ?thesis
    unfolding setup_child_parts same using assms
    by (auto simp: setup_landlock_def apply_rules_def pivot_into_def landlock_off_def)
qed

text \<open>C34. What landlock, which is on by default, does to a jail.  Where the kernel enforces the ruleset,
  in full or in part, the command never runs: the child restricts itself before it changes its root, and
  the change of root is then refused.  Where the kernel has no landlock, the check for it passes all the
  same and the setup goes on as if landlock had not been asked for: it ends in the same way as for the
  configuration without it.\<close>
theorem landlock_outcome:
  assumes "jail_new backend x86 h config = Ok j" "jc_landlock config" "landlock_documented h k"
  shows "if h_ruleset h = NotEnforced
    then snd (run_setup k [] (jail_child h j cmd args vid)) =
         snd (run_setup k [] (jail_child h (j\<lparr>jl_config := landlock_off config\<rparr>) cmd args vid))
    else snd (run_setup k [] (jail_child h j cmd args vid)) \<noteq> Executed"
proof -
  let ?is = "\<lambda>c. setup_child h c (jl_gpu j) (jl_filter j) cmd args (jail_veth config vid) (jc_user_namespace config)"
  have child: "jail_child h j cmd args vid = ?is config"
    "jail_child h (j\<lparr>jl_config := landlock_off config\<rparr>) cmd args vid = ?is (landlock_off config)"
    by (simp_all add: jail_child_def jail_newD(1) [OF assms(1)] jail_veth_def landlock_off_def)
  have "h_landlock h"
    using assms(3) by (simp add: landlock_documented_def)
  from landlock_parts [OF assms(2) this] obtain xs rules zs
    where parts: "?is config = xs @ Must (LandlockRestrict rules) # [Must (Chdir (jail_root h))] @ Must (PivotRoot ''.'' ''.'') # zs"
      "?is (landlock_off config) = xs @ [Must (Chdir (jail_root h))] @ Must (PivotRoot ''.'' ''.'') # zs"
    by blast
  show ?thesis
  proof (cases "h_ruleset h = NotEnforced")
    case True
    then have "ignores is_restrict k" "\<And>tr. k tr (LandlockRestrict rules)"
      using assms(3) by (simp_all add: landlock_documented_def)
    then have "snd (run_setup k [] (?is config)) = snd (run_setup k [] (?is (landlock_off config)))"
      unfolding parts by (intro run_without [of is_restrict]) (simp_all add: is_restrict_def is_exec_def)
    then show ?thesis
      using True unfolding child by simp
  next
    case False
    have "exec_last (?is config)"
      by (rule setup_child_exec_last)
    then have "snd (run_setup k [] (?is config)) \<noteq> Executed"
      unfolding parts using assms(3) False by (intro blocked_never_executes) (auto simp: landlock_documented_def)
    then show ?thesis
      using False unfolding child by simp
  qed
qed

text \<open>A kernel that enforces rulesets, and one that has none.\<close>

definition demo_landlock_kernel :: "unit sys_kernel" where
  "demo_landlock_kernel tr op =
     (case op of PivotRoot a b \<Rightarrow> list_all (\<lambda>(c, ok). \<not> (is_restrict c \<and> ok)) tr | _ \<Rightarrow> True)"

theorem landlock_outcome_witness:
  "snd (run_setup demo_landlock_kernel []
     (jail_child (demo_host\<lparr>h_ruleset := FullyEnforced\<rparr>) (demo_jail\<lparr>jl_config := demo_config\<lparr>jc_landlock := True\<rparr>\<rparr>)
        ''/bin/true'' [] 0)) \<noteq> Executed \<and>
   snd (run_setup (\<lambda>tr op. True) []
     (jail_child demo_host (demo_jail\<lparr>jl_config := demo_config\<lparr>jc_landlock := True\<rparr>\<rparr>) ''/bin/true'' [] 0)) = Executed"
proof -
  let ?config = "demo_config\<lparr>jc_landlock := True\<rparr>"
  have new: "jail_new (\<lambda>f. Ok ()) True (demo_host\<lparr>h_ruleset := s\<rparr>) ?config = Ok (demo_jail\<lparr>jl_config := ?config\<rparr>)" for s
    by (simp add: jail_new_def demo_host_def demo_config_def jail_config_default_def gpu_default_def compile_def
        demo_jail_def)
  have enforced: "landlock_documented (demo_host\<lparr>h_ruleset := FullyEnforced\<rparr>) demo_landlock_kernel"
    by (auto simp: landlock_documented_def demo_landlock_kernel_def demo_host_def is_restrict_def list_all_iff intro: bexI [rotated])
  have absent: "landlock_documented demo_host (\<lambda>tr (op :: unit sysop). True)"
    by (simp add: landlock_documented_def ignores_def demo_host_def)
  have off: "demo_jail\<lparr>jl_config := landlock_off ?config\<rparr> = demo_jail" and host: "demo_host\<lparr>h_ruleset := NotEnforced\<rparr> = demo_host"
    by (simp_all add: landlock_off_def demo_jail_def demo_config_def demo_host_def)
  have "snd (run_setup (\<lambda>tr op. True) [] (jail_child demo_host demo_jail ''/bin/true'' [] 0)) = Executed"
    using demo_run by (simp add: demo_setup_def)
  moreover have "h_ruleset demo_host = NotEnforced"
    by (simp add: demo_host_def)
  ultimately show ?thesis
    using landlock_outcome [OF new [of FullyEnforced] _ enforced, of "''/bin/true''" "[]" 0]
      landlock_outcome [OF new [of NotEnforced, unfolded host] _ absent, of "''/bin/true''" "[]" 0]
    by (simp add: off)
qed

end
