(* ===== verification/Tenancy.thy ===== *)
theory Tenancy
  imports Phantom_Proxy
begin

text \<open>
  Who a request of the control plane acts for: \<open>agentjail-ctl/src/tenant.rs\<close> and
  \<open>agentjail-ctl/src/auth.rs\<close>.  Error messages that quote their argument are values that carry it.
\<close>

section \<open>Roles and scopes\<close>

datatype role = Admin | Operator

definition is_admin :: "role \<Rightarrow> bool" where
  "is_admin r = (case r of Admin \<Rightarrow> True | Operator \<Rightarrow> False)"

record tenant_scope =
  sc_tenant :: string
  sc_role :: role

definition dev_admin :: tenant_scope where
  "dev_admin = \<lparr>sc_tenant = ''dev'', sc_role = Admin\<rparr>"

definition can_see :: "tenant_scope \<Rightarrow> string \<Rightarrow> bool" where
  "can_see scope tenant = (is_admin (sc_role scope) \<or> sc_tenant scope = tenant)"

section \<open>Keys\<close>

datatype key_error =
    EmptyKey | KeyForm | InvalidToken string | TenantLength string | TenantStart string
  | TenantChars string | UnknownRole string

record api_key =
  ak_token :: string
  ak_tenant :: string
  ak_role :: role

definition key_scope :: "api_key \<Rightarrow> tenant_scope" where
  "key_scope k = \<lparr>sc_tenant = ak_tenant k, sc_role = ak_role k\<rparr>"

definition role_from_str :: "string \<Rightarrow> (key_error, role) result" where
  "role_from_str s =
     (if s = ''admin'' then Ok Admin else if s = ''operator'' then Ok Operator else Err (UnknownRole s))"

definition ascii_lowercase :: "char \<Rightarrow> bool" where
  "ascii_lowercase c = (97 \<le> (of_char c :: nat) \<and> (of_char c :: nat) \<le> 122)"

definition ascii_digit :: "char \<Rightarrow> bool" where
  "ascii_digit c = (48 \<le> (of_char c :: nat) \<and> (of_char c :: nat) \<le> 57)"

definition slug_char :: "char \<Rightarrow> bool" where
  "slug_char c = (ascii_lowercase c \<or> ascii_digit c \<or> c = CHR ''_'' \<or> c = CHR ''-'')"

definition validate_tenant :: "string \<Rightarrow> (key_error, unit) result" where
  "validate_tenant t =
     (if t = [] \<or> 64 < length t then Err (TenantLength t)
      else if \<not> (ascii_lowercase (hd t) \<or> ascii_digit (hd t)) then Err (TenantStart t)
      else if \<not> list_all slug_char (tl t) then Err (TenantChars t)
      else Ok ())"

definition contains_whitespace :: "string \<Rightarrow> bool" where
  "contains_whitespace s = list_ex (\<lambda>i. list_ex (starts_with (drop i s)) ws_seqs) [0..<length s]"

definition parse_key :: "string \<Rightarrow> (key_error, api_key) result" where
  "parse_key raw =
     (let s = trim raw
      in if s = [] then Err EmptyKey
         else and_then (ok_or KeyForm (split_once CHR ''@'' s)) (\<lambda>(token, rest).
           and_then (ok_or KeyForm (split_once CHR '':'' rest)) (\<lambda>(tenant, role_s).
             if token = [] \<or> contains_whitespace token then Err (InvalidToken token)
             else and_then (validate_tenant tenant) (\<lambda>_.
               and_then (role_from_str role_s) (\<lambda>role.
                 Ok \<lparr>ak_token = token, ak_tenant = tenant, ak_role = role\<rparr>)))))"

section \<open>Authentication\<close>

text \<open>\<open>ApiKeys::from_config_strings\<close> skips the lines that do not parse.\<close>

definition from_config_strings :: "string list \<Rightarrow> api_key list" where
  "from_config_strings ls =
     List.map_filter (\<lambda>l. case parse_key l of Inr k \<Rightarrow> Some k | Inl e \<Rightarrow> None) ls"

definition is_enforced :: "api_key list \<Rightarrow> bool" where
  "is_enforced keys = (keys \<noteq> [])"

fun match_from :: "tenant_scope option \<Rightarrow> string \<Rightarrow> api_key list \<Rightarrow> tenant_scope option" where
  "match_from winner presented [] = winner"
| "match_from winner presented (k # keys) =
     match_from (if ak_token k = presented \<and> winner = None then Some (key_scope k) else winner) presented keys"

definition match_scope :: "api_key list \<Rightarrow> string \<Rightarrow> tenant_scope option" where
  "match_scope keys presented = match_from None presented keys"

text \<open>\<open>HeaderValue::to_str\<close> accepts visible ASCII, space and tab.\<close>

definition header_to_str :: "string \<Rightarrow> string option" where
  "header_to_str v =
     (if list_all (\<lambda>c. c = CHR 0x09 \<or> (32 \<le> (of_char c :: nat) \<and> (of_char c :: nat) \<le> 126)) v then Some v else None)"

text \<open>The scope a request runs with, or the message of the 401 response.\<close>

definition require_api_key :: "api_key list \<Rightarrow> headers \<Rightarrow> (string, tenant_scope) result" where
  "require_api_key keys h =
     (if \<not> is_enforced keys then Ok dev_admin
      else and_then (ok_or ''missing api key'' (Option.bind (hm_get ''authorization'' h) header_to_str)) (\<lambda>raw.
        let token = trim (case strip_prefix ''Bearer '' raw of Some t \<Rightarrow> t | None \<Rightarrow> raw)
        in ok_or ''invalid api key'' (match_scope keys token)))"

section \<open>Lemmas\<close>

lemma match_from_Some: "match_from (Some w) presented keys = Some w"
  by (induction keys) auto

lemma match_scope_find:
  "match_scope keys presented = map_option key_scope (find (\<lambda>k. ak_token k = presented) keys)"
  unfolding match_scope_def by (induction keys) (auto simp: match_from_Some)

lemma match_scope_Some:
  assumes "match_scope keys presented = Some scope"
  shows "\<exists>k \<in> set keys. ak_token k = presented \<and> scope = key_scope k"
  using assms by (auto simp: match_scope_find find_Some_iff)

lemma match_scope_None: "match_scope keys presented = None \<longleftrightarrow> presented \<notin> ak_token ` set keys"
  by (auto simp: match_scope_find find_None_iff)

definition malformed :: "string \<Rightarrow> bool" where
  "malformed l = (case parse_key l of Inl e \<Rightarrow> True | Inr k \<Rightarrow> False)"

lemma from_config_strings_simps [simp]:
  "from_config_strings [] = []"
  "from_config_strings (l # ls) =
     (case parse_key l of Inl e \<Rightarrow> from_config_strings ls | Inr k \<Rightarrow> k # from_config_strings ls)"
  by (simp_all add: from_config_strings_def map_filter_def split: sum.split)

lemma from_config_strings_Nil: "from_config_strings ls = [] \<longleftrightarrow> list_all malformed ls"
  by (induction ls) (auto simp: malformed_def split: sum.splits)

lemma from_config_strings_parsed: "k \<in> set (from_config_strings ls) \<Longrightarrow> \<exists>l \<in> set ls. parse_key l = Ok k"
  by (induction ls) (auto split: sum.splits)

text \<open>What a key that parses looks like.\<close>

definition key_text :: "api_key \<Rightarrow> string" where
  "key_text k = ak_token k @ ''@'' @ ak_tenant k @ '':'' @
     (case ak_role k of Admin \<Rightarrow> ''admin'' | Operator \<Rightarrow> ''operator'')"

definition key_wf :: "api_key \<Rightarrow> bool" where
  "key_wf k = (ak_token k \<noteq> [] \<and> CHR ''@'' \<notin> set (ak_token k) \<and> \<not> contains_whitespace (ak_token k) \<and>
     validate_tenant (ak_tenant k) = Ok ())"

lemma validate_tenant_Ok:
  "validate_tenant t = Ok () \<longleftrightarrow>
     t \<noteq> [] \<and> length t \<le> 64 \<and> (ascii_lowercase (hd t) \<or> ascii_digit (hd t)) \<and> list_all slug_char t"
  by (cases t) (auto simp: validate_tenant_def slug_char_def)

lemma role_from_str_Ok:
  "role_from_str s = Ok r \<longleftrightarrow> s = (case r of Admin \<Rightarrow> ''admin'' | Operator \<Rightarrow> ''operator'')"
  by (cases r) (auto simp: role_from_str_def)

lemma parse_key_Ok:
  assumes "parse_key raw = Ok k"
  shows "trim raw = key_text k" "key_wf k"
  using assms
  by (auto simp: parse_key_def Let_def and_then_Ok_iff split_once_Some_iff role_from_str_Ok key_text_def key_wf_def
      split: if_splits)

lemma key_wf_tenant_colon:
  assumes "key_wf k"
  shows "CHR '':'' \<notin> set (ak_tenant k)"
proof
  assume "CHR '':'' \<in> set (ak_tenant k)"
  then have "slug_char CHR '':''"
    using assms by (auto simp: key_wf_def validate_tenant_Ok list_all_iff)
  then show False
    by (simp add: slug_char_def ascii_lowercase_def ascii_digit_def)
qed

lemma parse_key_text:
  assumes "trim raw = key_text k" "key_wf k"
  shows "parse_key raw = Ok k"
proof -
  have "split_once CHR ''@'' (trim raw) = Some (ak_token k, ak_tenant k @ '':'' @
      (case ak_role k of Admin \<Rightarrow> ''admin'' | Operator \<Rightarrow> ''operator''))"
    using assms by (simp add: key_text_def key_wf_def split_once_Some_iff)
  moreover have "split_once CHR '':'' (ak_tenant k @ '':'' @
      (case ak_role k of Admin \<Rightarrow> ''admin'' | Operator \<Rightarrow> ''operator'')) =
      Some (ak_tenant k, case ak_role k of Admin \<Rightarrow> ''admin'' | Operator \<Rightarrow> ''operator'')"
    using key_wf_tenant_colon [OF assms(2)] by (simp add: split_once_Some_iff)
  moreover have "role_from_str (case ak_role k of Admin \<Rightarrow> ''admin'' | Operator \<Rightarrow> ''operator'') = Ok (ak_role k)"
    by (simp add: role_from_str_Ok)
  moreover have "trim raw \<noteq> []"
    using assms by (simp add: key_text_def)
  ultimately show ?thesis
    using assms(2) by (simp add: parse_key_def key_wf_def)
qed

section \<open>Properties\<close>

text \<open>C16. Authentication, from the lines of the configuration to the scope of a request.  A line
  gives a key exactly when it is \<open>token@tenant:role\<close>, with white space around it, a token without
  white space or \<open>@\<close> and a well-formed tenant.  A request runs with a scope exactly when its
  authorization header, with or without \<open>Bearer\<close>, holds the token of a key, and then it has the
  tenant and role of the first such key - or when no line at all gives a key, and then every
  request, with or without a header, has the scope of a platform administrator.\<close>
theorem authentication_exact:
  "(parse_key l = Ok k \<longleftrightarrow> trim l = key_text k \<and> key_wf k) \<and>
   (require_api_key (from_config_strings ls) h = Ok scope \<longleftrightarrow>
      (if list_all malformed ls then scope = dev_admin
       else \<exists>raw key. hm_get ''authorization'' h = Some raw \<and> header_to_str raw = Some raw \<and>
              find (\<lambda>key. ak_token key = trim (case strip_prefix ''Bearer '' raw of Some t \<Rightarrow> t | None \<Rightarrow> raw))
                (from_config_strings ls) = Some key \<and> scope = key_scope key))"
proof (intro conjI)
  show "parse_key l = Ok k \<longleftrightarrow> trim l = key_text k \<and> key_wf k"
    using parse_key_Ok parse_key_text by blast
  show "require_api_key (from_config_strings ls) h = Ok scope \<longleftrightarrow>
      (if list_all malformed ls then scope = dev_admin
       else \<exists>raw key. hm_get ''authorization'' h = Some raw \<and> header_to_str raw = Some raw \<and>
              find (\<lambda>key. ak_token key = trim (case strip_prefix ''Bearer '' raw of Some t \<Rightarrow> t | None \<Rightarrow> raw))
                (from_config_strings ls) = Some key \<and> scope = key_scope key)"
    unfolding require_api_key_def is_enforced_def from_config_strings_Nil [symmetric]
    by (auto simp: and_then_Ok_iff Let_def match_scope_find header_to_str_def bind_eq_Some_conv split: if_splits)
qed

end
