(* ===== verification/Control_Stores.thy ===== *)
theory Control_Stores
  imports Tenancy Jail_Config
begin

text \<open>
  The in-memory stores of the control plane: workspaces (\<open>agentjail-ctl/src/workspaces.rs\<close>),
  snapshots (\<open>snapshots.rs\<close>) and sessions (\<open>session.rs\<close>), with their records and the errors of
  \<open>error.rs\<close>.  A hash map from ids is the list of its values in the order of iteration; times are
  integers; Unicode lower case, which only the search uses, is an argument.
\<close>

section \<open>Errors\<close>

datatype ctl_error =
    BadRequest string | NotFound string | Unauthorized | Conflict string | CtlJail jail_error
  | CtlPhantom phantom_error | CtlIo string | CtlInternal string | CtlConfig string

definition ctl_status :: "ctl_error \<Rightarrow> nat" where
  "ctl_status e =
     (case e of BadRequest m \<Rightarrow> 400 | NotFound m \<Rightarrow> 404 | Unauthorized \<Rightarrow> 401 | Conflict m \<Rightarrow> 409
      | CtlConfig m \<Rightarrow> 400 | CtlJail j \<Rightarrow> 500 | CtlPhantom p \<Rightarrow> 500 | CtlIo m \<Rightarrow> 500 | CtlInternal m \<Rightarrow> 500)"

text \<open>A handler that panics has no answer.\<close>

type_synonym 'a handled = "(ctl_error, 'a) result option"

text \<open>Times are counts of nanoseconds; \<open>OffsetDateTime\<close> covers the years -9999 to 9999 and its
  addition and subtraction panic outside.  \<open>as i64\<close> reinterprets an unsigned 64-bit number.\<close>

definition NANOS :: int where
  "NANOS = 1000000000"

definition offset_min :: int where
  "offset_min = - 377705116800 * NANOS"

definition offset_max :: int where
  "offset_max = 253402300800 * NANOS - 1"

definition offset_add :: "int \<Rightarrow> int \<Rightarrow> int option" where
  "offset_add t d = (if offset_min \<le> t + d \<and> t + d \<le> offset_max then Some (t + d) else None)"

definition as_i64 :: "nat \<Rightarrow> int" where
  "as_i64 n = (if n < 2 ^ 63 then int n else int n - 2 ^ 64)"

section \<open>Rows with an id\<close>

text \<open>What the stores have in common: rows with an id and a tenant.\<close>

definition row_get :: "('r \<Rightarrow> string) \<Rightarrow> string \<Rightarrow> 'r list \<Rightarrow> 'r option" where
  "row_get key i rows = find (\<lambda>r. key r = i) rows"

definition row_insert :: "('r \<Rightarrow> string) \<Rightarrow> string \<Rightarrow> 'r \<Rightarrow> 'r list \<Rightarrow> (ctl_error, 'r list) result" where
  "row_insert key what r rows =
     (if row_get key (key r) rows \<noteq> None then Err (Conflict (what @ '' '' @ key r @ '' already exists''))
      else Ok (rows @ [r]))"

definition row_update :: "('r \<Rightarrow> string) \<Rightarrow> string \<Rightarrow> ('r \<Rightarrow> 'r) \<Rightarrow> 'r list \<Rightarrow> 'r list" where
  "row_update key i f rows = map (\<lambda>r. if key r = i then f r else r) rows"

definition row_remove :: "('r \<Rightarrow> string) \<Rightarrow> string \<Rightarrow> 'r list \<Rightarrow> 'r list" where
  "row_remove key i rows = filter (\<lambda>r. key r \<noteq> i) rows"

definition in_tenant :: "('r \<Rightarrow> string) \<Rightarrow> string option \<Rightarrow> 'r \<Rightarrow> bool" where
  "in_tenant tenant_of t r = (case t of None \<Rightarrow> True | Some x \<Rightarrow> tenant_of r = x)"

text \<open>Newest first, skip, and at most \<open>clamp(1, 500)\<close> rows; the total counts all.\<close>

definition clamp :: "nat \<Rightarrow> nat \<Rightarrow> nat \<Rightarrow> nat" where
  "clamp lo hi n = (if n < lo then lo else if hi < n then hi else n)"

definition newest_first :: "('r \<Rightarrow> int) \<Rightarrow> 'r list \<Rightarrow> 'r list" where
  "newest_first created rows = sort_key (\<lambda>r. - created r) rows"

definition page_of :: "nat \<Rightarrow> nat \<Rightarrow> 'r list \<Rightarrow> 'r list \<times> nat" where
  "page_of limit offset rows = (take (clamp 1 500 limit) (drop offset rows), length rows)"

text \<open>A search text is trimmed and lower-cased; an empty one matches everything.\<close>

definition needle_of :: "(string \<Rightarrow> string) \<Rightarrow> string option \<Rightarrow> string option" where
  "needle_of lower_case q =
     (case q of None \<Rightarrow> None
      | Some s \<Rightarrow> (let n = lower_case (trim s) in if n = [] then None else Some n))"

definition hay_matches :: "(string \<Rightarrow> string) \<Rightarrow> string option \<Rightarrow> string option list \<Rightarrow> bool" where
  "hay_matches lower_case needle hays =
     (case needle of None \<Rightarrow> True
      | Some n \<Rightarrow> list_ex (\<lambda>h. case h of Some s \<Rightarrow> contains_str (lower_case s) n | None \<Rightarrow> False) hays)"

section \<open>Workspaces\<close>

record workspace_domain =
  wd_domain :: string
  wd_backend_url :: "string option"
  wd_vm_port :: "nat option"

datatype domain_target = BackendUrl string | VmPort nat

text \<open>\<open>dbg\<close> is the debug format of a string, with its quotes and escapes.\<close>

definition domain_target_of :: "(string \<Rightarrow> string) \<Rightarrow> workspace_domain \<Rightarrow> (ctl_error, domain_target) result" where
  "domain_target_of dbg d =
     (case (wd_backend_url d, wd_vm_port d) of
        (Some url, None) \<Rightarrow>
          if starts_with url ''http://'' \<or> starts_with url ''https://'' then Ok (BackendUrl url)
          else Err (BadRequest (''backend_url must start with http:// or https:// (got '' @ dbg url @ '')''))
      | (None, Some p) \<Rightarrow>
          if p = 0 then Err (BadRequest ''vm_port must be > 0'') else Ok (VmPort p)
      | (Some _, Some _) \<Rightarrow> Err (BadRequest ''workspace domain: set exactly one of backend_url / vm_port'')
      | (None, None) \<Rightarrow> Err (BadRequest ''workspace domain: one of backend_url / vm_port is required''))"

record workspace_spec =
  wsp_memory_mb :: nat
  wsp_timeout_secs :: nat
  wsp_cpu_percent :: nat
  wsp_max_pids :: nat
  wsp_network_mode :: string
  wsp_network_domains :: "string list"
  wsp_seccomp :: string
  wsp_idle_timeout_secs :: nat
  wsp_flavors :: "string list"

record workspace =
  w_id :: string
  w_tenant :: string
  w_created_at :: int
  w_deleted_at :: "int option"
  w_source_dir :: string
  w_output_dir :: string
  w_config :: workspace_spec
  w_git_repo :: "string option"
  w_git_ref :: "string option"
  w_label :: "string option"
  w_domains :: "workspace_domain list"
  w_last_exec_at :: "int option"
  w_paused_at :: "int option"
  w_auto_snapshot :: "string option"

definition ws_live :: "workspace \<Rightarrow> bool" where
  "ws_live w = (w_deleted_at w = None)"

definition ws_insert :: "workspace \<Rightarrow> workspace list \<Rightarrow> (ctl_error, workspace list) result" where
  "ws_insert w st = row_insert w_id ''workspace'' w st"

definition ws_get :: "string \<Rightarrow> workspace list \<Rightarrow> workspace option" where
  "ws_get i st = (case row_get w_id i st of Some w \<Rightarrow> if ws_live w then Some w else None | None \<Rightarrow> None)"

definition str_lower :: "string \<Rightarrow> string" where
  "str_lower s = map ascii_lower s"

fun first_domain :: "string \<Rightarrow> workspace_domain list \<Rightarrow> workspace_domain option" where
  "first_domain host [] = None"
| "first_domain host (d # ds) = (if str_lower (wd_domain d) = str_lower host then Some d else first_domain host ds)"

fun ws_by_domain :: "string \<Rightarrow> workspace list \<Rightarrow> (workspace \<times> workspace_domain) option" where
  "ws_by_domain host [] = None"
| "ws_by_domain host (w # st) =
     (if \<not> ws_live w then ws_by_domain host st
      else case first_domain (str_lower host) (w_domains w) of Some d \<Rightarrow> Some (w, d) | None \<Rightarrow> ws_by_domain host st)"

definition ws_list ::
  "(string \<Rightarrow> string) \<Rightarrow> string option \<Rightarrow> nat \<Rightarrow> nat \<Rightarrow> string option \<Rightarrow> workspace list \<Rightarrow> workspace list \<times> nat" where
  "ws_list lower_case tenant limit offset q st =
     (let needle = needle_of lower_case q
      in page_of limit offset (newest_first w_created_at
           (filter (\<lambda>w. ws_live w \<and> in_tenant w_tenant tenant w \<and>
              hay_matches lower_case needle [Some (w_id w), w_label w, w_git_repo w]) st)))"

definition ws_mark_deleted :: "int \<Rightarrow> string \<Rightarrow> workspace list \<Rightarrow> workspace option \<times> workspace list" where
  "ws_mark_deleted now i st =
     (case ws_get i st of
        Some w \<Rightarrow> (Some (w\<lparr>w_deleted_at := Some now\<rparr>), row_update w_id i (\<lambda>w. w\<lparr>w_deleted_at := Some now\<rparr>) st)
      | None \<Rightarrow> (None, st))"

definition ws_set_label :: "string \<Rightarrow> string option \<Rightarrow> workspace list \<Rightarrow> workspace option \<times> workspace list" where
  "ws_set_label i label st =
     (case ws_get i st of
        Some w \<Rightarrow> (Some (w\<lparr>w_label := label\<rparr>), row_update w_id i (\<lambda>w. w\<lparr>w_label := label\<rparr>) st)
      | None \<Rightarrow> (None, st))"

definition ws_touch :: "int \<Rightarrow> string \<Rightarrow> workspace list \<Rightarrow> workspace list" where
  "ws_touch now i st = row_update w_id i (\<lambda>w. w\<lparr>w_last_exec_at := Some now\<rparr>) st"

definition ws_mark_paused :: "int \<Rightarrow> string \<Rightarrow> string \<Rightarrow> workspace list \<Rightarrow> workspace list" where
  "ws_mark_paused now i snap st =
     row_update w_id i (\<lambda>w. w\<lparr>w_paused_at := Some now, w_auto_snapshot := Some snap\<rparr>) st"

definition ws_mark_resumed :: "string \<Rightarrow> workspace list \<Rightarrow> string option \<times> workspace list" where
  "ws_mark_resumed i st =
     (case row_get w_id i st of
        Some w \<Rightarrow> (w_auto_snapshot w, row_update w_id i (\<lambda>w. w\<lparr>w_paused_at := None, w_auto_snapshot := None\<rparr>) st)
      | None \<Rightarrow> (None, st))"

section \<open>Snapshots\<close>

record snapshot_record =
  sn_id :: string
  sn_tenant :: string
  sn_workspace :: "string option"
  sn_name :: "string option"
  sn_created_at :: int
  sn_path :: string
  sn_size_bytes :: nat

definition sn_insert :: "snapshot_record \<Rightarrow> snapshot_record list \<Rightarrow> (ctl_error, snapshot_record list) result" where
  "sn_insert s st = row_insert sn_id ''snapshot'' s st"

definition sn_get :: "string \<Rightarrow> snapshot_record list \<Rightarrow> snapshot_record option" where
  "sn_get i st = row_get sn_id i st"

definition sn_list ::
  "(string \<Rightarrow> string) \<Rightarrow> string option \<Rightarrow> string option \<Rightarrow> nat \<Rightarrow> nat \<Rightarrow> string option \<Rightarrow> snapshot_record list
   \<Rightarrow> snapshot_record list \<times> nat" where
  "sn_list lower_case tenant workspace limit offset q st =
     (let needle = needle_of lower_case q
      in page_of limit offset (newest_first sn_created_at
           (filter (\<lambda>s. in_tenant sn_tenant tenant s \<and>
              (case workspace of Some w \<Rightarrow> sn_workspace s = Some w | None \<Rightarrow> True) \<and>
              hay_matches lower_case needle [Some (sn_id s), sn_name s, sn_workspace s]) st)))"

definition sn_remove :: "string \<Rightarrow> snapshot_record list \<Rightarrow> snapshot_record option \<times> snapshot_record list" where
  "sn_remove i st = (sn_get i st, row_remove sn_id i st)"

section \<open>Sessions\<close>

record session =
  se_id :: string
  se_tenant :: string
  se_created_at :: int
  se_expires_at :: "int option"
  se_services :: "service_id list"
  se_env :: "(string \<times> string) list"

definition se_insert :: "session \<Rightarrow> session list \<Rightarrow> (ctl_error, session list) result" where
  "se_insert s st = row_insert se_id ''session'' s st"

definition se_get :: "string \<Rightarrow> session list \<Rightarrow> session option" where
  "se_get i st = row_get se_id i st"

definition se_list :: "string option \<Rightarrow> session list \<Rightarrow> session list" where
  "se_list tenant st = newest_first se_created_at (filter (in_tenant se_tenant tenant) st)"

definition se_remove :: "string \<Rightarrow> session list \<Rightarrow> session option \<times> session list" where
  "se_remove i st = (se_get i st, row_remove se_id i st)"

section \<open>What the stores promise\<close>

lemma row_get_Some: "row_get key i st = Some r \<Longrightarrow> r \<in> set st \<and> key r = i"
  by (auto simp: row_get_def find_Some_iff)

lemma row_get_None: "row_get key i st = None \<longleftrightarrow> i \<notin> key ` set st"
  by (auto simp: row_get_def find_None_iff)

lemma row_get_mem: "distinct (map key st) \<Longrightarrow> r \<in> set st \<Longrightarrow> row_get key (key r) st = Some r"
  unfolding row_get_def by (induction st) (auto simp: rev_image_eqI)

lemma row_insert_Ok: "row_insert key what r st = Ok st' \<longleftrightarrow> key r \<notin> key ` set st \<and> st' = st @ [r]"
  using row_get_None [of key "key r" st] by (auto simp: row_insert_def)

text \<open>The rows of one tenant and the rows of the others.\<close>

definition rows_of :: "('r \<Rightarrow> string) \<Rightarrow> string \<Rightarrow> 'r list \<Rightarrow> 'r list" where
  "rows_of tenant t st = filter (\<lambda>r. tenant r = t) st"

definition others_of :: "('r \<Rightarrow> string) \<Rightarrow> string \<Rightarrow> 'r list \<Rightarrow> 'r list" where
  "others_of tenant t st = filter (\<lambda>r. tenant r \<noteq> t) st"

text \<open>What a client of a store relies on: a live row is found by its id, and an insertion adds one
  row with a new id.\<close>

locale row_store =
  fixes key :: "'r \<Rightarrow> string"
    and tenant :: "'r \<Rightarrow> string"
    and live :: "'r \<Rightarrow> bool"
    and get :: "string \<Rightarrow> 'r list \<Rightarrow> 'r option"
    and insert_row :: "'r \<Rightarrow> 'r list \<Rightarrow> (ctl_error, 'r list) result"
  assumes get_some: "get i st = Some r \<Longrightarrow> r \<in> set st \<and> key r = i \<and> live r"
    and get_mem: "distinct (map key st) \<Longrightarrow> r \<in> set st \<Longrightarrow> live r \<Longrightarrow> get (key r) st = Some r"
    and insert_ok: "insert_row r st = Ok st' \<longleftrightarrow> key r \<notin> key ` set st \<and> st' = st @ [r]"
begin

lemma get_filter:
  assumes "distinct (map key st)"
  shows "get i (filter P st) = (case get i st of Some r \<Rightarrow> if P r then Some r else None | None \<Rightarrow> None)"
proof (cases "get i (filter P st)")
  case None
  show ?thesis
  proof (cases "get i st")
    case (Some r)
    have "\<not> P r"
    proof
      assume "P r"
      then have "get (key r) (filter P st) = Some r"
        using get_some [OF Some] assms by (intro get_mem) (auto simp: distinct_map_filter)
      with None get_some [OF Some] show False
        by simp
    qed
    with None Some show ?thesis
      by simp
  qed (simp add: None)
next
  case (Some r)
  then have "r \<in> set st" "P r" "key r = i" "live r"
    using get_some [OF Some] by auto
  with Some get_mem [OF assms, of r] show ?thesis
    by simp
qed

text \<open>Looking up a row of a tenant depends on the rows of that tenant only.\<close>

lemma get_rows_of:
  assumes "distinct (map key st)"
  shows "get i (rows_of tenant t st) = (case get i st of Some r \<Rightarrow> if tenant r = t then Some r else None | None \<Rightarrow> None)"
  unfolding rows_of_def by (rule get_filter [OF assms])

lemma insert_distinct: "insert_row r st = Ok st' \<Longrightarrow> distinct (map key st) \<Longrightarrow> distinct (map key st')"
  by (auto simp: insert_ok)

lemma insert_get: "insert_row r st = Ok st' \<Longrightarrow> distinct (map key st) \<Longrightarrow> live r \<Longrightarrow> get (key r) st' = Some r"
  using insert_distinct [of r st st'] get_mem [of st' r] by (auto simp: insert_ok)

lemma insert_views:
  assumes "insert_row r st = Ok st'"
  shows "rows_of tenant t st' = rows_of tenant t st @ (if tenant r = t then [r] else [])"
    and "others_of tenant t st' = others_of tenant t st @ (if tenant r = t then [] else [r])"
  using assms by (auto simp: insert_ok rows_of_def others_of_def)

end

interpretation workspaces: row_store w_id w_tenant ws_live ws_get ws_insert
proof
  fix i st r
  assume "ws_get i st = Some r"
  then show "r \<in> set st \<and> w_id r = i \<and> ws_live r"
    by (auto simp: ws_get_def dest: row_get_Some split: option.splits if_splits)
next
  fix st r
  assume "distinct (map w_id st)" "r \<in> set st" "ws_live r"
  then show "ws_get (w_id r) st = Some r"
    by (simp add: ws_get_def row_get_mem)
qed (simp add: ws_insert_def row_insert_Ok)

interpretation snapshots: row_store sn_id sn_tenant "\<lambda>_. True" sn_get sn_insert
  by unfold_locales (auto simp: sn_get_def sn_insert_def row_get_mem row_insert_Ok dest: row_get_Some)

interpretation sessions: row_store se_id se_tenant "\<lambda>_. True" se_get se_insert
  by unfold_locales (auto simp: se_get_def se_insert_def row_get_mem row_insert_Ok dest: row_get_Some)

text \<open>Lists of one tenant are lists of the rows of that tenant.\<close>

lemma in_tenant_None [simp]: "in_tenant tn None r"
  by (simp add: in_tenant_def)

lemma in_tenant_Some [simp]: "in_tenant tn (Some t) r \<longleftrightarrow> tn r = t"
  by (simp add: in_tenant_def)

lemma ws_list_rows: "ws_list lc (Some t) limit offset q st = ws_list lc None limit offset q (rows_of w_tenant t st)"
  unfolding ws_list_def rows_of_def filter_filter by (auto simp: Let_def conj_ac intro!: arg_cong [where f = "page_of limit offset"] arg_cong [where f = "newest_first w_created_at"] filter_cong)

lemma sn_list_rows:
  "sn_list lc (Some t) ws limit offset q st = sn_list lc None ws limit offset q (rows_of sn_tenant t st)"
  unfolding sn_list_def rows_of_def filter_filter by (auto simp: Let_def conj_ac intro!: arg_cong [where f = "page_of limit offset"] arg_cong [where f = "newest_first sn_created_at"] filter_cong)

lemma se_list_rows: "se_list (Some t) st = se_list None (rows_of se_tenant t st)"
  by (simp add: se_list_def rows_of_def in_tenant_def [abs_def])

text \<open>Updating or removing a row of one tenant.\<close>

lemma row_update_keys [simp]: "(\<And>r. key (f r) = key r) \<Longrightarrow> map key (row_update key i f st) = map key st"
  by (induction st) (auto simp: row_update_def)

lemma row_update_views:
  assumes tenant: "\<And>r. tenant (f r) = tenant r"
    and own: "\<And>r. r \<in> set st \<Longrightarrow> key r = i \<Longrightarrow> tenant r = t"
  shows "rows_of tenant t (row_update key i f st) = row_update key i f (rows_of tenant t st)"
    and "others_of tenant t (row_update key i f st) = others_of tenant t st"
  using own by (induction st) (auto simp: row_update_def rows_of_def others_of_def tenant)

lemma row_remove_views:
  assumes own: "\<And>r. r \<in> set st \<Longrightarrow> key r = i \<Longrightarrow> tenant r = t"
  shows "rows_of tenant t (row_remove key i st) = row_remove key i (rows_of tenant t st)"
    and "others_of tenant t (row_remove key i st) = others_of tenant t st"
  using own by (induction st) (auto simp: row_remove_def rows_of_def others_of_def)

lemma row_remove_distinct: "distinct (map key st) \<Longrightarrow> distinct (map key (row_remove key i st))"
  by (simp add: row_remove_def distinct_map_filter)

text \<open>With unique ids, a row of a tenant is the only one with its id.\<close>

lemma unique_row:
  assumes "distinct (map key st)" "row_get key i st = Some r" "r' \<in> set st" "key r' = i"
  shows "r' = r"
  using row_get_mem [OF assms(1,3)] assms(2,4) by simp

end
