(* ===== verification/Exec_Options.thy ===== *)
theory Exec_Options
  imports Control_Stores Paths Jail_Spawn
begin

text \<open>
  What a request may ask of a jail: options and limits
  (\<open>agentjail-ctl/src/routes/exec.rs\<close>), the conversion of options to a stored workspace specification and back (\<open>routes/workspaces.rs\<close>, \<open>routes/workspaces_exec.rs\<close>), and
  the monitored run of a jail (\<open>routes/exec_monitor.rs\<close>).  Messages that quote an argument carry it
  without the quotes and escapes of Rust's debug format.
\<close>

section \<open>Options\<close>

datatype network_spec = SpecNone | SpecLoopback | SpecAllowlist "string list"

datatype seccomp_spec = SpecStandard | SpecStrict

record exec_options =
  eo_network :: "network_spec option"
  eo_seccomp :: "seccomp_spec option"
  eo_cpu_percent :: "nat option"
  eo_max_pids :: "nat option"

record exec_config =
  ec_default_memory_mb :: nat
  ec_default_timeout_secs :: nat
  ec_max_concurrent :: nat

definition exec_config_default :: exec_config where
  "exec_config_default = \<lparr>ec_default_memory_mb = 512, ec_default_timeout_secs = 300, ec_max_concurrent = 16\<rparr>"

definition unwrap_or :: "'a \<Rightarrow> 'a option \<Rightarrow> 'a" where
  "unwrap_or d x = (case x of Some a \<Rightarrow> a | None \<Rightarrow> d)"

definition clamped_timeout :: "nat \<Rightarrow> nat option \<Rightarrow> nat" where
  "clamped_timeout d t = clamp 1 3600 (unwrap_or d t)"

definition capped_memory :: "nat \<Rightarrow> nat option \<Rightarrow> nat" where
  "capped_memory d m = min (unwrap_or d m) 8192"

text \<open>A control character of the ASCII or the Latin-1 range, in UTF-8; white space as in
  \<open>char::is_whitespace\<close>.\<close>

definition ascii_control :: "char \<Rightarrow> bool" where
  "ascii_control c = ((of_char c :: nat) < 32 \<or> (of_char c :: nat) = 127)"

definition c1_control :: "string \<Rightarrow> bool" where
  "c1_control s = (case s of a # b # _ \<Rightarrow> a = CHR 0xC2 \<and> (of_char b :: nat) < 160 | _ \<Rightarrow> False)"

definition contains_control :: "string \<Rightarrow> bool" where
  "contains_control s = (list_ex ascii_control s \<or> list_ex (\<lambda>i. c1_control (drop i s)) [0..<length s])"

definition validate_domain :: "string \<Rightarrow> (ctl_error, unit) result" where
  "validate_domain d =
     (if d = [] \<or> 253 < length d then Err (BadRequest (''invalid domain: '' @ d))
      else if contains_control d \<or> contains_whitespace d then Err (BadRequest (''invalid domain: '' @ d))
      else if contains_str d ''://'' then Err (BadRequest (''domain must not include scheme: '' @ d))
      else Ok ())"

fun validate_each :: "('a \<Rightarrow> ('e, unit) result) \<Rightarrow> 'a list \<Rightarrow> ('e, unit) result" where
  "validate_each f [] = Ok ()"
| "validate_each f (x # xs) = and_then (f x) (\<lambda>_. validate_each f xs)"

definition validate_domains :: "string list \<Rightarrow> (ctl_error, unit) result" where
  "validate_domains domains =
     (if domains = [] then Err (BadRequest ''allowlist must contain at least one domain'')
      else if 32 < length domains then Err (BadRequest ''allowlist limited to 32 domains'')
      else validate_each validate_domain domains)"

definition network_of_spec :: "network_spec option \<Rightarrow> (ctl_error, network) result" where
  "network_of_spec n =
     (case n of
        None \<Rightarrow> Ok NetNone
      | Some SpecNone \<Rightarrow> Ok NetNone
      | Some SpecLoopback \<Rightarrow> Ok Loopback
      | Some (SpecAllowlist domains) \<Rightarrow> and_then (validate_domains domains) (\<lambda>_. Ok (Allowlist domains)))"

definition exec_jail_config ::
  "bool \<Rightarrow> string \<Rightarrow> string \<Rightarrow> nat \<Rightarrow> nat \<Rightarrow> (string \<times> string) list \<Rightarrow> exec_options \<Rightarrow> bool \<Rightarrow> string list
   \<Rightarrow> (ctl_error, jail_config) result" where
  "exec_jail_config is_root source output memory_mb timeout_secs env options source_rw overlays =
     and_then (network_of_spec (eo_network options)) (\<lambda>network.
       Ok (jail_config_default\<lparr>
         jc_source := source, jc_output := output, jc_source_rw := source_rw, jc_network := network,
         jc_seccomp := (case eo_seccomp options of Some SpecStrict \<Rightarrow> Strict | _ \<Rightarrow> Standard),
         jc_landlock := False, jc_memory_mb := memory_mb,
         jc_cpu_percent := clamp 1 800 (unwrap_or 100 (eo_cpu_percent options)),
         jc_max_pids := clamp 1 1024 (unwrap_or 64 (eo_max_pids options)),
         jc_timeout_secs := timeout_secs, jc_user_namespace := \<not> is_root, jc_pid_namespace := True,
         jc_env := env, jc_readonly_overlays := overlays\<rparr>))"

definition language_runtime :: "string \<Rightarrow> (ctl_error, string \<times> string) result" where
  "language_runtime lang =
     (if lang = ''javascript'' \<or> lang = ''js'' then Ok (''main.mjs'', ''/usr/bin/node'')
      else if lang = ''python'' \<or> lang = ''py'' then Ok (''main.py'', ''/usr/bin/python3'')
      else if lang = ''bash'' \<or> lang = ''sh'' then Ok (''main.sh'', ''/bin/sh'')
      else Err (BadRequest (''unsupported language: '' @ lang)))"

section \<open>Workspace specifications\<close>

definition options_to_spec :: "exec_options \<Rightarrow> nat \<Rightarrow> nat \<Rightarrow> nat \<Rightarrow> string list \<Rightarrow> workspace_spec" where
  "options_to_spec options memory_mb timeout_secs idle flavors =
     (let (mode, domains) = (case eo_network options of
            Some SpecLoopback \<Rightarrow> (''loopback'', [])
          | Some (SpecAllowlist ds) \<Rightarrow> (''allowlist'', ds)
          | _ \<Rightarrow> (''none'', []))
      in \<lparr>wsp_memory_mb = memory_mb, wsp_timeout_secs = timeout_secs,
          wsp_cpu_percent = clamp 1 800 (unwrap_or 100 (eo_cpu_percent options)),
          wsp_max_pids = clamp 1 1024 (unwrap_or 64 (eo_max_pids options)),
          wsp_network_mode = mode, wsp_network_domains = domains,
          wsp_seccomp = (case eo_seccomp options of Some SpecStrict \<Rightarrow> ''strict'' | _ \<Rightarrow> ''standard''),
          wsp_idle_timeout_secs = idle, wsp_flavors = flavors\<rparr>)"

definition spec_to_options :: "workspace_spec \<Rightarrow> (ctl_error, exec_options) result" where
  "spec_to_options spec =
     and_then (if wsp_network_mode spec = ''none'' then Ok None
               else if wsp_network_mode spec = ''loopback'' then Ok (Some SpecLoopback)
               else if wsp_network_mode spec = ''allowlist'' then Ok (Some (SpecAllowlist (wsp_network_domains spec)))
               else Err (CtlInternal (''workspace has unknown network_mode: '' @ wsp_network_mode spec))) (\<lambda>network.
       and_then (if wsp_seccomp spec = ''standard'' then Ok (Some SpecStandard)
                 else if wsp_seccomp spec = ''strict'' then Ok (Some SpecStrict)
                 else Err (CtlInternal (''workspace has unknown seccomp: '' @ wsp_seccomp spec))) (\<lambda>seccomp.
         Ok \<lparr>eo_network = network, eo_seccomp = seccomp, eo_cpu_percent = Some (wsp_cpu_percent spec),
             eo_max_pids = Some (wsp_max_pids spec)\<rparr>))"

section \<open>Monitored runs\<close>

definition OUTPUT_CAP_BYTES :: nat where
  "OUTPUT_CAP_BYTES = 16 * 1024"

definition ellipsis :: string where
  "ellipsis = [CHR 0xE2, CHR 0x80, CHR 0xA6]"

text \<open>\<open>push_capped\<close>; \<open>None\<close> is the panic of a slice inside a character.\<close>

definition push_capped :: "string \<Rightarrow> string \<Rightarrow> string option" where
  "push_capped buf line =
     (if OUTPUT_CAP_BYTES < length buf + length line
      then (case slice_to line (min (OUTPUT_CAP_BYTES - length buf) (length line)) of
              None \<Rightarrow> None
            | Some part \<Rightarrow>
                (let buf = buf @ part in Some (if ends_with buf ellipsis then buf else buf @ ellipsis)))
      else Some (buf @ line))"

text \<open>An output stream: its lines, each with the time at which it can be read, and the time of its
  end, when the last process that holds it has closed it or ended.  Times count from the start of the
  jail.\<close>

record out_stream =
  os_lines :: "(nat \<times> string) list"
  os_eof :: "nat option"

text \<open>The loop of \<open>run_monitored_with\<close>: a stream is \<open>None\<close> once its end has been read.  It waits for
  the first of the streams that has something to read, with the standard output first when both
  have, and ends when both streams have ended.  A panic of \<open>push_capped\<close> is one of the handler.\<close>

definition ready_at :: "out_stream option \<Rightarrow> nat option" where
  "ready_at s = (case s of None \<Rightarrow> None | Some s \<Rightarrow> (case os_lines s of [] \<Rightarrow> os_eof s | (t, l) # ls \<Rightarrow> Some t))"

definition read_next :: "out_stream \<Rightarrow> string \<Rightarrow> (out_stream option \<times> string) option" where
  "read_next s buf =
     (case os_lines s of
        [] \<Rightarrow> Some (None, buf)
      | (t, l) # ls \<Rightarrow> map_option (\<lambda>buf. (Some (s\<lparr>os_lines := ls\<rparr>), buf)) (push_capped buf l))"

definition unread :: "out_stream option \<Rightarrow> nat" where
  "unread s = (case s of None \<Rightarrow> 0 | Some s \<Rightarrow> Suc (length (os_lines s)))"

lemma read_next_unread: "read_next s buf = Some (s', buf') \<Longrightarrow> unread s' < unread (Some s)"
  by (auto simp: read_next_def unread_def split: list.splits prod.splits option.splits)

datatype drained = Waiting | Panic | Drained nat string string

function drain_loop :: "nat \<Rightarrow> string \<Rightarrow> string \<Rightarrow> out_stream option \<Rightarrow> out_stream option \<Rightarrow> drained" where
  "drain_loop now buf_out buf_err None None = Drained now buf_out buf_err"
| "drain_loop now buf_out buf_err (Some s) None =
     (case ready_at (Some s) of
        None \<Rightarrow> Waiting
      | Some t \<Rightarrow>
          (case read_next s buf_out of
             None \<Rightarrow> Panic
           | Some (s', buf) \<Rightarrow> drain_loop (max now t) buf buf_err s' None))"
| "drain_loop now buf_out buf_err None (Some s) =
     (case ready_at (Some s) of
        None \<Rightarrow> Waiting
      | Some t \<Rightarrow>
          (case read_next s buf_err of
             None \<Rightarrow> Panic
           | Some (s', buf) \<Rightarrow> drain_loop (max now t) buf_out buf None s'))"
| "drain_loop now buf_out buf_err (Some out) (Some err) =
     (case (ready_at (Some out), ready_at (Some err)) of
        (None, None) \<Rightarrow> Waiting
      | (Some a, b) \<Rightarrow>
          if b = None \<or> max now a \<le> max now (the b)
          then (case read_next out buf_out of
                  None \<Rightarrow> Panic
                | Some (s', buf) \<Rightarrow> drain_loop (max now a) buf buf_err s' (Some err))
          else (case read_next err buf_err of
                  None \<Rightarrow> Panic
                | Some (s', buf) \<Rightarrow> drain_loop (max now (the b)) buf_out buf (Some out) s')
      | (None, Some b) \<Rightarrow>
          (case read_next err buf_err of
             None \<Rightarrow> Panic
           | Some (s', buf) \<Rightarrow> drain_loop (max now b) buf_out buf (Some out) s'))"
  by pat_completeness auto

termination
  by (relation "measure (\<lambda>(now, buf_out, buf_err, out, err). unread out + unread err)")
    (auto dest: read_next_unread)

text \<open>\<open>run_monitored_with\<close>: the streams are drained to their end, and only then the process is waited
  for; the time limit belongs to the wait.  The streams are at their end by then, so the tasks of the
  wait that drain them end at once.\<close>

datatype monitored = Blocked | Panicked | Finished nat jail_output string string

definition run_monitored ::
  "nat option \<Rightarrow> bool \<Rightarrow> out_stream \<Rightarrow> out_stream \<Rightarrow> (nat \<times> wait_status) option \<Rightarrow> monitored" where
  "run_monitored timeout prompt out err ends =
     (case drain_loop 0 [] [] (Some out) (Some err) of
        Waiting \<Rightarrow> Blocked
      | Panic \<Rightarrow> Panicked
      | Drained now so se \<Rightarrow>
          (case wait_jail timeout prompt now ends Some of
             None \<Rightarrow> Blocked
           | Some (t, output) \<Rightarrow> Finished t output so se))"

section \<open>Lemmas\<close>

lemma clamp_bounds: "lo \<le> hi \<Longrightarrow> lo \<le> clamp lo hi n \<and> clamp lo hi n \<le> hi"
  by (simp add: clamp_def)

lemma clamp_id [simp]: "lo \<le> n \<Longrightarrow> n \<le> hi \<Longrightarrow> clamp lo hi n = n"
  by (simp add: clamp_def)

lemma clamp_clamp [simp]: "lo \<le> hi \<Longrightarrow> clamp lo hi (clamp lo hi n) = clamp lo hi n"
  by (simp add: clamp_def)

lemma unwrap_or_simps [simp]: "unwrap_or d None = d" "unwrap_or d (Some a) = a"
  by (simp_all add: unwrap_or_def)

lemma validate_each_Ok: "validate_each f xs = Ok () \<longleftrightarrow> list_all (\<lambda>x. f x = Ok ()) xs"
  by (induction xs) (auto simp: and_then_Ok_iff)

definition capped :: "string \<Rightarrow> bool" where
  "capped buf = (length buf \<le> OUTPUT_CAP_BYTES \<or> (length buf = OUTPUT_CAP_BYTES + 3 \<and> ends_with buf ellipsis))"

lemma push_capped_capped:
  assumes "push_capped buf line = Some buf'" "capped buf"
  shows "capped buf'"
proof (cases "OUTPUT_CAP_BYTES < length buf")
  case True
  then show ?thesis
    using assms by (auto simp: push_capped_def slice_to_def Let_def capped_def split: if_splits)
next
  case False
  have "length (buf @ take (OUTPUT_CAP_BYTES - length buf) line) \<le> OUTPUT_CAP_BYTES"
    using False by simp
  then show ?thesis
    using assms False
    by (auto simp: push_capped_def slice_to_def Let_def capped_def ends_with_iff ellipsis_def simp del: length_append
        split: if_splits) (simp_all)
qed

text \<open>Draining one stream by itself.\<close>

fun drain_lines :: "string \<Rightarrow> string list \<Rightarrow> string option" where
  "drain_lines buf [] = Some buf"
| "drain_lines buf (l # ls) = (case push_capped buf l of Some buf' \<Rightarrow> drain_lines buf' ls | None \<Rightarrow> None)"

lemma drain_lines_capped:
  assumes "drain_lines buf ls = Some out" "capped buf"
  shows "capped out"
  using assms by (induction buf ls rule: drain_lines.induct) (auto dest: push_capped_capped split: option.splits)

text \<open>Lines of ASCII characters never panic.\<close>

lemma push_capped_ascii: "list_all (\<lambda>c. \<not> utf8_cont c) line \<Longrightarrow> push_capped buf line \<noteq> None"
  by (auto simp: push_capped_def slice_to_def is_char_boundary_def Let_def list_all_length split: if_splits)

lemma drain_lines_ascii: "list_all (list_all (\<lambda>c. \<not> utf8_cont c)) ls \<Longrightarrow> drain_lines buf ls \<noteq> None"
  by (induction buf ls rule: drain_lines.induct) (auto dest: push_capped_ascii split: option.splits)

text \<open>What a configuration keeps to.\<close>

definition within_limits :: "jail_config \<Rightarrow> bool" where
  "within_limits c =
     (1 \<le> jc_timeout_secs c \<and> jc_timeout_secs c \<le> 3600 \<and> jc_memory_mb c \<le> 8192 \<and>
      1 \<le> jc_cpu_percent c \<and> jc_cpu_percent c \<le> 800 \<and> 1 \<le> jc_max_pids c \<and> jc_max_pids c \<le> 1024 \<and>
      jc_seccomp c \<noteq> Disabled \<and> jc_pid_namespace c \<and>
      (case jc_network c of
         Allowlist ds \<Rightarrow> 1 \<le> length ds \<and> length ds \<le> 32 \<and>
           list_all (\<lambda>d. d \<noteq> [] \<and> length d \<le> 253 \<and> \<not> contains_whitespace d \<and> \<not> contains_str d ''://'') ds
       | _ \<Rightarrow> True))"

lemma validate_domain_Ok:
  "validate_domain d = Ok () \<longleftrightarrow>
     d \<noteq> [] \<and> length d \<le> 253 \<and> \<not> contains_control d \<and> \<not> contains_whitespace d \<and> \<not> contains_str d ''://''"
  by (auto simp: validate_domain_def)

lemma validate_domains_Ok:
  "validate_domains ds = Ok () \<longleftrightarrow>
     1 \<le> length ds \<and> length ds \<le> 32 \<and> list_all (\<lambda>d. validate_domain d = Ok ()) ds"
  by (cases ds) (auto simp: validate_domains_def validate_each_Ok and_then_Ok_iff)

lemma network_of_spec_Ok:
  assumes "network_of_spec n = Ok net"
  shows "case net of
         Allowlist ds \<Rightarrow> 1 \<le> length ds \<and> length ds \<le> 32 \<and>
           list_all (\<lambda>d. d \<noteq> [] \<and> length d \<le> 253 \<and> \<not> contains_whitespace d \<and> \<not> contains_str d ''://'') ds
       | _ \<Rightarrow> True"
proof (cases "\<exists>ds. n = Some (SpecAllowlist ds)")
  case True
  then obtain ds where "net = Allowlist ds" "validate_domains ds = Ok ()"
    using assms by (auto simp: network_of_spec_def and_then_Ok_iff)
  then show ?thesis
    by (simp add: validate_domains_Ok validate_domain_Ok list_all_iff)
next
  case False
  then have "net = NetNone \<or> net = Loopback"
    using assms by (auto simp: network_of_spec_def split: option.splits network_spec.splits)
  then show ?thesis
    by auto
qed

lemma exec_jail_config_limits:
  assumes "exec_jail_config root src out (capped_memory dm m) (clamped_timeout dt t) env opts rw ov = Ok c"
  shows "within_limits c"
proof -
  obtain net where net: "network_of_spec (eo_network opts) = Ok net"
    and c: "jc_network c = net" "jc_memory_mb c = capped_memory dm m" "jc_timeout_secs c = clamped_timeout dt t"
      "jc_cpu_percent c = clamp 1 800 (unwrap_or 100 (eo_cpu_percent opts))"
      "jc_max_pids c = clamp 1 1024 (unwrap_or 64 (eo_max_pids opts))"
      "jc_seccomp c = (case eo_seccomp opts of Some SpecStrict \<Rightarrow> Strict | _ \<Rightarrow> Standard)" "jc_pid_namespace c"
    using assms unfolding exec_jail_config_def and_then_Ok_iff by auto
  have "1 \<le> clamped_timeout dt t \<and> clamped_timeout dt t \<le> 3600" "capped_memory dm m \<le> 8192"
    by (auto simp: clamped_timeout_def capped_memory_def clamp_def)
  moreover have "jc_seccomp c \<noteq> Disabled"
    unfolding c by (simp split: option.split seccomp_spec.split)
  ultimately show ?thesis
    using network_of_spec_Ok [OF net] c(7) unfolding within_limits_def c by (simp add: clamp_bounds)
qed

lemma stored_options:
  "\<exists>o'. spec_to_options (options_to_spec opts mem t idle flavors) = Ok o' \<and>
     exec_jail_config root src out mem' t' env o' rw ov = exec_jail_config root src out mem' t' env opts rw ov"
proof -
  define net where "net = (case eo_network opts of Some SpecNone \<Rightarrow> None | n \<Rightarrow> n)"
  define sec where "sec = (case eo_seccomp opts of Some SpecStrict \<Rightarrow> SpecStrict | _ \<Rightarrow> SpecStandard)"
  define o' where "o' = \<lparr>eo_network = net, eo_seccomp = Some sec,
      eo_cpu_percent = Some (clamp 1 800 (unwrap_or 100 (eo_cpu_percent opts))),
      eo_max_pids = Some (clamp 1 1024 (unwrap_or 64 (eo_max_pids opts)))\<rparr>"
  have "spec_to_options (options_to_spec opts mem t idle flavors) = Ok o'"
    unfolding o'_def net_def sec_def spec_to_options_def options_to_spec_def Let_def
    by (cases "eo_network opts"; cases "the (eo_network opts)"; cases "eo_seccomp opts = Some SpecStrict")
      (auto split: option.splits seccomp_spec.splits)
  moreover have "network_of_spec net = network_of_spec (eo_network opts)"
    unfolding net_def network_of_spec_def by (simp split: option.split network_spec.split)
  moreover have "(case Some sec of Some SpecStrict \<Rightarrow> Strict | _ \<Rightarrow> Standard) =
      (case eo_seccomp opts of Some SpecStrict \<Rightarrow> Strict | _ \<Rightarrow> Standard)"
    unfolding sec_def by (simp split: option.split seccomp_spec.split)
  ultimately show ?thesis
    unfolding exec_jail_config_def by (intro exI [of _ o']) (simp add: o'_def)
qed

lemma drain_lines_small:
  "length buf + length (concat ls) \<le> OUTPUT_CAP_BYTES \<Longrightarrow> drain_lines buf ls = Some (buf @ concat ls)"
  by (induction buf ls rule: drain_lines.induct) (auto simp: push_capped_def)

text \<open>A full buffer takes nothing more, and does not panic.\<close>

lemma push_capped_full:
  "OUTPUT_CAP_BYTES \<le> length buf \<Longrightarrow> \<exists>buf'. push_capped buf l = Some buf' \<and> OUTPUT_CAP_BYTES \<le> length buf'"
  by (auto simp: push_capped_def slice_to_def is_char_boundary_def Let_def)

lemma drain_lines_full: "OUTPUT_CAP_BYTES \<le> length buf \<Longrightarrow> drain_lines buf ls \<noteq> None"
proof (induction buf ls rule: drain_lines.induct)
  case (2 buf l ls)
  then show ?case
    using push_capped_full [of buf l] by auto
qed simp

text \<open>The line that crosses the bound is cut inside a character.\<close>

definition splits_character :: "nat \<Rightarrow> string list \<Rightarrow> bool" where
  "splits_character room ls =
     (\<exists>pre l post. ls = pre @ l # post \<and> length (concat pre) \<le> room \<and> room < length (concat pre) + length l \<and>
        \<not> is_char_boundary l (room - length (concat pre)))"

lemma splits_character_Nil [simp]: "\<not> splits_character room []"
  by (simp add: splits_character_def)

lemma splits_character_Cons:
  "splits_character room (l # ls) \<longleftrightarrow>
     (if length l \<le> room then splits_character (room - length l) ls else \<not> is_char_boundary l room)"
proof (cases "length l \<le> room")
  case True
  have "splits_character (room - length l) ls" if split: "l # ls = pre @ l' # post" "length (concat pre) \<le> room"
    "room < length (concat pre) + length l'" "\<not> is_char_boundary l' (room - length (concat pre))" for pre l' post
  proof -
    from split(1,3) True obtain pre' where "pre = l # pre'" "ls = pre' @ l' # post"
      by (cases pre) auto
    then show ?thesis
      using split unfolding splits_character_def by (intro exI [of _ pre'] exI [of _ l'] exI [of _ post]) auto
  qed
  moreover have "splits_character room (l # ls)" if later: "splits_character (room - length l) ls"
  proof -
    obtain pre l' post where "ls = pre @ l' # post" "length (concat pre) \<le> room - length l"
      "room - length l < length (concat pre) + length l'" "\<not> is_char_boundary l' (room - length l - length (concat pre))"
      using later unfolding splits_character_def by blast
    then show ?thesis
      using True unfolding splits_character_def by (intro exI [of _ "l # pre"] exI [of _ l'] exI [of _ post]) auto
  qed
  ultimately show ?thesis
    using True unfolding splits_character_def [of room "l # ls"] by auto
next
  case False
  have "pre = []" if "l # ls = pre @ l' # post" "length (concat pre) \<le> room" for pre l' post
    using that False by (cases pre) auto
  then show ?thesis
    using False unfolding splits_character_def by fastforce
qed

lemma drain_lines_panic:
  "length buf \<le> OUTPUT_CAP_BYTES \<Longrightarrow>
   drain_lines buf ls = None \<longleftrightarrow> splits_character (OUTPUT_CAP_BYTES - length buf) ls"
proof (induction buf ls rule: drain_lines.induct)
  case (2 buf l ls)
  show ?case
  proof (cases "length buf + length l \<le> OUTPUT_CAP_BYTES")
    case True
    then have push: "push_capped buf l = Some (buf @ l)"
      by (simp add: push_capped_def)
    have "OUTPUT_CAP_BYTES - length (buf @ l) = OUTPUT_CAP_BYTES - length buf - length l"
      "length l \<le> OUTPUT_CAP_BYTES - length buf"
      using True by simp_all
    then show ?thesis
      using "2.IH" [OF push] True 2 push by (simp add: splits_character_Cons)
  next
    case False
    have cut: "min (OUTPUT_CAP_BYTES - length buf) (length l) = OUTPUT_CAP_BYTES - length buf"
      "\<not> length l \<le> OUTPUT_CAP_BYTES - length buf"
      using False 2(2) by simp_all
    show ?thesis
    proof (cases "is_char_boundary l (OUTPUT_CAP_BYTES - length buf)")
      case True
      then obtain buf' where "push_capped buf l = Some buf'" "OUTPUT_CAP_BYTES \<le> length buf'"
        using False 2(2) by (auto simp: push_capped_def cut slice_to_def Let_def)
      then show ?thesis
        using drain_lines_full [of buf' ls] True cut(2) by (auto simp: splits_character_Cons)
    qed (use False cut(2) in \<open>simp add: splits_character_Cons push_capped_def cut slice_to_def\<close>)
  qed
qed simp

text \<open>The buffer begins with the output up to the bound.\<close>

lemma push_capped_prefix:
  assumes "push_capped buf l = Some buf'"
  shows "take OUTPUT_CAP_BYTES (buf' @ r) = take OUTPUT_CAP_BYTES (buf @ l @ r)"
proof (cases "length buf + length l \<le> OUTPUT_CAP_BYTES")
  case False
  then obtain e where "buf' = buf @ take (OUTPUT_CAP_BYTES - length buf) l @ e"
    using assms by (auto simp: push_capped_def slice_to_def Let_def min_def split: if_splits)
  then show ?thesis
    using False by (cases "length buf \<le> OUTPUT_CAP_BYTES") auto
qed (use assms in \<open>auto simp: push_capped_def\<close>)

lemma drain_lines_prefix:
  "drain_lines buf ls = Some out \<Longrightarrow> take OUTPUT_CAP_BYTES out = take OUTPUT_CAP_BYTES (buf @ concat ls)"
proof (induction buf ls rule: drain_lines.induct)
  case (2 buf l ls)
  then show ?case
    using push_capped_prefix [of buf l _ "concat ls"] by (auto split: option.splits)
qed simp

text \<open>When a stream has been read to its end.\<close>

definition stream_lines :: "out_stream \<Rightarrow> string list" where
  "stream_lines s = map snd (os_lines s)"

definition stream_end :: "out_stream \<Rightarrow> nat option" where
  "stream_end s = map_option (foldr max (map fst (os_lines s))) (os_eof s)"

text \<open>The loop over both streams gives what draining each of them alone gives, in whatever order the
  lines arrive, and ends with the later of the two.\<close>

definition rest_drained :: "string \<Rightarrow> out_stream option \<Rightarrow> string option" where
  "rest_drained buf s = (case s of None \<Rightarrow> Some buf | Some s \<Rightarrow> drain_lines buf (stream_lines s))"

definition rest_end :: "out_stream option \<Rightarrow> nat option" where
  "rest_end s = (case s of None \<Rightarrow> Some 0 | Some s \<Rightarrow> stream_end s)"

definition drain_each :: "nat \<Rightarrow> string \<Rightarrow> string \<Rightarrow> out_stream option \<Rightarrow> out_stream option \<Rightarrow> drained" where
  "drain_each now buf_out buf_err out err =
     (case (rest_drained buf_out out, rest_drained buf_err err) of
        (Some so, Some se) \<Rightarrow>
          (case (rest_end out, rest_end err) of
             (Some a, Some b) \<Rightarrow> Drained (max now (max a b)) so se
           | _ \<Rightarrow> Waiting)
      | _ \<Rightarrow> Panic)"

lemma never_ready:
  assumes "ready_at (Some s) = None"
  shows "rest_drained buf (Some s) = Some buf" "rest_end (Some s) = None"
  using assms
  by (auto simp: ready_at_def rest_drained_def rest_end_def stream_lines_def stream_end_def split: list.splits)

lemma read_next_None:
  assumes "read_next s buf = None"
  shows "rest_drained buf (Some s) = None"
  using assms by (auto simp: read_next_def rest_drained_def stream_lines_def split: list.splits)

lemma read_next_Some:
  assumes "ready_at (Some s) = Some t" "read_next s buf = Some (s', buf')"
  shows "rest_drained buf (Some s) = rest_drained buf' s'" "rest_end (Some s) = map_option (max t) (rest_end s')"
  using assms
  by (auto simp: ready_at_def read_next_def rest_drained_def rest_end_def stream_lines_def stream_end_def
      option.map_comp comp_def split: list.splits)

lemma drain_each_done: "drain_each now buf_out buf_err None None = Drained now buf_out buf_err"
  by (simp add: drain_each_def rest_drained_def rest_end_def)

lemma drain_each_out:
  assumes "ready_at (Some out) = Some t" "read_next out buf_out = Some (s', buf)"
  shows "drain_each (max now t) buf buf_err s' err = drain_each now buf_out buf_err (Some out) err"
  using read_next_Some [OF assms]
  by (simp add: drain_each_def max.assoc max.left_commute split: option.split)

lemma drain_each_err:
  assumes "ready_at (Some err) = Some t" "read_next err buf_err = Some (s', buf)"
  shows "drain_each (max now t) buf_out buf out s' = drain_each now buf_out buf_err out (Some err)"
  using read_next_Some [OF assms]
  by (simp add: drain_each_def max.assoc max.left_commute split: option.split)

lemma drain_each_panic:
  "read_next out buf_out = None \<Longrightarrow> drain_each now buf_out buf_err (Some out) err = Panic"
  "read_next err' buf_err = None \<Longrightarrow> drain_each now buf_out buf_err out' (Some err') = Panic"
  by (simp_all add: drain_each_def read_next_None split: option.split)

lemma drain_each_waiting:
  "ready_at (Some out) = None \<Longrightarrow> drain_each now buf_out buf_err (Some out) None = Waiting"
  "ready_at (Some err) = None \<Longrightarrow> drain_each now buf_out buf_err None (Some err) = Waiting"
  "ready_at (Some out) = None \<Longrightarrow> ready_at (Some err) = None \<Longrightarrow>
     drain_each now buf_out buf_err (Some out) (Some err) = Waiting"
  by (simp_all add: drain_each_def never_ready rest_drained_def [of _ None] split: option.split)

lemmas drain_each_simps = drain_each_done drain_each_out drain_each_err drain_each_panic drain_each_waiting

lemma drain_loop_each: "drain_loop now buf_out buf_err out err = drain_each now buf_out buf_err out err"
  by (induction now buf_out buf_err out err rule: drain_loop.induct)
    (auto simp: drain_each_simps split: option.split)

section \<open>Properties\<close>

text \<open>C35. Limits of a jail.  Whatever options a request gives, the configuration of its jail keeps
  to the limits of the service; and the options stored with a workspace give, at every later run,
  the same configuration and the same errors as the options of the request.\<close>
theorem exec_within_limits:
  "(exec_jail_config root src out (capped_memory dm m) (clamped_timeout dt t) env opts rw ov = Ok c \<longrightarrow>
      within_limits c) \<and>
   and_then (spec_to_options (options_to_spec opts (capped_memory dm m) (clamped_timeout dt t) idle flavors)) (\<lambda>o'.
       exec_jail_config root src out (capped_memory (capped_memory dm m) None)
         (clamped_timeout (clamped_timeout dt t) None) env o' rw ov) =
     exec_jail_config root src out (capped_memory dm m) (clamped_timeout dt t) env opts rw ov"
proof (intro conjI impI)
  have "capped_memory (capped_memory dm m) None = capped_memory dm m"
    "clamped_timeout (clamped_timeout dt t) None = clamped_timeout dt t"
    by (simp_all add: capped_memory_def clamped_timeout_def)
  then show "and_then (spec_to_options (options_to_spec opts (capped_memory dm m) (clamped_timeout dt t) idle flavors)) (\<lambda>o'.
       exec_jail_config root src out (capped_memory (capped_memory dm m) None)
         (clamped_timeout (clamped_timeout dt t) None) env o' rw ov) =
     exec_jail_config root src out (capped_memory dm m) (clamped_timeout dt t) env opts rw ov"
    using stored_options [of opts "capped_memory dm m" "clamped_timeout dt t" idle flavors root src out
        "capped_memory dm m" "clamped_timeout dt t" env rw ov]
    by auto
qed (rule exec_jail_config_limits)

theorem exec_within_limits_witness:
  "\<exists>c. exec_jail_config True ''/s'' ''/o'' (capped_memory 512 (Some 100000)) (clamped_timeout 300 (Some 0)) []
         \<lparr>eo_network = Some (SpecAllowlist [''api.github.com'']), eo_seccomp = None, eo_cpu_percent = Some 5000,
          eo_max_pids = None\<rparr> False [] = Ok c \<and> within_limits c"
proof -
  let ?e = "exec_jail_config True ''/s'' ''/o'' (capped_memory 512 (Some 100000)) (clamped_timeout 300 (Some 0)) []
         \<lparr>eo_network = Some (SpecAllowlist [''api.github.com'']), eo_seccomp = None, eo_cpu_percent = Some 5000,
          eo_max_pids = None\<rparr> False []"
  have "validate_domains [''api.github.com''] = Ok ()"
    by code_simp
  then obtain c where "?e = Ok c"
    by (auto simp: exec_jail_config_def network_of_spec_def)
  then show ?thesis
    using exec_within_limits by blast
qed



end
