(* ===== verification/Git_Clone.thy ===== *)
theory Git_Clone
  imports Exec_Options
begin

text \<open>
  Cloning repositories into the source directory of a jail: the checks on addresses, references and
  directories and the clone run by the host (\<open>agentjail-ctl/src/routes/exec_git.rs\<close>), and the clone
  inside a jail of its own (\<open>routes/clone_jail.rs\<close>).  What git, the jail and the file system do are
  arguments.
\<close>

section \<open>Repositories\<close>

record git_repo_entry =
  gr_repo :: string
  gr_ref :: "string option"
  gr_dir :: "string option"

record git_spec =
  gs_repo :: "string option"
  gs_ref :: "string option"
  gs_repos :: "git_repo_entry list"

definition git_primary :: "git_spec \<Rightarrow> string option \<times> string option" where
  "git_primary g =
     (case gs_repo g of
        Some repo \<Rightarrow> (Some repo, gs_ref g)
      | None \<Rightarrow> (case gs_repos g of e # _ \<Rightarrow> (Some (gr_repo e), gr_ref e) | [] \<Rightarrow> (None, None)))"

fun trim_end_git :: "string \<Rightarrow> string" where
  "trim_end_git s = (case strip_suffix ''.git'' s of Some r \<Rightarrow> if length r < length s then trim_end_git r else s | None \<Rightarrow> s)"

definition default_repo_subdir :: "string \<Rightarrow> string" where
  "default_repo_subdir url = trim (trim_end_git (last (split_on CHR ''/'' url)))"

definition validate_subdir :: "string \<Rightarrow> (ctl_error, unit) result" where
  "validate_subdir name =
     (if name = [] \<or> name = ''.'' \<or> name = ''..'' then Err (BadRequest (''git.repos.dir invalid: '' @ name))
      else if CHR ''/'' \<in> set name \<or> CHR 0x5C \<in> set name \<or> starts_with name ''.''
      then Err (BadRequest (''git.repos.dir must not contain slashes or leading `.`: '' @ name))
      else Ok ())"

definition url_host :: "string \<Rightarrow> string" where
  "url_host after = hd (split_on CHR ''/'' after)"

definition validate_repo_url :: "string \<Rightarrow> (ctl_error, unit) result" where
  "validate_repo_url repo =
     (case strip_prefix ''https://'' repo of
        Some after \<Rightarrow>
          if 512 < length repo then Err (BadRequest ''git.repo must be https:// (max 512 bytes)'')
          else if CHR ''@'' \<in> set (url_host after)
          then Err (BadRequest ''git.repo must not embed credentials (user:token@host)'')
          else Ok ()
      | None \<Rightarrow> Err (BadRequest ''git.repo must be https:// (max 512 bytes)''))"

definition validate_git_ref :: "string \<Rightarrow> (ctl_error, unit) result" where
  "validate_git_ref r =
     (if r = [] \<or> 200 < length r \<or> contains_control r then Err (BadRequest ''git.ref invalid'')
      else if starts_with r ''-'' then Err (BadRequest ''git.ref must not start with `-`'')
      else Ok ())"

definition repo_host :: "string \<Rightarrow> (ctl_error, string) result" where
  "repo_host url =
     and_then (ok_or (BadRequest ''git.repo must be https://'') (strip_prefix ''https://'' url)) (\<lambda>after.
       if url_host after = [] then Err (BadRequest ''git.repo missing host'')
       else Ok (hd (split_on CHR '':'' (url_host after))))"

text \<open>The command lines of the two ways to clone, and the configuration of the jail.\<close>

definition clone_pins :: "string list" where
  "clone_pins =
     [''-c'', ''protocol.allow=never'', ''-c'', ''protocol.https.allow=always'', ''-c'', ''protocol.ext.allow=never'',
      ''-c'', ''protocol.file.allow=never'', ''-c'', ''core.sshCommand=false'', ''-c'', ''core.fsmonitor=false'',
      ''-c'', ''core.hooksPath=/dev/null'', ''-c'', ''transfer.fsckObjects=true'']"

definition host_pins :: "string list" where
  "host_pins = [''-c'', ''fetch.fsckObjects=true'', ''-c'', ''receive.fsckObjects=true'']"

definition clone_args :: "string list \<Rightarrow> string \<Rightarrow> string option \<Rightarrow> string \<Rightarrow> string list" where
  "clone_args pins repo git_ref target =
     pins @ [''clone'', ''--depth=1'', ''--single-branch'', ''--no-tags''] @
     (case git_ref of Some r \<Rightarrow> [''--branch'', r] | None \<Rightarrow> []) @ [''--'', repo, target]"

definition clone_jail_config :: "bool \<Rightarrow> string \<Rightarrow> string \<Rightarrow> string \<Rightarrow> jail_config" where
  "clone_jail_config is_root scratch dst host =
     jail_config_default\<lparr>
       jc_source := dst, jc_output := scratch, jc_source_rw := True, jc_network := Allowlist [host],
       jc_seccomp := Standard, jc_landlock := False, jc_memory_mb := 512, jc_cpu_percent := 100, jc_max_pids := 64,
       jc_timeout_secs := 60, jc_user_namespace := \<not> is_root, jc_pid_namespace := True, jc_ipc_namespace := True,
       jc_env := [(''PATH'', ''/usr/local/bin:/usr/bin:/bin''), (''HOME'', ''/tmp''), (''GIT_TERMINAL_PROMPT'', ''0'')]\<rparr>"

definition clone_failed :: "string \<Rightarrow> string" where
  "clone_failed stderr =
     ''git clone failed: '' @ join_with (CHR '' '' # CHR 0xC2 # CHR 0xB7 # '' '') (take 3 (rev (str_lines stderr)))"

text \<open>What came of the jail: its exit and the text of its standard error.\<close>

definition clone_status :: "(jail_error, jail_output \<times> string) result \<Rightarrow> (ctl_error, unit) result" where
  "clone_status r =
     (case r of
        Inl e \<Rightarrow> Err (CtlJail e)
      | Inr (out, stderr) \<Rightarrow>
          if out_timed_out out then Err (BadRequest ''git clone timed out (60s)'')
          else if out_exit_code out \<noteq> 0
          then Err (BadRequest (clone_failed stderr))
          else Ok ())"

text \<open>One repository cloned in a jail: the jails started, with their configurations and command
  lines, and the result.  \<open>scratch\<close> is the temporary output directory and whether it could be made,
  \<open>run\<close> what becomes of a jail.\<close>

type_synonym clone_run = "jail_config \<Rightarrow> string list \<Rightarrow> (jail_error, jail_output \<times> string) result"
type_synonym 'j clone_result = "'j list \<times> (ctl_error, unit) result"

definition check_repo :: "string \<Rightarrow> string option \<Rightarrow> (ctl_error, unit) result" where
  "check_repo repo git_ref =
     and_then (validate_repo_url repo) (\<lambda>_. case git_ref of Some r \<Rightarrow> validate_git_ref r | None \<Rightarrow> Ok ())"

definition io_err :: "(string, 'a) result \<Rightarrow> (ctl_error, 'a) result" where
  "io_err r = (case r of Inl e \<Rightarrow> Err (CtlIo e) | Inr a \<Rightarrow> Ok a)"

definition jail_clone_one ::
  "bool \<Rightarrow> (string, string) result \<Rightarrow> clone_run \<Rightarrow> string \<Rightarrow> string option \<Rightarrow> string \<Rightarrow> (jail_config \<times> string list) clone_result" where
  "jail_clone_one is_root scratch run repo git_ref dst =
     (case and_then (check_repo repo git_ref) (\<lambda>_. and_then (repo_host repo) (\<lambda>host.
           and_then (io_err scratch) (\<lambda>dir. Ok (clone_jail_config is_root dir dst host)))) of
        Inl e \<Rightarrow> ([], Err e)
      | Inr config \<Rightarrow>
          (let args = clone_args clone_pins repo git_ref ''/workspace''
           in ([(config, args)], clone_status (run config args))))"

text \<open>One repository cloned by the host: the command is killed after a minute; the clone goes to a
  staging directory whose entries are then moved up, \<open>flatten\<close> with its target and its staging
  directory.\<close>

datatype host_git = GitTimedOut | GitFailed string | GitExited bool string

record clone_host =
  ch_mkdirs :: "string \<Rightarrow> (string, unit) result"
  ch_git :: "string list \<Rightarrow> host_git"
  ch_flatten :: "string \<Rightarrow> string \<Rightarrow> (string, unit) result"

definition host_status :: "host_git \<Rightarrow> (ctl_error, unit) result" where
  "host_status g =
     (case g of
        GitTimedOut \<Rightarrow> Err (BadRequest ''git clone timed out (60s)'')
      | GitFailed e \<Rightarrow> Err (CtlIo e)
      | GitExited ok stderr \<Rightarrow> if ok then Ok () else Err (BadRequest (clone_failed stderr)))"

definition host_clone_one :: "clone_host \<Rightarrow> string \<Rightarrow> string option \<Rightarrow> string \<Rightarrow> string list clone_result" where
  "host_clone_one h repo git_ref dst =
     (let target = path_join dst ''__repo'';
          args = clone_args (clone_pins @ host_pins) repo git_ref target
      in case and_then (check_repo repo git_ref) (\<lambda>_. io_err (ch_mkdirs h target)) of
           Inl e \<Rightarrow> ([], Err e)
         | Inr _ \<Rightarrow> ([args], and_then (host_status (ch_git h args)) (\<lambda>_. io_err (ch_flatten h dst target))))"

text \<open>Both ways take one repository, or several with a subdirectory each.\<close>

fun clone_entries ::
  "(string \<Rightarrow> (string, unit) result) \<Rightarrow> (string \<Rightarrow> string option \<Rightarrow> string \<Rightarrow> 'j clone_result) \<Rightarrow> git_repo_entry list
   \<Rightarrow> string \<Rightarrow> 'j clone_result" where
  "clone_entries mkdirs one [] dst = ([], Ok ())"
| "clone_entries mkdirs one (e # es) dst =
     (let subdir = unwrap_or (default_repo_subdir (gr_repo e)) (gr_dir e)
      in case and_then (validate_subdir subdir) (\<lambda>_. io_err (mkdirs (path_join dst subdir))) of
           Inl err \<Rightarrow> ([], Err err)
         | Inr _ \<Rightarrow>
             (case one (gr_repo e) (gr_ref e) (path_join dst subdir) of
                (started, Inl err) \<Rightarrow> (started, Err err)
              | (started, Inr _) \<Rightarrow>
                  (case clone_entries mkdirs one es dst of (later, r) \<Rightarrow> (started @ later, r))))"

definition clone_repos ::
  "(string \<Rightarrow> (string, unit) result) \<Rightarrow> (string \<Rightarrow> string option \<Rightarrow> string \<Rightarrow> 'j clone_result) \<Rightarrow> git_spec \<Rightarrow> string
   \<Rightarrow> 'j clone_result" where
  "clone_repos mkdirs one spec dst =
     (case (gs_repo spec, gs_repos spec) of
        (Some _, _ # _) \<Rightarrow> ([], Err (BadRequest ''git: set either `repo` or `repos`, not both''))
      | (None, []) \<Rightarrow> ([], Err (BadRequest ''git: provide `repo` or `repos`''))
      | (Some repo, []) \<Rightarrow> one repo (gs_ref spec) dst
      | (None, es) \<Rightarrow> clone_entries mkdirs one es dst)"

definition git_clone :: "clone_host \<Rightarrow> git_spec \<Rightarrow> string \<Rightarrow> string list clone_result" where
  "git_clone h spec dst = clone_repos (ch_mkdirs h) (host_clone_one h) spec dst"

definition git_clone_in_jail ::
  "clone_host \<Rightarrow> bool \<Rightarrow> (string, string) result \<Rightarrow> clone_run \<Rightarrow> git_spec \<Rightarrow> string
   \<Rightarrow> (jail_config \<times> string list) clone_result" where
  "git_clone_in_jail h is_root scratch run spec dst =
     clone_repos (ch_mkdirs h) (jail_clone_one is_root scratch run) spec dst"

section \<open>Lemmas\<close>

lemma io_err_simps [simp]: "io_err (Ok a) = Ok a" "io_err (Err e) = Err (CtlIo e)"
  by (simp_all add: io_err_def)

lemma io_err_Ok [simp]: "io_err r = Ok a \<longleftrightarrow> r = Ok a"
  by (auto simp: io_err_def split: sum.splits)

text \<open>The jails of a clone.\<close>

definition clone_target :: "string \<Rightarrow> string \<Rightarrow> bool" where
  "clone_target dst p =
     (resolve_path p = resolve_path dst \<or> (\<exists>name. entry_name name \<and> resolve_path p = resolve_path dst @ [name]))"

definition good_address :: "string \<Rightarrow> string option \<Rightarrow> bool" where
  "good_address repo git_ref =
     ((\<exists>after. repo = ''https://'' @ after \<and> CHR ''@'' \<notin> set (url_host after)) \<and>
      (case git_ref of Some r \<Rightarrow> r \<noteq> [] \<and> hd r \<noteq> CHR ''-'' | None \<Rightarrow> True))"

definition jailed_clone_ok :: "jail_config \<times> string list \<Rightarrow> string \<Rightarrow> string option \<Rightarrow> string \<Rightarrow> bool" where
  "jailed_clone_ok j repo git_ref p =
     (case j of (config, args) \<Rightarrow>
        good_address repo git_ref \<and> args = clone_args clone_pins repo git_ref ''/workspace'' \<and> jc_source config = p \<and>
        (\<exists>after. repo = ''https://'' @ after \<and> url_host after \<noteq> [] \<and>
           jc_network config = Allowlist [hd (split_on CHR '':'' (url_host after))]))"

definition host_clone_ok :: "string list \<Rightarrow> string \<Rightarrow> string option \<Rightarrow> string \<Rightarrow> bool" where
  "host_clone_ok args repo git_ref p =
     (good_address repo git_ref \<and> args = clone_args (clone_pins @ host_pins) repo git_ref (path_join p ''__repo''))"

definition requested :: "git_spec \<Rightarrow> string \<Rightarrow> string option \<Rightarrow> bool" where
  "requested spec repo git_ref =
     ((gs_repo spec = Some repo \<and> gs_ref spec = git_ref) \<or>
      (\<exists>e \<in> set (gs_repos spec). gr_repo e = repo \<and> gr_ref e = git_ref))"

lemma validate_git_ref_Ok: "validate_git_ref r = Ok () \<Longrightarrow> r \<noteq> [] \<and> hd r \<noteq> CHR ''-''"
  by (cases r) (auto simp: validate_git_ref_def starts_with_iff split: if_splits)

lemma validate_repo_url_Ok:
  "validate_repo_url repo = Ok () \<longleftrightarrow>
     (\<exists>after. repo = ''https://'' @ after \<and> length repo \<le> 512 \<and> CHR ''@'' \<notin> set (url_host after))"
  by (auto simp: validate_repo_url_def strip_prefix_Some_iff strip_prefix_None_iff prefix_def
      split: option.splits)

lemma repo_host_Ok:
  "repo_host url = Ok h \<longleftrightarrow>
     (\<exists>after. url = ''https://'' @ after \<and> url_host after \<noteq> [] \<and> h = hd (split_on CHR '':'' (url_host after)))"
  by (auto simp: repo_host_def and_then_Ok_iff strip_prefix_Some_iff)

lemma validate_subdir_Ok: "validate_subdir n = Ok () \<Longrightarrow> entry_name n \<and> \<not> starts_with n ''.''"
  by (auto simp: validate_subdir_def entry_name_def split: if_splits)

lemma subdir_target:
  assumes "validate_subdir n = Ok ()"
  shows "clone_target dst (path_join dst n)"
proof -
  have n: "entry_name n" "CHR ''/'' \<notin> set n"
    using validate_subdir_Ok [OF assms] by (auto simp: entry_name_def)
  have "\<not> is_absolute n"
    using n(2) by (auto simp: is_absolute_def starts_with_iff)
  moreover have c: "components n = [Normal n]"
    using n \<open>\<not> is_absolute n\<close>
    by (simp add: components_def Let_def split_on_no_sep_id entry_name_def seg_component_def is_absolute_def)
  moreover have "hd (split_on CHR ''/'' n) \<noteq> ''.''"
    using n by (simp add: split_on_no_sep_id entry_name_def)
  ultimately have "resolve_path (path_join dst n) = resolve_path dst @ [n]"
    by (simp add: resolve_path_def components_path_join walk_up_append)
  then show ?thesis
    using n by (auto simp: clone_target_def)
qed

lemma check_repo_Ok: "check_repo repo git_ref = Ok () \<Longrightarrow> good_address repo git_ref"
  by (auto simp: check_repo_def good_address_def and_then_Ok_iff validate_repo_url_Ok dest: validate_git_ref_Ok
      split: option.splits)

lemma clone_status_Ok:
  "clone_status r = Ok () \<longleftrightarrow> (\<exists>out err. r = Ok (out, err) \<and> out_exit_code out = 0 \<and> \<not> out_timed_out out)"
  by (auto simp: clone_status_def split: sum.splits)

lemma host_status_Ok: "host_status g = Ok () \<longleftrightarrow> (\<exists>err. g = GitExited True err)"
  by (auto simp: host_status_def split: host_git.splits)

text \<open>What holds of one repository holds of all.\<close>

locale repo_cloner =
  fixes mkdirs :: "string \<Rightarrow> (string, unit) result"
    and one :: "string \<Rightarrow> string option \<Rightarrow> string \<Rightarrow> 'j clone_result"
    and good :: "'j \<Rightarrow> string \<Rightarrow> string option \<Rightarrow> string \<Rightarrow> bool"
    and ended :: "'j \<Rightarrow> bool"
  assumes one_started: "j \<in> set (fst (one repo r p)) \<Longrightarrow> good j repo r p"
    and one_ok: "snd (one repo r p) = Ok () \<Longrightarrow> length (fst (one repo r p)) = 1 \<and> list_all ended (fst (one repo r p))"
begin

lemma entries_started:
  "j \<in> set (fst (clone_entries mkdirs one es dst)) \<Longrightarrow>
     \<exists>e \<in> set es. \<exists>p. clone_target dst p \<and> good j (gr_repo e) (gr_ref e) p"
proof (induction es)
  case (Cons e es)
  define sub where "sub = unwrap_or (default_repo_subdir (gr_repo e)) (gr_dir e)"
  show ?case
  proof (cases "j \<in> set (fst (clone_entries mkdirs one es dst))")
    case False
    with Cons.prems have "validate_subdir sub = Ok ()" "j \<in> set (fst (one (gr_repo e) (gr_ref e) (path_join dst sub)))"
      by (auto simp: Let_def and_then_Ok_iff sub_def split: sum.splits prod.splits)
    then show ?thesis
      using one_started subdir_target by (intro bexI [of _ e] exI [of _ "path_join dst sub"]) simp_all
  qed (auto dest: Cons.IH)
qed simp

lemma entries_ok:
  "snd (clone_entries mkdirs one es dst) = Ok () \<Longrightarrow>
     length (fst (clone_entries mkdirs one es dst)) = length es \<and> list_all ended (fst (clone_entries mkdirs one es dst))"
proof (induction es)
  case (Cons e es)
  then show ?case
    using one_ok [of "gr_repo e" "gr_ref e" "path_join dst (unwrap_or (default_repo_subdir (gr_repo e)) (gr_dir e))"]
    by (auto simp: Let_def split: sum.splits prod.splits)
qed simp

lemma repos_started:
  assumes "j \<in> set (fst (clone_repos mkdirs one spec dst))"
  shows "\<exists>repo r p. requested spec repo r \<and> clone_target dst p \<and> good j repo r p"
proof (cases "gs_repo spec")
  case None
  with assms have "j \<in> set (fst (clone_entries mkdirs one (gs_repos spec) dst))"
    by (auto simp: clone_repos_def simp del: clone_entries.simps split: list.splits)
  from entries_started [OF this] show ?thesis
    unfolding requested_def by blast
next
  case (Some repo)
  with assms have "good j repo (gs_ref spec) dst"
    by (auto simp: clone_repos_def dest: one_started split: list.splits)
  with Some show ?thesis
    unfolding requested_def clone_target_def by blast
qed

lemma repos_ok:
  assumes "snd (clone_repos mkdirs one spec dst) = Ok ()"
  shows "length (fst (clone_repos mkdirs one spec dst)) = (if gs_repo spec = None then length (gs_repos spec) else 1)"
    and "list_all ended (fst (clone_repos mkdirs one spec dst))"
  using assms one_ok entries_ok
  by (auto simp: clone_repos_def simp del: clone_entries.simps split: list.splits option.splits)

end

interpretation jail_cloner: repo_cloner mkdirs "jail_clone_one root scratch run" jailed_clone_ok
    "\<lambda>(c, a). clone_status (run c a) = Ok ()"
  for mkdirs root scratch run
proof
  fix j repo r p
  assume "j \<in> set (fst (jail_clone_one root scratch run repo r p))"
  then show "jailed_clone_ok j repo r p"
    by (auto simp: jail_clone_one_def jailed_clone_ok_def Let_def and_then_Ok_iff repo_host_Ok clone_jail_config_def
        dest: check_repo_Ok split: sum.splits)
next
  fix repo r p
  assume "snd (jail_clone_one root scratch run repo r p) = Ok ()"
  then show "length (fst (jail_clone_one root scratch run repo r p)) = 1 \<and>
      list_all (\<lambda>(c, a). clone_status (run c a) = Ok ()) (fst (jail_clone_one root scratch run repo r p))"
    by (auto simp: jail_clone_one_def Let_def split: sum.splits)
qed

interpretation host_cloner: repo_cloner mkdirs "host_clone_one h" host_clone_ok
    "\<lambda>a. host_status (ch_git h a) = Ok ()"
  for mkdirs h
proof
  fix j repo r p
  assume "j \<in> set (fst (host_clone_one h repo r p))"
  then show "host_clone_ok j repo r p"
    by (auto simp: host_clone_one_def host_clone_ok_def Let_def and_then_Ok_iff dest: check_repo_Ok split: sum.splits)
next
  fix repo r p
  assume "snd (host_clone_one h repo r p) = Ok ()"
  then show "length (fst (host_clone_one h repo r p)) = 1 \<and>
      list_all (\<lambda>a. host_status (ch_git h a) = Ok ()) (fst (host_clone_one h repo r p))"
    by (auto simp: host_clone_one_def Let_def and_then_Ok_iff split: sum.splits)
qed

section \<open>Properties\<close>

text \<open>C14. Confinement of a clone.  Every git that a clone starts, in a jail or on the host, belongs to
  one of the requested repositories: its address is https without credentials and stands after \<open>--\<close>,
  the protocols are pinned, and a reference never reads as an option.  It works in the target
  directory or in a single name below it, on the host in a staging directory there; a jailed one may
  reach the host of its repository and no other.  A clone that succeeds has started exactly one git
  for every repository, and each of them ended with status zero within its time.\<close>
theorem clone_confined:
  "((config, args) \<in> set (fst (git_clone_in_jail h root scratch run spec dst)) \<longrightarrow>
      (\<exists>repo git_ref p. requested spec repo git_ref \<and> clone_target dst p \<and> jailed_clone_ok (config, args) repo git_ref p)) \<and>
   (hargs \<in> set (fst (git_clone h spec dst)) \<longrightarrow>
      (\<exists>repo git_ref p. requested spec repo git_ref \<and> clone_target dst p \<and> host_clone_ok hargs repo git_ref p)) \<and>
   (snd (git_clone_in_jail h root scratch run spec dst) = Ok () \<longrightarrow>
      length (fst (git_clone_in_jail h root scratch run spec dst)) =
        (if gs_repo spec = None then length (gs_repos spec) else 1) \<and>
      (\<forall>(c, a) \<in> set (fst (git_clone_in_jail h root scratch run spec dst)).
         \<exists>out err. run c a = Ok (out, err) \<and> out_exit_code out = 0 \<and> \<not> out_timed_out out)) \<and>
   (snd (git_clone h spec dst) = Ok () \<longrightarrow>
      length (fst (git_clone h spec dst)) = (if gs_repo spec = None then length (gs_repos spec) else 1) \<and>
      (\<forall>a \<in> set (fst (git_clone h spec dst)). \<exists>err. ch_git h a = GitExited True err))"
proof (intro conjI impI)
  assume ok: "snd (git_clone_in_jail h root scratch run spec dst) = Ok ()"
  show "\<forall>(c, a) \<in> set (fst (git_clone_in_jail h root scratch run spec dst)).
         \<exists>out err. run c a = Ok (out, err) \<and> out_exit_code out = 0 \<and> \<not> out_timed_out out"
    using jail_cloner.repos_ok(2) [OF ok [unfolded git_clone_in_jail_def]]
    unfolding git_clone_in_jail_def list_all_iff by (auto simp: clone_status_Ok)
next
  assume ok: "snd (git_clone h spec dst) = Ok ()"
  show "\<forall>a \<in> set (fst (git_clone h spec dst)). \<exists>err. ch_git h a = GitExited True err"
    using host_cloner.repos_ok(2) [OF ok [unfolded git_clone_def]]
    unfolding git_clone_def list_all_iff by (auto simp: host_status_Ok)
qed (auto simp: git_clone_in_jail_def git_clone_def dest!: jail_cloner.repos_started host_cloner.repos_started
    jail_cloner.repos_ok(1) host_cloner.repos_ok(1))

definition demo_git :: git_spec where
  "demo_git = \<lparr>gs_repo = None, gs_ref = None,
     gs_repos = [\<lparr>gr_repo = ''https://git.example:8443/a/lib.git'', gr_ref = Some ''main'', gr_dir = None\<rparr>]\<rparr>"

definition demo_clone_run :: clone_run where
  "demo_clone_run config args = Ok (\<lparr>out_exit_code = 0, out_timed_out = False\<rparr>, [])"

definition demo_clone_host :: clone_host where
  "demo_clone_host = \<lparr>ch_mkdirs = (\<lambda>_. Ok ()), ch_git = (\<lambda>_. GitExited True []), ch_flatten = (\<lambda>_ _. Ok ())\<rparr>"

theorem clone_confined_witness:
  "\<exists>config args. fst (git_clone_in_jail demo_clone_host True (Ok ''/tmp/s'') demo_clone_run demo_git ''/ws'') = [(config, args)] \<and>
     jc_source config = ''/ws/lib'' \<and> jc_network config = Allowlist [''git.example''] \<and>
     (\<exists>repo git_ref p. requested demo_git repo git_ref \<and> clone_target ''/ws'' p \<and>
        jailed_clone_ok (config, args) repo git_ref p)"
proof -
  let ?r = "git_clone_in_jail demo_clone_host True (Ok ''/tmp/s'') demo_clone_run demo_git ''/ws''"
  have r: "map (jc_source \<circ> fst) (fst ?r) = [''/ws/lib'']" "map (jc_network \<circ> fst) (fst ?r) = [Allowlist [''git.example'']]"
    by code_simp+
  then obtain config args where "fst ?r = [(config, args)]"
    by (cases "fst ?r") auto
  then show ?thesis
    using r clone_confined [of config args demo_clone_host True "Ok ''/tmp/s''" demo_clone_run demo_git "''/ws''"] by auto
qed

end
