(* ===== verification/Session_Routes.thy ===== *)
theory Session_Routes
  imports Control_Stores
begin

text \<open>
  Sessions and credentials: the credential store and fingerprints (\<open>agentjail-ctl/src/credential.rs\<close>)
  and the handlers of \<open>routes/sessions.rs\<close> and \<open>routes/credentials.rs\<close>, over the session store, the
  key store and the token store of the phantom proxy.  A handler returns its answer and the state
  after it; new ids and tokens are arguments, a token store is given by its operations.
\<close>

section \<open>State\<close>

record credential =
  cr_tenant :: string
  cr_service :: service_id
  cr_added_at :: int
  cr_updated_at :: int
  cr_fingerprint :: string

record 's svc_state =
  sv_sessions :: "session list"
  sv_creds :: "credential list"
  sv_keys :: key_map
  sv_tokens :: 's

text \<open>The credential store is a map from pairs of tenant and service.\<close>

definition cred_at :: "string \<Rightarrow> service_id \<Rightarrow> credential \<Rightarrow> bool" where
  "cred_at t svc c = (cr_tenant c = t \<and> cr_service c = svc)"

definition cred_get :: "string \<Rightarrow> service_id \<Rightarrow> credential list \<Rightarrow> credential option" where
  "cred_get t svc cs = find (cred_at t svc) cs"

definition cred_upsert :: "credential \<Rightarrow> credential list \<Rightarrow> credential list" where
  "cred_upsert c cs = filter (\<lambda>d. \<not> cred_at (cr_tenant c) (cr_service c) d) cs @ [c]"

definition cred_remove :: "string \<Rightarrow> service_id \<Rightarrow> credential list \<Rightarrow> credential option \<times> credential list" where
  "cred_remove t svc cs = (cred_get t svc cs, filter (\<lambda>d. \<not> cred_at t svc d) cs)"

text \<open>Strings compare by their bytes.\<close>

fun str_le :: "string \<Rightarrow> string \<Rightarrow> bool" where
  "str_le [] t = True"
| "str_le (a # s) [] = False"
| "str_le (a # s) (b # t) =
     ((of_char a :: nat) < of_char b \<or> ((of_char a :: nat) = of_char b \<and> str_le s t))"

definition cred_le :: "credential \<Rightarrow> credential \<Rightarrow> bool" where
  "cred_le a b =
     (if cr_tenant a = cr_tenant b then str_le (service_name (cr_service a)) (service_name (cr_service b))
      else str_le (cr_tenant a) (cr_tenant b))"

fun insort_by :: "('a \<Rightarrow> 'a \<Rightarrow> bool) \<Rightarrow> 'a \<Rightarrow> 'a list \<Rightarrow> 'a list" where
  "insort_by le x [] = [x]"
| "insort_by le x (y # ys) = (if le x y then x # y # ys else y # insort_by le x ys)"

definition cred_list :: "string option \<Rightarrow> credential list \<Rightarrow> credential list" where
  "cred_list t cs = foldr (insort_by cred_le) (filter (in_tenant cr_tenant t) cs) []"

text \<open>FNV-1a over the bytes of the secret, with the wrap-around of 64 bits.\<close>

definition fnv_step :: "char \<Rightarrow> 64 word \<Rightarrow> 64 word" where
  "fnv_step c h = xor h (of_nat (of_char c)) * 0x100000001B3"

fun hex_pad :: "nat \<Rightarrow> nat \<Rightarrow> string" where
  "hex_pad 0 n = []"
| "hex_pad (Suc k) n = hex_pad k (n div 16) @ [hex_digit (n mod 16)]"

definition fingerprint :: "string \<Rightarrow> string" where
  "fingerprint secret = hex_pad 16 (unat (fold fnv_step secret 0xCBF29CE484222325))"

section \<open>Credentials\<close>

definition tenant_filter :: "tenant_scope \<Rightarrow> string option" where
  "tenant_filter scope = (if is_admin (sc_role scope) then None else Some (sc_tenant scope))"

definition target_tenant :: "tenant_scope \<Rightarrow> string option \<Rightarrow> (ctl_error, string) result" where
  "target_tenant scope requested =
     (case requested of
        None \<Rightarrow> Ok (sc_tenant scope)
      | Some t \<Rightarrow>
          if is_admin (sc_role scope) then Ok t
          else if t = sc_tenant scope then Ok t
          else Err (NotFound ''not found''))"

definition put_credential ::
  "tenant_scope \<Rightarrow> int \<Rightarrow> string option \<Rightarrow> service_id \<Rightarrow> string \<Rightarrow> 's svc_state
   \<Rightarrow> (ctl_error, credential) result \<times> 's svc_state" where
  "put_credential scope now requested svc secret st =
     (case target_tenant scope requested of
        Inl e \<Rightarrow> (Err e, st)
      | Inr t \<Rightarrow>
          if trim secret = [] then (Err (BadRequest ''secret must be non-empty''), st)
          else
            (let c = \<lparr>cr_tenant = t, cr_service = svc,
                      cr_added_at = (case cred_get t svc (sv_creds st) of Some r \<Rightarrow> cr_added_at r | None \<Rightarrow> now),
                      cr_updated_at = now, cr_fingerprint = fingerprint secret\<rparr>
             in (Ok c, st\<lparr>sv_creds := cred_upsert c (sv_creds st), sv_keys := ks_set t svc secret (sv_keys st)\<rparr>)))"

definition list_credentials :: "tenant_scope \<Rightarrow> string option \<Rightarrow> 's svc_state \<Rightarrow> credential list" where
  "list_credentials scope requested st =
     cred_list (if is_admin (sc_role scope) then requested else Some (sc_tenant scope)) (sv_creds st)"

definition parse_service :: "string \<Rightarrow> (ctl_error, service_id) result" where
  "parse_service s =
     (if s = ''openai'' then Ok OpenAi else if s = ''anthropic'' then Ok Anthropic
      else if s = ''github'' then Ok GitHub else if s = ''stripe'' then Ok Stripe
      else Err (BadRequest (''unknown service '' @ s)))"

definition delete_credential ::
  "tenant_scope \<Rightarrow> string option \<Rightarrow> string \<Rightarrow> 's svc_state \<Rightarrow> (ctl_error, unit) result \<times> 's svc_state" where
  "delete_credential scope requested service st =
     (case and_then (target_tenant scope requested) (\<lambda>t. and_then (parse_service service) (\<lambda>svc. Ok (t, svc))) of
        Inl e \<Rightarrow> (Err e, st)
      | Inr (t, svc) \<Rightarrow>
          (case cred_remove t svc (sv_creds st) of
             (Some _, cs) \<Rightarrow> (Ok (), st\<lparr>sv_creds := cs, sv_keys := ks_unset t svc (sv_keys st)\<rparr>)
           | (None, cs) \<Rightarrow> (Err (NotFound (''credential '' @ service)), st\<lparr>sv_creds := cs\<rparr>)))"

section \<open>Sessions\<close>

record session_request =
  sq_services :: "service_id list"
  sq_ttl_secs :: "nat option"
  sq_scopes :: "(service_id \<times> string list) list"

text \<open>The environment variables of a service: its key and its base address.\<close>

definition key_var :: "service_id \<Rightarrow> string" where
  "key_var svc =
     (case svc of OpenAi \<Rightarrow> ''OPENAI_API_KEY'' | Anthropic \<Rightarrow> ''ANTHROPIC_API_KEY'' | GitHub \<Rightarrow> ''GITHUB_TOKEN''
      | Stripe \<Rightarrow> ''STRIPE_API_KEY'')"

definition base_var :: "service_id \<Rightarrow> string" where
  "base_var svc =
     (case svc of OpenAi \<Rightarrow> ''OPENAI_BASE_URL'' | Anthropic \<Rightarrow> ''ANTHROPIC_BASE_URL'' | GitHub \<Rightarrow> ''GITHUB_API_URL''
      | Stripe \<Rightarrow> ''STRIPE_API_BASE'')"

definition base_path :: "service_id \<Rightarrow> string" where
  "base_path svc =
     (case svc of OpenAi \<Rightarrow> ''/v1/openai/v1'' | Anthropic \<Rightarrow> ''/v1/anthropic'' | GitHub \<Rightarrow> ''/v1/github''
      | Stripe \<Rightarrow> ''/v1/stripe'')"

definition service_env :: "string \<Rightarrow> service_id \<Rightarrow> string \<Rightarrow> (string \<times> string) list \<Rightarrow> (string \<times> string) list" where
  "service_env base svc token env =
     AList.update (base_var svc) (base @ base_path svc) (AList.update (key_var svc) token env)"

definition scope_for :: "(service_id \<times> string list) list \<Rightarrow> service_id \<Rightarrow> scope" where
  "scope_for scopes svc = (case map_of scopes svc of Some paths \<Rightarrow> Scope (map PathGlob paths) | None \<Rightarrow> scope_any)"

fun issue_services ::
  "'s token_ops \<Rightarrow> time \<Rightarrow> string \<Rightarrow> string \<Rightarrow> string \<Rightarrow> time option \<Rightarrow> (service_id \<times> string list) list
   \<Rightarrow> (nat \<Rightarrow> phantom_token) \<Rightarrow> nat \<Rightarrow> service_id list \<Rightarrow> (string \<times> string) list \<Rightarrow> 's
   \<Rightarrow> (string \<times> string) list \<times> 's" where
  "issue_services ops now sid tn base ttl scopes gen k [] env ts = (env, ts)"
| "issue_services ops now sid tn base ttl scopes gen k (svc # svcs) env ts =
     (case ts_issue ops now (gen k) sid tn svc (scope_for scopes svc) ttl ts of
        (token, ts') \<Rightarrow>
          issue_services ops now sid tn base ttl scopes gen (Suc k) svcs
            (service_env base svc (token_display token) env) ts')"

definition has_key :: "tenant_scope \<Rightarrow> key_map \<Rightarrow> service_id \<Rightarrow> bool" where
  "has_key scope keys svc =
     (ks_get keys (sc_tenant scope) svc \<noteq> None \<or> (is_admin (sc_role scope) \<and> ks_get keys ''dev'' svc \<noteq> None))"

definition create_session ::
  "'s token_ops \<Rightarrow> string \<Rightarrow> tenant_scope \<Rightarrow> time \<Rightarrow> string \<Rightarrow> (nat \<Rightarrow> phantom_token) \<Rightarrow> session_request \<Rightarrow> 's svc_state
   \<Rightarrow> session handled \<times> 's svc_state" where
  "create_session ops base scope now sid gen req st =
     (if sq_services req = [] then (Some (Err (BadRequest ''services must contain at least one entry'')), st)
      else case find (\<lambda>svc. \<not> has_key scope (sv_keys st) svc) (sq_services req) of
        Some svc \<Rightarrow>
          (Some (Err (BadRequest (''no credential configured for service '' @ service_name svc @ '' (tenant '' @
             sc_tenant scope @ '')''))), st)
      | None \<Rightarrow>
     (let ttl = map_option (\<lambda>secs. secs * 1000000000) (sq_ttl_secs req) in
      case (case ttl of None \<Rightarrow> Some None | Some d \<Rightarrow> map_option Some (offset_add (int now) (int d))) of
        None \<Rightarrow> (None, st)
      | Some expires_at \<Rightarrow>
     (case find (\<lambda>(svc, _). svc \<notin> set (sq_services req)) (sq_scopes req) of
        Some (svc, _) \<Rightarrow>
          (Some (Err (BadRequest (''scope for service '' @ service_name svc @ '' but it is not in services''))), st)
      | None \<Rightarrow>
     (let (env, ts) = issue_services ops now sid (sc_tenant scope) base ttl (sq_scopes req) gen 0
            (sq_services req) [] (sv_tokens st);
          s = \<lparr>se_id = sid, se_tenant = sc_tenant scope, se_created_at = int now, se_expires_at = expires_at,
               se_services = sq_services req, se_env = env\<rparr>
      in case se_insert s (sv_sessions st) of
           Inl e \<Rightarrow> (Some (Err e), st\<lparr>sv_tokens := ts\<rparr>)
         | Inr sessions \<Rightarrow> (Some (Ok s), st\<lparr>sv_tokens := ts, sv_sessions := sessions\<rparr>)))))"

definition list_sessions :: "tenant_scope \<Rightarrow> 's svc_state \<Rightarrow> session list" where
  "list_sessions scope st = se_list (tenant_filter scope) (sv_sessions st)"

definition get_session :: "tenant_scope \<Rightarrow> string \<Rightarrow> 's svc_state \<Rightarrow> (ctl_error, session) result" where
  "get_session scope i st =
     (case se_get i (sv_sessions st) of
        Some s \<Rightarrow> if can_see scope (se_tenant s) then Ok s else Err (NotFound (''session '' @ i))
      | None \<Rightarrow> Err (NotFound (''session '' @ i)))"

definition delete_session ::
  "'s token_ops \<Rightarrow> tenant_scope \<Rightarrow> string \<Rightarrow> 's svc_state \<Rightarrow> (ctl_error, unit) result \<times> 's svc_state" where
  "delete_session ops scope i st =
     (case get_session scope i st of
        Inl e \<Rightarrow> (Err e, st)
      | Inr _ \<Rightarrow>
          (case se_remove i (sv_sessions st) of
             (Some s, sessions) \<Rightarrow>
               (Ok (), st\<lparr>sv_sessions := sessions, sv_tokens := ts_revoke_session ops (se_id s) (sv_tokens st)\<rparr>)
           | (None, sessions) \<Rightarrow> (Err (NotFound (''session '' @ i)), st\<lparr>sv_sessions := sessions\<rparr>)))"

section \<open>Lemmas\<close>

lemma key_var_inj [simp]: "key_var a = key_var b \<longleftrightarrow> a = b" "key_var a \<noteq> base_var b" "base_var a \<noteq> key_var b"
  by (cases a; cases b; simp add: key_var_def base_var_def)+

lemma service_env_key:
  "map_of (service_env base svc t env) (key_var svc') = (if svc' = svc then Some t else map_of env (key_var svc'))"
  by (simp add: service_env_def update_conv')

text \<open>The record of the token issued for a service.\<close>

definition session_record ::
  "time \<Rightarrow> string \<Rightarrow> string \<Rightarrow> time option \<Rightarrow> (service_id \<times> string list) list \<Rightarrow> service_id \<Rightarrow> token_record" where
  "session_record now sid tn ttl scopes svc = mk_token_record now sid tn svc (scope_for scopes svc) ttl"

context token_store
begin

lemma issue_services_law:
  assumes "ok ts" "inj gen" "\<forall>j \<ge> k. view ts (gen j) = None"
    "issue_services ops now sid tn base ttl scopes gen k svcs env ts = (env', ts')"
  shows "ok ts' \<and>
     (\<forall>tok rec. view ts' tok = Some rec \<longleftrightarrow> view ts tok = Some rec \<or>
        (\<exists>j < length svcs. tok = gen (k + j) \<and> rec = session_record now sid tn ttl scopes (svcs ! j))) \<and>
     (\<forall>svc. if svc \<in> set svcs
        then \<exists>j < length svcs. svcs ! j = svc \<and> map_of env' (key_var svc) = Some (token_display (gen (k + j)))
        else map_of env' (key_var svc) = map_of env (key_var svc))"
  using assms
proof (induction svcs arbitrary: k env ts)
  case (Cons svc svcs)
  obtain tok ts1 where issue: "ts_issue ops now (gen k) sid tn svc (scope_for scopes svc) ttl ts = (tok, ts1)"
    by fastforce
  have "view ts (gen k) = None"
    using Cons.prems(3) by simp
  from issue_law [OF Cons.prems(1) this issue]
  have one: "tok = gen k" "ok ts1" "view ts1 = (view ts)(gen k \<mapsto> session_record now sid tn ttl scopes svc)"
    by (simp_all add: session_record_def)
  have fresh: "\<forall>j \<ge> Suc k. view ts1 (gen j) = None"
    using Cons.prems(2,3) by (auto simp: one inj_eq)
  have rest: "issue_services ops now sid tn base ttl scopes gen (Suc k) svcs
      (service_env base svc (token_display (gen k)) env) ts1 = (env', ts')"
    using Cons.prems(4) issue by (simp add: one)
  note IH = Cons.IH [OF one(2) Cons.prems(2) fresh rest]
  have split: "(\<exists>j < length (svc # svcs). P j) \<longleftrightarrow> P 0 \<or> (\<exists>j < length svcs. P (Suc j))" for P
    using less_Suc_eq_0_disj by auto
  have "view ts1 t = Some rec \<longleftrightarrow> view ts t = Some rec \<or> (t = gen k \<and> rec = session_record now sid tn ttl scopes svc)" for t rec
    using \<open>view ts (gen k) = None\<close> by (auto simp: one)
  then have "view ts' t = Some rec \<longleftrightarrow> view ts t = Some rec \<or>
      (\<exists>j < length (svc # svcs). t = gen (k + j) \<and> rec = session_record now sid tn ttl scopes ((svc # svcs) ! j))" for t rec
    unfolding split using IH by auto
  moreover have "if svc' \<in> set (svc # svcs)
        then \<exists>j < length (svc # svcs). (svc # svcs) ! j = svc' \<and>
               map_of env' (key_var svc') = Some (token_display (gen (k + j)))
        else map_of env' (key_var svc') = map_of env (key_var svc')" for svc'
    unfolding split using IH [THEN conjunct2, THEN conjunct2, rule_format, of svc']
    by (auto simp: service_env_key split: if_splits)
  ultimately show ?case
    using IH by blast
qed simp

end

text \<open>What a successful creation has done.\<close>

lemma create_session_Ok:
  assumes "create_session ops base scope now sid gen req st = (Some (Ok s), st')"
  shows "\<exists>env ts ttl. ttl = map_option (\<lambda>secs. secs * 1000000000) (sq_ttl_secs req) \<and>
     issue_services ops now sid (sc_tenant scope) base ttl (sq_scopes req) gen 0 (sq_services req) [] (sv_tokens st) = (env, ts) \<and>
     sv_tokens st' = ts \<and> se_env s = env \<and> se_id s = sid \<and> se_tenant s = sc_tenant scope \<and>
     sv_keys st' = sv_keys st \<and> se_insert s (sv_sessions st) = Ok (sv_sessions st') \<and>
     (\<forall>svc \<in> set (sq_services req). has_key scope (sv_keys st) svc)"
  using assms
  by (auto simp: create_session_def Let_def find_None_iff split: if_splits option.splits prod.splits sum.splits)

lemma create_session_tokens:
  assumes "create_session mem_ops base scope now sid gen req st = (Some (Ok s), st')"
    and "inj gen" "\<forall>k. sv_tokens st (gen k) = None" "svc \<in> set (sq_services req)"
  obtains tok rec where "map_of (se_env s) (key_var svc) = Some (token_display tok)" "sv_tokens st' tok = Some rec"
    "rec = session_record now sid (sc_tenant scope) (map_option (\<lambda>secs. secs * 1000000000) (sq_ttl_secs req)) (sq_scopes req) svc"
proof -
  obtain env ts ttl where ttl: "ttl = map_option (\<lambda>secs. secs * 1000000000) (sq_ttl_secs req)"
    and issue: "issue_services mem_ops now sid (sc_tenant scope) base ttl (sq_scopes req) gen 0 (sq_services req) []
      (sv_tokens st) = (env, ts)" and st': "sv_tokens st' = ts" "se_env s = env"
    using create_session_Ok [OF assms(1)] by blast
  have fresh: "\<forall>j \<ge> 0. sv_tokens st (gen j) = None"
    using assms(3) by simp
  note law = mem.issue_services_law [OF TrueI assms(2) fresh issue]
  obtain j where j: "j < length (sq_services req)" "sq_services req ! j = svc"
    "map_of env (key_var svc) = Some (token_display (gen j))"
    using law [THEN conjunct2, THEN conjunct2, rule_format, of svc] assms(4) by auto
  then have "ts (gen j) = Some (session_record now sid (sc_tenant scope) ttl (sq_scopes req) svc)"
    using law [THEN conjunct2, THEN conjunct1, rule_format, of "gen j" "session_record now sid (sc_tenant scope) ttl (sq_scopes req) svc"]
    by auto
  with j show ?thesis
    using that [of "gen j"] unfolding st' ttl by blast
qed

lemma has_key_operator: "has_key scope keys svc \<Longrightarrow> sc_role scope = Operator \<Longrightarrow> \<exists>secret. ks_get keys (sc_tenant scope) svc = Some secret"
  by (auto simp: has_key_def is_admin_def)

lemma delete_session_own:
  assumes "se_insert s (sv_sessions st0) = Ok (sv_sessions st)" "distinct (map se_id (sv_sessions st0))"
    "can_see scope (se_tenant s)"
  shows "delete_session ops scope (se_id s) st =
     (Ok (), st\<lparr>sv_sessions := sv_sessions st0, sv_tokens := ts_revoke_session ops (se_id s) (sv_tokens st)\<rparr>)"
proof -
  have st: "sv_sessions st = sv_sessions st0 @ [s]" "se_id s \<notin> se_id ` set (sv_sessions st0)"
    using assms(1) by (simp_all add: sessions.insert_ok)
  then have "row_remove se_id (se_id s) (sv_sessions st) = sv_sessions st0"
    unfolding row_remove_def by (force simp: image_iff filter_id_conv)
  moreover have "se_get (se_id s) (sv_sessions st) = Some s"
    using sessions.insert_get [OF assms(1,2)] by simp
  ultimately show ?thesis
    using assms(3) by (simp add: delete_session_def get_session_def se_remove_def)
qed

section \<open>Properties\<close>

definition demo_gen :: "nat \<Rightarrow> phantom_token" where
  "demo_gen k = replicate (32 + k) 0xAB"

lemma demo_gen_inj: "inj demo_gen"
proof (rule injI)
  fix a b
  assume "demo_gen a = demo_gen b"
  then have "length (demo_gen a) = length (demo_gen b)"
    by simp
  then show "a = b"
    by (simp add: demo_gen_def)
qed

definition demo_svc :: "string \<Rightarrow> token_map svc_state" where
  "demo_svc t = \<lparr>sv_sessions = [], sv_creds = [], sv_keys = ks_set t OpenAi ''sk-acme'' Map.empty, sv_tokens = Map.empty\<rparr>"

definition demo_session_request :: session_request where
  "demo_session_request = \<lparr>sq_services = [OpenAi], sq_ttl_secs = None, sq_scopes = [(OpenAi, [''/v1/chat*''])]\<rparr>"

definition demo_svc_px :: "string \<Rightarrow> token_map phantom_proxy" where
  "demo_svc_px t =
     \<lparr>px_registry = [(OpenAi, demo_provider)], px_tokens = mem_ops, px_keys = ks_get (sv_keys (demo_svc t)),
      px_to_str = (\<lambda>v. True), px_decode = hex_decode, px_method = Ok,
      px_upstream = (\<lambda>u. Ok \<lparr>us_status = 200, us_headers = [], us_body = ''hi'', us_latency = 7\<rparr>)\<rparr>"

lemma demo_session_create:
  assumes "has_key scope (sv_keys (demo_svc t)) OpenAi"
  shows "\<exists>s st'. create_session mem_ops ''http://p'' scope 1 ''sess'' demo_gen demo_session_request (demo_svc t) =
    (Some (Ok s), st') \<and> sv_keys st' = sv_keys (demo_svc t)"
  using assms
  by (simp add: create_session_def demo_session_request_def Let_def se_insert_def row_insert_def row_get_def
      mem_ops_def mem_issue_def demo_svc_def)

text \<open>C6. The authority of a session.  When an operator's request for a session succeeds, the
  environment of the session holds, for every requested service, a token whose record names the
  session, the operator's tenant, the service and the requested paths; until it expires, a request
  to the proxy with that token on an allowed path is forwarded with the tenant's own secret and
  answered with what the provider answers.  Deleting the session succeeds for that operator, and
  after it the token opens nothing: the proxy refuses the request and sends nothing.\<close>
theorem session_authority:
  assumes created: "create_session mem_ops base scope now sid gen req st = (Some (Ok s), st')"
    and fresh: "inj gen" "\<forall>k. sv_tokens st (gen k) = None" and ids: "distinct (map se_id (sv_sessions st))"
    and svc: "svc \<in> set (sq_services req)" and operator: "sc_role scope = Operator"
    and px: "px_tokens px = mem_ops" "px_keys px = ks_get (sv_keys st')" "registry_get svc (px_registry px) = Some p"
  shows "\<exists>tok rec secret. map_of (se_env s) (key_var svc) = Some (token_display tok) \<and>
     sv_tokens st' tok = Some rec \<and> tr_session_id rec = sid \<and> tr_tenant_id rec = sc_tenant scope \<and>
     tr_service rec = svc \<and> tr_scope rec = scope_for (sq_scopes req) svc \<and>
     ks_get (sv_keys st') (sc_tenant scope) svc = Some secret \<and>
     (\<forall>rq ps later upath sent resp latency.
        ps_tokens ps = sv_tokens st' \<and> extract_phantom px (rq_headers rq) = Some tok \<and>
        split_service_path (rq_path rq) = Some (service_name svc, upath) \<and>
        allows_path (scope_for (sq_scopes req) svc) upath \<and> \<not> is_expired rec later \<and>
        forward px p secret rq upath = (sent, Ok (resp, latency)) \<longrightarrow>
        fst (handle px later rq ps) = resp \<and>
        ps_sent (snd (handle px later rq ps)) = ps_sent ps @ (case sent of Some u \<Rightarrow> [u] | None \<Rightarrow> [])) \<and>
     (\<exists>st''. delete_session mem_ops scope sid st' = (Ok (), st'') \<and>
        (\<forall>rq ps later. ps_tokens ps = sv_tokens st'' \<and> extract_phantom px (rq_headers rq) = Some tok \<longrightarrow>
           rs_status (fst (handle px later rq ps)) \<in> {401, 404} \<and>
           ps_sent (snd (handle px later rq ps)) = ps_sent ps))"
proof -
  obtain tok rec where tok: "map_of (se_env s) (key_var svc) = Some (token_display tok)" "sv_tokens st' tok = Some rec"
    and rec: "rec = session_record now sid (sc_tenant scope) (map_option (\<lambda>secs. secs * 1000000000) (sq_ttl_secs req))
      (sq_scopes req) svc"
    using create_session_tokens [OF created fresh svc] by blast
  have fields: "tr_session_id rec = sid" "tr_tenant_id rec = sc_tenant scope" "tr_service rec = svc"
    "tr_scope rec = scope_for (sq_scopes req) svc"
    by (simp_all add: rec session_record_def mk_token_record_def)
  have s: "se_id s = sid" "se_tenant s = sc_tenant scope" "se_insert s (sv_sessions st) = Ok (sv_sessions st')"
    and key: "has_key scope (sv_keys st') svc"
    using create_session_Ok [OF created] svc by auto
  obtain secret where secret: "ks_get (sv_keys st') (sc_tenant scope) svc = Some secret"
    using has_key_operator [OF key operator] by blast
  have served: "fst (handle px later rq ps) = resp \<and>
      ps_sent (snd (handle px later rq ps)) = ps_sent ps @ (case sent of Some u \<Rightarrow> [u] | None \<Rightarrow> [])"
    if "ps_tokens ps = sv_tokens st' \<and> extract_phantom px (rq_headers rq) = Some tok \<and>
        split_service_path (rq_path rq) = Some (service_name svc, upath) \<and>
        allows_path (scope_for (sq_scopes req) svc) upath \<and> \<not> is_expired rec later \<and>
        forward px p secret rq upath = (sent, Ok (resp, latency))" for rq ps later upath sent resp latency
  proof -
    have auth: "authorised px (ps_tokens ps) rq upath rec p secret"
      using that tok px secret by (auto simp: authorised_def fields)
    show ?thesis
      using mem.handle_authorised [OF px(1) TrueI auth, of later sent "Ok (resp, latency)"] that by simp
  qed
  define st'' where "st'' = st'\<lparr>sv_sessions := sv_sessions st, sv_tokens := ts_revoke_session mem_ops sid (sv_tokens st')\<rparr>"
  have "delete_session mem_ops scope sid st' = (Ok (), st'')"
    using delete_session_own [OF s(3) ids, of scope mem_ops] s(1,2) by (simp add: can_see_def st''_def)
  moreover have "sv_tokens st'' tok = None"
    using tok fields by (simp add: st''_def mem_ops_def mem_revoke_session_def retain_sessions_def)
  then have "rs_status (fst (handle px later rq ps)) \<in> {401, 404} \<and> ps_sent (snd (handle px later rq ps)) = ps_sent ps"
    if "ps_tokens ps = sv_tokens st'' \<and> extract_phantom px (rq_headers rq) = Some tok" for rq ps later
    using mem.handle_unknown [OF px(1) TrueI, of rq tok ps later] that by simp
  ultimately show ?thesis
    using tok fields secret served by blast
qed

theorem session_authority_witness:
  "\<exists>s st' st'' tok. create_session mem_ops ''http://p'' \<lparr>sc_tenant = ''acme'', sc_role = Operator\<rparr> 1 ''sess'' demo_gen
       demo_session_request (demo_svc ''acme'') = (Some (Ok s), st') \<and>
     map_of (se_env s) ''OPENAI_API_KEY'' = Some (token_display tok) \<and>
     delete_session mem_ops \<lparr>sc_tenant = ''acme'', sc_role = Operator\<rparr> ''sess'' st' = (Ok (), st'')"
proof -
  let ?scope = "\<lparr>sc_tenant = ''acme'', sc_role = Operator\<rparr>"
  have "has_key ?scope (sv_keys (demo_svc ''acme'')) OpenAi"
    by (simp add: has_key_def demo_svc_def ks_get_def ks_set_def)
  from demo_session_create [OF this] obtain s st' where
    c: "create_session mem_ops ''http://p'' ?scope 1 ''sess'' demo_gen demo_session_request (demo_svc ''acme'') = (Some (Ok s), st')"
    "sv_keys st' = sv_keys (demo_svc ''acme'')"
    by blast
  have "key_var OpenAi = ''OPENAI_API_KEY''"
    by (simp add: key_var_def)
  then show ?thesis
    using session_authority [OF c(1) demo_gen_inj, of OpenAi "demo_svc_px ''acme''" demo_provider] c
    by (fastforce simp: demo_svc_def demo_session_request_def demo_svc_px_def registry_get_def)
qed

text \<open>An administrator's session on borrowed keys.  The check that a key exists lets an
  administrator fall back to the keys of the tenant \<open>dev\<close>, but the token carries the administrator's
  own tenant: when that tenant has no key for the service the session is created, and every request
  with its token is refused with \<open>upstream key not configured\<close>, nothing being sent.\<close>
theorem admin_session_no_key:
  assumes created: "create_session mem_ops base scope now sid gen req st = (Some (Ok s), st')"
    and fresh: "inj gen" "\<forall>k. sv_tokens st (gen k) = None"
    and svc: "svc \<in> set (sq_services req)" and nokey: "ks_get (sv_keys st) (sc_tenant scope) svc = None"
    and px: "px_tokens px = mem_ops" "px_keys px = ks_get (sv_keys st')" "registry_get svc (px_registry px) = Some p"
  shows "is_admin (sc_role scope) \<and> ks_get (sv_keys st) ''dev'' svc \<noteq> None \<and>
    (\<exists>tok rec. map_of (se_env s) (key_var svc) = Some (token_display tok) \<and> sv_tokens st' tok = Some rec \<and>
      (\<forall>rq ps later upath.
        ps_tokens ps = sv_tokens st' \<and> extract_phantom px (rq_headers rq) = Some tok \<and>
        split_service_path (rq_path rq) = Some (service_name svc, upath) \<and>
        allows_path (scope_for (sq_scopes req) svc) upath \<and> \<not> is_expired rec later \<longrightarrow>
        fst (handle px later rq ps) = plain_response 502 ''upstream key not configured'' \<and>
        ps_sent (snd (handle px later rq ps)) = ps_sent ps))"
proof -
  obtain tok rec where tok: "map_of (se_env s) (key_var svc) = Some (token_display tok)" "sv_tokens st' tok = Some rec"
    and rec: "rec = session_record now sid (sc_tenant scope) (map_option (\<lambda>secs. secs * 1000000000) (sq_ttl_secs req))
      (sq_scopes req) svc"
    using create_session_tokens [OF created fresh svc] by blast
  have fields: "tr_tenant_id rec = sc_tenant scope" "tr_service rec = svc" "tr_scope rec = scope_for (sq_scopes req) svc"
    by (simp_all add: rec session_record_def mk_token_record_def)
  have keys: "has_key scope (sv_keys st) svc" "sv_keys st' = sv_keys st"
    using create_session_Ok [OF created] svc by auto
  have "fst (handle px later rq ps) = plain_response 502 ''upstream key not configured'' \<and>
        ps_sent (snd (handle px later rq ps)) = ps_sent ps"
    if rq: "ps_tokens ps = sv_tokens st' \<and> extract_phantom px (rq_headers rq) = Some tok \<and>
        split_service_path (rq_path rq) = Some (service_name svc, upath) \<and>
        allows_path (scope_for (sq_scopes req) svc) upath \<and> \<not> is_expired rec later" for rq ps later upath
  proof -
    have "ts_lookup (px_tokens px) later tok (ps_tokens ps) = (Some rec, ps_tokens ps)"
      using rq tok by (simp add: px mem_ops_def mem_lookup_def)
    moreover have "find_by_segment (service_name svc) (px_registry px) = Some (svc, p)"
      using px(3) by (simp add: find_by_segment_get)
    ultimately show ?thesis
      using rq nokey by (simp add: handle_def Let_def fields px keys)
  qed
  moreover have "is_admin (sc_role scope) \<and> ks_get (sv_keys st) ''dev'' svc \<noteq> None"
    using keys nokey by (auto simp: has_key_def)
  ultimately show ?thesis
    using tok by blast
qed

theorem admin_session_no_key_witness:
  "\<exists>s st' tok rec. create_session mem_ops ''http://p'' \<lparr>sc_tenant = ''ops'', sc_role = Admin\<rparr> 1 ''sess'' demo_gen
       demo_session_request (demo_svc ''dev'') = (Some (Ok s), st') \<and>
     map_of (se_env s) ''OPENAI_API_KEY'' = Some (token_display tok) \<and> sv_tokens st' tok = Some rec"
proof -
  let ?scope = "\<lparr>sc_tenant = ''ops'', sc_role = Admin\<rparr>"
  have "has_key ?scope (sv_keys (demo_svc ''dev'')) OpenAi"
    by (simp add: has_key_def demo_svc_def ks_get_def ks_set_def is_admin_def)
  from demo_session_create [OF this] obtain s st' where
    c: "create_session mem_ops ''http://p'' ?scope 1 ''sess'' demo_gen demo_session_request (demo_svc ''dev'') = (Some (Ok s), st')"
    "sv_keys st' = sv_keys (demo_svc ''dev'')"
    by blast
  have "key_var OpenAi = ''OPENAI_API_KEY''" "ks_get (sv_keys (demo_svc ''dev'')) ''ops'' OpenAi = None"
    by (simp_all add: key_var_def demo_svc_def ks_get_def ks_set_def)
  then show ?thesis
    using admin_session_no_key [OF c(1) demo_gen_inj, of OpenAi "demo_svc_px ''dev''" demo_provider] c
    by (fastforce simp: demo_svc_def demo_session_request_def demo_svc_px_def registry_get_def)
qed

end
