(* ===== verification/Jail_Ledger.thy ===== *)
theory Jail_Ledger
  imports Git_Clone Session_Routes
begin

text \<open>
  The ledger of jail runs (\<open>agentjail-ctl/src/jails.rs\<close>) with its routes (\<open>routes/jails.rs\<close>), the
  audit log of the proxy (\<open>audit.rs\<close>, \<open>routes/audit.rs\<close>), the handlers that run a jail and record it
  (\<open>routes/exec.rs\<close>) and the live fork (\<open>routes/fork.rs\<close>).  Output is text, already decoded; the
  six figures of a resource sample are set together and kept as one record.  Unicode lower case is
  an argument.
\<close>

section \<open>Records\<close>

datatype jail_kind = KindRun | KindExec | KindFork | KindStream | KindWorkspace

datatype jail_status = Running | Completed | Errored

definition kind_as_str :: "jail_kind \<Rightarrow> string" where
  "kind_as_str k =
     (case k of KindRun \<Rightarrow> ''run'' | KindExec \<Rightarrow> ''exec'' | KindFork \<Rightarrow> ''fork'' | KindStream \<Rightarrow> ''stream''
      | KindWorkspace \<Rightarrow> ''workspace'')"

definition kind_from_str_or_run :: "string \<Rightarrow> jail_kind" where
  "kind_from_str_or_run s =
     (if s = ''exec'' then KindExec else if s = ''fork'' then KindFork else if s = ''stream'' then KindStream
      else if s = ''workspace'' then KindWorkspace else KindRun)"

definition status_as_str :: "jail_status \<Rightarrow> string" where
  "status_as_str s = (case s of Running \<Rightarrow> ''running'' | Completed \<Rightarrow> ''completed'' | Errored \<Rightarrow> ''error'')"

definition status_from_str_or_error :: "string \<Rightarrow> jail_status" where
  "status_from_str_or_error s =
     (if s = ''running'' then Running else if s = ''completed'' then Completed else Errored)"

record jail_snapshot =
  js_network_mode :: string
  js_network_domains :: "string list"
  js_seccomp :: string
  js_memory_mb :: nat
  js_timeout_secs :: nat
  js_cpu_percent :: nat
  js_max_pids :: nat
  js_git_repo :: "string option"
  js_git_ref :: "string option"

definition config_snapshot :: "exec_options \<Rightarrow> nat \<Rightarrow> nat \<Rightarrow> git_spec option \<Rightarrow> jail_snapshot" where
  "config_snapshot options memory_mb timeout_secs git =
     (let (mode, domains) = (case eo_network options of
            Some SpecLoopback \<Rightarrow> (''loopback'', [])
          | Some (SpecAllowlist ds) \<Rightarrow> (''allowlist'', ds)
          | _ \<Rightarrow> (''none'', []));
          (repo, git_ref) = (case git of Some g \<Rightarrow> git_primary g | None \<Rightarrow> (None, None))
      in \<lparr>js_network_mode = mode, js_network_domains = domains,
          js_seccomp = (case eo_seccomp options of Some SpecStrict \<Rightarrow> ''strict'' | _ \<Rightarrow> ''standard''),
          js_memory_mb = memory_mb, js_timeout_secs = timeout_secs,
          js_cpu_percent = clamp 1 800 (unwrap_or 100 (eo_cpu_percent options)),
          js_max_pids = clamp 1 1024 (unwrap_or 64 (eo_max_pids options)),
          js_git_repo = repo, js_git_ref = git_ref\<rparr>)"

record resource_stats =
  st_memory_peak :: nat
  st_memory_current :: nat
  st_cpu_usec :: nat
  st_io_read :: nat
  st_io_write :: nat
  st_pids :: nat

record run_output = jail_output +
  ro_stdout :: string
  ro_stderr :: string
  ro_duration_ms :: nat
  ro_oom_killed :: bool
  ro_stats :: "resource_stats option"

record jail_record =
  jr_id :: int
  jr_tenant :: string
  jr_kind :: jail_kind
  jr_started_at :: int
  jr_ended_at :: "int option"
  jr_status :: jail_status
  jr_session :: "string option"
  jr_label :: string
  jr_parent :: "int option"
  jr_exit_code :: "int option"
  jr_duration_ms :: "nat option"
  jr_timed_out :: "bool option"
  jr_oom_killed :: "bool option"
  jr_stats :: "resource_stats option"
  jr_stdout :: "string option"
  jr_stderr :: "string option"
  jr_error :: "string option"
  jr_config :: "jail_snapshot option"

definition new_running ::
  "int \<Rightarrow> int \<Rightarrow> string \<Rightarrow> jail_kind \<Rightarrow> string \<Rightarrow> string option \<Rightarrow> int option \<Rightarrow> jail_record" where
  "new_running now i tenant kind label session parent =
     \<lparr>jr_id = i, jr_tenant = tenant, jr_kind = kind, jr_started_at = now, jr_ended_at = None, jr_status = Running,
      jr_session = session, jr_label = label, jr_parent = parent, jr_exit_code = None, jr_duration_ms = None,
      jr_timed_out = None, jr_oom_killed = None, jr_stats = None, jr_stdout = None, jr_stderr = None,
      jr_error = None, jr_config = None\<rparr>"

section \<open>The ring buffer of runs\<close>

record ledger =
  ld_rows :: "jail_record list"
  ld_next :: int
  ld_capacity :: nat

definition OUTPUT_CAP :: nat where
  "OUTPUT_CAP = 16 * 1024"

definition DEFAULT_CAPACITY :: nat where
  "DEFAULT_CAPACITY = 2000"

definition ledger_new :: ledger where
  "ledger_new = \<lparr>ld_rows = [], ld_next = 0, ld_capacity = DEFAULT_CAPACITY\<rparr>"

definition wrap_i64 :: "int \<Rightarrow> int" where
  "wrap_i64 n = (if n = 2 ^ 63 - 1 then - (2 ^ 63) else n + 1)"

text \<open>Both ring buffers drop the oldest row when full.\<close>

definition push_ring :: "nat \<Rightarrow> 'r \<Rightarrow> 'r list \<Rightarrow> 'r list" where
  "push_ring capacity r rows = (if capacity \<le> length rows then drop 1 rows else rows) @ [r]"

definition jl_start ::
  "int \<Rightarrow> string \<Rightarrow> jail_kind \<Rightarrow> string \<Rightarrow> string option \<Rightarrow> int option \<Rightarrow> ledger \<Rightarrow> int \<times> ledger" where
  "jl_start now tenant kind label session parent l =
     (ld_next l,
      l\<lparr>ld_next := wrap_i64 (ld_next l),
        ld_rows := push_ring (ld_capacity l) (new_running now (ld_next l) tenant kind label session parent) (ld_rows l)\<rparr>)"

fun update_first :: "('r \<Rightarrow> bool) \<Rightarrow> ('r \<Rightarrow> 'r) \<Rightarrow> 'r list \<Rightarrow> 'r list" where
  "update_first P f [] = []"
| "update_first P f (r # rs) = (if P r then f r # rs else r # update_first P f rs)"

definition jl_update :: "int \<Rightarrow> (jail_record \<Rightarrow> jail_record) \<Rightarrow> ledger \<Rightarrow> ledger" where
  "jl_update i f l = l\<lparr>ld_rows := update_first (\<lambda>r. jr_id r = i) f (ld_rows l)\<rparr>"

definition jl_get :: "int \<Rightarrow> ledger \<Rightarrow> jail_record option" where
  "jl_get i l = find (\<lambda>r. jr_id r = i) (ld_rows l)"

text \<open>\<open>None\<close> is the panic of a cut inside a character.\<close>

definition truncated_mark :: string where
  "truncated_mark = ellipsis @ '' (truncated)''"

definition truncate_str :: "string \<Rightarrow> nat \<Rightarrow> string option" where
  "truncate_str s cap = (if length s \<le> cap then Some s else map_option (\<lambda>p. p @ truncated_mark) (slice_to s cap))"

text \<open>The operations on a row; the flag says whether the call returned.  A panic leaves what was
  assigned before it.\<close>

definition finish_row :: "int \<Rightarrow> run_output \<Rightarrow> jail_record \<Rightarrow> jail_record" where
  "finish_row now out r =
     r\<lparr>jr_ended_at := Some now, jr_status := Completed, jr_exit_code := Some (out_exit_code out),
       jr_duration_ms := Some (ro_duration_ms out), jr_timed_out := Some (out_timed_out out),
       jr_oom_killed := Some (ro_oom_killed out),
       jr_stats := (case ro_stats out of Some s \<Rightarrow> Some s | None \<Rightarrow> jr_stats r)\<rparr>"

definition set_outputs :: "string \<Rightarrow> string \<Rightarrow> jail_record \<Rightarrow> jail_record" where
  "set_outputs stdout stderr r =
     (case truncate_str stdout OUTPUT_CAP of
        None \<Rightarrow> r
      | Some so \<Rightarrow>
          (case truncate_str stderr OUTPUT_CAP of
             None \<Rightarrow> r\<lparr>jr_stdout := Some so\<rparr>
           | Some se \<Rightarrow> r\<lparr>jr_stdout := Some so, jr_stderr := Some se\<rparr>))"

definition outputs_fit :: "string \<Rightarrow> string \<Rightarrow> bool" where
  "outputs_fit stdout stderr = (truncate_str stdout OUTPUT_CAP \<noteq> None \<and> truncate_str stderr OUTPUT_CAP \<noteq> None)"

definition jl_finish :: "int \<Rightarrow> int \<Rightarrow> run_output \<Rightarrow> ledger \<Rightarrow> bool \<times> ledger" where
  "jl_finish now i out l =
     (jl_get i l = None \<or> outputs_fit (ro_stdout out) (ro_stderr out),
      jl_update i (\<lambda>r. set_outputs (ro_stdout out) (ro_stderr out) (finish_row now out r)) l)"

definition jl_tail :: "int \<Rightarrow> string \<Rightarrow> string \<Rightarrow> ledger \<Rightarrow> bool \<times> ledger" where
  "jl_tail i stdout stderr l =
     (jl_get i l = None \<or> outputs_fit stdout stderr, jl_update i (set_outputs stdout stderr) l)"

definition jl_sample_stats :: "int \<Rightarrow> resource_stats \<Rightarrow> ledger \<Rightarrow> ledger" where
  "jl_sample_stats i s l = jl_update i (\<lambda>r. r\<lparr>jr_stats := Some s\<rparr>) l"

definition jl_attach_config :: "int \<Rightarrow> jail_snapshot \<Rightarrow> ledger \<Rightarrow> ledger" where
  "jl_attach_config i c l = jl_update i (\<lambda>r. r\<lparr>jr_config := Some c\<rparr>) l"

definition jl_error :: "int \<Rightarrow> int \<Rightarrow> string \<Rightarrow> ledger \<Rightarrow> ledger" where
  "jl_error now i message l =
     jl_update i (\<lambda>r. r\<lparr>jr_ended_at := Some now, jr_status := Errored, jr_error := Some message\<rparr>) l"

definition jl_recent :: "nat \<Rightarrow> jail_status option \<Rightarrow> ledger \<Rightarrow> jail_record list \<times> int" where
  "jl_recent limit status l =
     (take limit (filter (\<lambda>r. case status of None \<Rightarrow> True | Some s \<Rightarrow> jr_status r = s) (rev (ld_rows l))), ld_next l)"

record jail_query =
  jq_tenant :: "string option"
  jq_limit :: nat
  jq_offset :: nat
  jq_status :: "jail_status option"
  jq_kind :: "jail_kind option"
  jq_q :: "string option"

definition jail_matches :: "(string \<Rightarrow> string) \<Rightarrow> jail_query \<Rightarrow> jail_record \<Rightarrow> bool" where
  "jail_matches lower_case q r =
     (in_tenant jr_tenant (jq_tenant q) r \<and>
      (case jq_status q of None \<Rightarrow> True | Some s \<Rightarrow> jr_status r = s) \<and>
      (case jq_kind q of None \<Rightarrow> True | Some k \<Rightarrow> jr_kind r = k) \<and>
      (case jq_q q of None \<Rightarrow> True
       | Some s \<Rightarrow>
           (let n = lower_case s
            in contains_str (lower_case (jr_label r)) n \<or> contains_str (lower_case (unwrap_or [] (jr_session r))) n \<or>
               contains_str (lower_case (unwrap_or [] (jr_error r))) n)))"

definition jl_page :: "(string \<Rightarrow> string) \<Rightarrow> jail_query \<Rightarrow> ledger \<Rightarrow> jail_record list \<times> nat" where
  "jl_page lower_case q l =
     page_of (jq_limit q) (jq_offset q) (filter (jail_matches lower_case q) (rev (ld_rows l)))"

section \<open>Routes of the ledger\<close>

record jails_query =
  lq_limit :: "nat option"
  lq_offset :: "nat option"
  lq_status :: "string option"
  lq_kind :: "string option"
  lq_q :: "string option"

definition list_jails :: "(string \<Rightarrow> string) \<Rightarrow> tenant_scope \<Rightarrow> jails_query \<Rightarrow> ledger \<Rightarrow> jail_record list \<times> nat" where
  "list_jails lower_case scope q l =
     jl_page lower_case
       \<lparr>jq_tenant = tenant_filter scope, jq_limit = min (unwrap_or 50 (lq_limit q)) 500,
        jq_offset = unwrap_or 0 (lq_offset q),
        jq_status = (case lq_status q of None \<Rightarrow> None
          | Some s \<Rightarrow> if s = ''running'' then Some Running else if s = ''completed'' then Some Completed
                     else if s = ''error'' then Some Errored else None),
        jq_kind = (case lq_kind q of None \<Rightarrow> None
          | Some s \<Rightarrow> if s = ''run'' then Some KindRun else if s = ''exec'' then Some KindExec
                     else if s = ''fork'' then Some KindFork else if s = ''stream'' then Some KindStream
                     else if s = ''workspace'' then Some KindWorkspace else None),
        jq_q = (case lq_q q of None \<Rightarrow> None | Some s \<Rightarrow> if trim s = [] then None else Some s)\<rparr> l"

text \<open>\<open>str::parse::<i64>\<close>: an optional sign and decimal digits.\<close>

definition parse_i64 :: "string \<Rightarrow> int option" where
  "parse_i64 s =
     (case s of
        c # digits \<Rightarrow>
          if c = CHR ''-''
          then (case digits of
                  d # _ \<Rightarrow> if d = CHR ''+'' then None else map_option (\<lambda>n. - int n) (parse_unsigned (2 ^ 63) digits)
                | [] \<Rightarrow> None)
          else map_option int (parse_unsigned (2 ^ 63 - 1) s)
      | [] \<Rightarrow> None)"

definition show_int :: "int \<Rightarrow> string" where
  "show_int n = (if n < 0 then CHR ''-'' # show_nat (nat (- n)) else show_nat (nat n))"

definition get_jail :: "tenant_scope \<Rightarrow> string \<Rightarrow> ledger \<Rightarrow> (ctl_error, jail_record) result" where
  "get_jail scope i l =
     (case parse_i64 i of
        None \<Rightarrow> Err (BadRequest ''invalid id'')
      | Some n \<Rightarrow>
          (case jl_get n l of
             Some r \<Rightarrow> if can_see scope (jr_tenant r) then Ok r else Err (NotFound (''jail '' @ show_int n))
           | None \<Rightarrow> Err (NotFound (''jail '' @ show_int n))))"

section \<open>The audit log\<close>

record audit_row =
  ar_id :: nat
  ar_at :: int
  ar_session_id :: string
  ar_service :: string
  ar_method :: string
  ar_path :: string
  ar_status :: nat
  ar_reject_reason :: "string option"
  ar_upstream_ms :: "nat option"

record audit_log =
  al_rows :: "audit_row list"
  al_next :: nat
  al_capacity :: nat

definition audit_push :: "audit_row \<Rightarrow> audit_log \<Rightarrow> audit_log" where
  "audit_push row a =
     a\<lparr>al_next := (al_next a + 1) mod 2 ^ 64,
       al_rows := push_ring (al_capacity a) (row\<lparr>ar_id := al_next a\<rparr>) (al_rows a)\<rparr>"

definition audit_recent :: "nat \<Rightarrow> audit_log \<Rightarrow> audit_row list" where
  "audit_recent limit a = take limit (rev (al_rows a))"

text \<open>The sink that the proxy writes to.\<close>

definition audit_sink_record :: "int \<Rightarrow> audit_entry \<Rightarrow> audit_log \<Rightarrow> audit_log" where
  "audit_sink_record now e a =
     audit_push
       \<lparr>ar_id = 0, ar_at = now, ar_session_id = ae_session_id e,
        ar_service = (case ae_service e of Some svc \<Rightarrow> service_name svc | None \<Rightarrow> []),
        ar_method = ae_method e, ar_path = ae_path e, ar_status = ae_status e,
        ar_reject_reason = ae_reject_reason e,
        ar_upstream_ms = map_option (\<lambda>ns. min (ns div 1000000) (2 ^ 64 - 1)) (ae_upstream_latency e)\<rparr> a"

definition list_audit :: "tenant_scope \<Rightarrow> nat option \<Rightarrow> session list \<Rightarrow> audit_log \<Rightarrow> audit_row list \<times> nat" where
  "list_audit scope q_limit sessions a =
     (let limit = min (unwrap_or 100 q_limit) 1000
      in if is_admin (sc_role scope) then (audit_recent limit a, al_next a)
         else (let own = map se_id (se_list (Some (sc_tenant scope)) sessions)
               in (take limit (filter (\<lambda>r. ar_session_id r \<in> set own) (audit_recent (min (limit * 4) 1000) a)), al_next a)))"

section \<open>Runs that are recorded\<close>

text \<open>What becomes of a jail once its row is written: spawning fails, the monitored run returns
  with the text it drained, or it never returns (the process keeps its output open, or the client
  has gone and the handler with it).\<close>

datatype run_outcome =
    SpawnFailed jail_error
  | Returned string string "(jail_error, run_output) result"
  | NeverReturns

text \<open>The drained text is the output of a run that has none of its own.\<close>

definition merge_output :: "string \<Rightarrow> string \<Rightarrow> run_output \<Rightarrow> run_output" where
  "merge_output so se out =
     out\<lparr>ro_stdout := (if ro_stdout out = [] then so else ro_stdout out),
         ro_stderr := (if ro_stderr out = [] then se else ro_stderr out)\<rparr>"

definition settle_row ::
  "(jail_error \<Rightarrow> string) \<Rightarrow> int \<Rightarrow> int \<Rightarrow> run_outcome \<Rightarrow> ledger \<Rightarrow> run_output handled \<times> ledger" where
  "settle_row show_err now i outcome l =
     (case outcome of
        SpawnFailed e \<Rightarrow> (Some (Err (CtlJail e)), jl_error now i (show_err e) l)
      | NeverReturns \<Rightarrow> (None, l)
      | Returned so se r \<Rightarrow>
          (case jl_tail i so se l of
             (False, l) \<Rightarrow> (None, l)
           | (True, l) \<Rightarrow>
               (case r of
                  Inl e \<Rightarrow> (Some (Err (CtlJail e)), jl_error now i (show_err e) l)
                | Inr out \<Rightarrow>
                    (case jl_finish now i (merge_output so se out) l of
                       (False, l) \<Rightarrow> (None, l)
                     | (True, l) \<Rightarrow> (Some (Ok (merge_output so se out)), l)))))"

definition run_and_record ::
  "(jail_error \<Rightarrow> string) \<Rightarrow> int \<Rightarrow> string \<Rightarrow> jail_kind \<Rightarrow> string \<Rightarrow> string option \<Rightarrow> jail_snapshot \<Rightarrow> run_outcome \<Rightarrow> ledger
   \<Rightarrow> run_output handled \<times> ledger" where
  "run_and_record show_err now tenant kind label session config outcome l =
     (case jl_start now tenant kind label session None l of
        (i, l) \<Rightarrow> settle_row show_err now i outcome (jl_attach_config i config l))"

text \<open>The number of free permits is taken by the running handlers; a handler that finds none
  fails.  The temporary directories, the new jail and its run are arguments.\<close>

record exec_world =
  xw_is_root :: bool
  xw_permits :: nat
  xw_dirs :: "(string, string \<times> string) result"
  xw_host :: clone_host
  xw_write :: "string \<Rightarrow> string \<Rightarrow> (string, unit) result"
  xw_new :: "jail_config \<Rightarrow> (jail_error, unit) result"
  xw_run :: "jail_config \<Rightarrow> string \<Rightarrow> string list \<Rightarrow> run_outcome"
  xw_show_err :: "jail_error \<Rightarrow> string"

definition jail_err :: "(jail_error, 'a) result \<Rightarrow> (ctl_error, 'a) result" where
  "jail_err r = (case r of Inl e \<Rightarrow> Err (CtlJail e) | Inr a \<Rightarrow> Ok a)"

definition default_path :: "(string \<times> string) list" where
  "default_path = [(''PATH'', ''/usr/local/bin:/usr/bin:/bin'')]"

definition take_permit :: "exec_world \<Rightarrow> (ctl_error, unit) result" where
  "take_permit w = (if xw_permits w = 0 then Err (BadRequest ''too many concurrent executions'') else Ok ())"

record exec_request =
  er_cmd :: string
  er_args :: "string list"
  er_timeout_secs :: "nat option"
  er_memory_mb :: "nat option"
  er_options :: exec_options

definition exec_plan ::
  "exec_world \<Rightarrow> exec_config option \<Rightarrow> tenant_scope \<Rightarrow> int \<Rightarrow> string \<Rightarrow> exec_request \<Rightarrow> session list
   \<Rightarrow> (ctl_error, jail_config) result" where
  "exec_plan w exec_cfg scope now i req sessions =
     and_then (ok_or (CtlInternal ''exec not enabled'') exec_cfg) (\<lambda>ec.
     and_then (case se_get i sessions of
         Some s \<Rightarrow> if can_see scope (se_tenant s) then Ok s else Err (NotFound (''session '' @ i))
       | None \<Rightarrow> Err (NotFound (''session '' @ i))) (\<lambda>s.
     and_then (case se_expires_at s of
         Some e \<Rightarrow> if e < now then Err (BadRequest ''session expired'') else Ok ()
       | None \<Rightarrow> Ok ()) (\<lambda>_.
     and_then (take_permit w) (\<lambda>_.
     and_then (io_err (xw_dirs w)) (\<lambda>(source, output).
     and_then (exec_jail_config (xw_is_root w) source output
         (capped_memory (ec_default_memory_mb ec) (er_memory_mb req))
         (clamped_timeout (ec_default_timeout_secs ec) (er_timeout_secs req))
         (default_path @ se_env s) (er_options req) False []) (\<lambda>config.
     and_then (jail_err (xw_new w config)) (\<lambda>_. Ok config)))))))"

definition exec_in_session ::
  "exec_world \<Rightarrow> exec_config option \<Rightarrow> tenant_scope \<Rightarrow> int \<Rightarrow> string \<Rightarrow> exec_request \<Rightarrow> session list \<Rightarrow> ledger
   \<Rightarrow> run_output handled \<times> ledger" where
  "exec_in_session w exec_cfg scope now i req sessions l =
     (case exec_plan w exec_cfg scope now i req sessions of
        Inl e \<Rightarrow> (Some (Err e), l)
      | Inr config \<Rightarrow>
          run_and_record (xw_show_err w) now (sc_tenant scope) KindExec (er_cmd req) (Some i)
            (config_snapshot (er_options req) (jc_memory_mb config) (jc_timeout_secs config) None)
            (xw_run w config (er_cmd req) (er_args req)) l)"

record run_request =
  rr_code :: string
  rr_language :: string
  rr_timeout_secs :: "nat option"
  rr_memory_mb :: "nat option"
  rr_git :: "git_spec option"
  rr_options :: exec_options

definition clone_git :: "exec_world \<Rightarrow> git_spec option \<Rightarrow> string \<Rightarrow> (ctl_error, unit) result" where
  "clone_git w git dst = (case git of Some g \<Rightarrow> snd (git_clone (xw_host w) g dst) | None \<Rightarrow> Ok ())"

definition write_file :: "exec_world \<Rightarrow> string \<Rightarrow> string \<Rightarrow> string \<Rightarrow> (ctl_error, unit) result" where
  "write_file w dst name contents = io_err (xw_write w (path_join dst name) contents)"

definition run_plan ::
  "exec_world \<Rightarrow> exec_config option \<Rightarrow> run_request \<Rightarrow> (ctl_error, jail_config \<times> string \<times> string) result" where
  "run_plan w exec_cfg req =
     and_then (ok_or (CtlInternal ''exec not enabled'') exec_cfg) (\<lambda>ec.
     and_then (if 1024 * 1024 < length (rr_code req) then Err (BadRequest ''code exceeds 1 MB'') else Ok ()) (\<lambda>_.
     and_then (take_permit w) (\<lambda>_.
     and_then (io_err (xw_dirs w)) (\<lambda>(source, output).
     and_then (language_runtime (rr_language req)) (\<lambda>(filename, cmd).
     and_then (clone_git w (rr_git req) source) (\<lambda>_.
     and_then (write_file w source filename (rr_code req)) (\<lambda>_.
     and_then (exec_jail_config (xw_is_root w) source output
         (capped_memory (ec_default_memory_mb ec) (rr_memory_mb req))
         (clamped_timeout (ec_default_timeout_secs ec) (rr_timeout_secs req))
         default_path (rr_options req) False []) (\<lambda>config.
     and_then (jail_err (xw_new w config)) (\<lambda>_. Ok (config, filename, cmd))))))))))"

definition create_run ::
  "exec_world \<Rightarrow> exec_config option \<Rightarrow> tenant_scope \<Rightarrow> int \<Rightarrow> run_request \<Rightarrow> ledger \<Rightarrow> run_output handled \<times> ledger" where
  "create_run w exec_cfg scope now req l =
     (case run_plan w exec_cfg req of
        Inl e \<Rightarrow> (Some (Err e), l)
      | Inr (config, filename, cmd) \<Rightarrow>
          run_and_record (xw_show_err w) now (sc_tenant scope) KindRun (rr_language req) None
            (config_snapshot (rr_options req) (jc_memory_mb config) (jc_timeout_secs config) (rr_git req))
            (xw_run w config cmd [''/workspace/'' @ filename]) l)"

section \<open>Streaming\<close>

datatype sse_event =
    StartedEvent | StdoutEvent string | StderrEvent string | StatsEvent resource_stats
  | CompletedEvent run_output | ErrorEvent string

definition trim_nl :: "string \<Rightarrow> string" where
  "trim_nl s =
     (let s = (if ends_with s [CHR 0x0A] then butlast s else s)
      in if ends_with s [CHR 0x0D] then butlast s else s)"

text \<open>What the loop over both streams and the samples yields: tagged lines and samples in the
  order in which they arrive.\<close>

datatype stream_item = OutLine string | ErrLine string | Sampled resource_stats

definition item_event :: "stream_item \<Rightarrow> sse_event" where
  "item_event i =
     (case i of OutLine l \<Rightarrow> StdoutEvent (trim_nl l) | ErrLine l \<Rightarrow> StderrEvent (trim_nl l) | Sampled s \<Rightarrow> StatsEvent s)"

definition stream_plan ::
  "exec_world \<Rightarrow> exec_config option \<Rightarrow> run_request \<Rightarrow> (ctl_error, jail_config \<times> string \<times> string) result" where
  "stream_plan w exec_cfg req =
     and_then (ok_or (CtlInternal ''exec not enabled'') exec_cfg) (\<lambda>ec.
     and_then (if 1024 * 1024 < length (rr_code req) then Err (BadRequest ''code exceeds 1 MB'') else Ok ()) (\<lambda>_.
     and_then (take_permit w) (\<lambda>_.
     and_then (language_runtime (rr_language req)) (\<lambda>(filename, cmd).
     and_then (io_err (xw_dirs w)) (\<lambda>(source, output).
     and_then (write_file w source filename (rr_code req)) (\<lambda>_.
     and_then (exec_jail_config (xw_is_root w) source output
         (capped_memory (ec_default_memory_mb ec) (rr_memory_mb req))
         (clamped_timeout (ec_default_timeout_secs ec) (rr_timeout_secs req))
         default_path (rr_options req) False []) (\<lambda>config.
     and_then (jail_err (xw_new w config)) (\<lambda>_. Ok (config, filename, cmd)))))))))"

text \<open>The run of a stream: the items it yields and its end, or \<open>None\<close> when the client leaves before.\<close>

definition create_stream_run ::
  "exec_world \<Rightarrow> exec_config option \<Rightarrow> tenant_scope \<Rightarrow> int \<Rightarrow> run_request \<Rightarrow> jail_error option \<Rightarrow> stream_item list
   \<Rightarrow> (jail_error, run_output) result option \<Rightarrow> ledger \<Rightarrow> (ctl_error, sse_event list) result \<times> ledger" where
  "create_stream_run w exec_cfg scope now req spawn items ended l =
     (case and_then (stream_plan w exec_cfg req) (\<lambda>p. case spawn of Some e \<Rightarrow> Err (CtlJail e) | None \<Rightarrow> Ok p) of
        Inl e \<Rightarrow> (Err e, l)
      | Inr (config, filename, cmd) \<Rightarrow>
          (let (i, l) = jl_start now (sc_tenant scope) KindStream (rr_language req) None None l;
               l = jl_attach_config i
                 (config_snapshot (rr_options req) (jc_memory_mb config) (jc_timeout_secs config) (rr_git req)) l;
               events = StartedEvent # map item_event items
           in case ended of
                None \<Rightarrow> (Ok events, l)
              | Some (Inr out) \<Rightarrow>
                  (case jl_finish now i out l of
                     (True, l) \<Rightarrow> (Ok (events @ [CompletedEvent out]), l)
                   | (False, l) \<Rightarrow> (Ok events, l))
              | Some (Inl e) \<Rightarrow> (Ok (events @ [ErrorEvent (xw_show_err w e)]), jl_error now i (xw_show_err w e) l)))"

section \<open>Live fork\<close>

record fork_request =
  fq_parent_code :: string
  fq_child_code :: "string option"
  fq_children :: "string list"
  fq_language :: string
  fq_fork_after_ms :: "nat option"
  fq_timeout_secs :: "nat option"
  fq_memory_mb :: "nat option"
  fq_options :: exec_options
  fq_git :: "git_spec option"

record fork_plan =
  fp_children :: "string list"
  fp_timeout :: nat
  fp_memory :: nat
  fp_fork_after :: nat

definition fork_validate :: "fork_request \<Rightarrow> exec_config \<Rightarrow> (ctl_error, fork_plan) result" where
  "fork_validate req ec =
     and_then (case fq_children req of
         [] \<Rightarrow> (case fq_child_code req of
                  None \<Rightarrow> Err (BadRequest ''children or child_code is required'')
                | Some c \<Rightarrow> Ok [c])
       | _ \<Rightarrow> Ok (fq_children req)) (\<lambda>children.
     if 16 < length children then Err (BadRequest ''at most 16 children per fork'')
     else if 1024 * 1024 < length (fq_parent_code req) \<or> list_ex (\<lambda>c. 1024 * 1024 < length c) children
     then Err (BadRequest ''code exceeds 1 MB'')
     else Ok \<lparr>fp_children = children, fp_timeout = clamped_timeout (ec_default_timeout_secs ec) (fq_timeout_secs req),
              fp_memory = capped_memory (ec_default_memory_mb ec) (fq_memory_mb req),
              fp_fork_after = min (unwrap_or 1500 (fq_fork_after_ms req)) 30000\<rparr>)"

text \<open>The orchestrator remembers the rows it has started and those it has finalised.\<close>

record fork_orch =
  fo_parent :: "int option"
  fo_children :: "int list"
  fo_finalized :: "int list"
  fo_ledger :: ledger

definition fo_finish :: "int \<Rightarrow> int \<Rightarrow> run_output \<Rightarrow> fork_orch \<Rightarrow> bool \<times> fork_orch" where
  "fo_finish now i out o' =
     (case jl_finish now i out (fo_ledger o') of
        (True, l) \<Rightarrow> (True, o'\<lparr>fo_ledger := l, fo_finalized := i # fo_finalized o'\<rparr>)
      | (False, l) \<Rightarrow> (False, o'\<lparr>fo_ledger := l\<rparr>))"

definition fo_error :: "int \<Rightarrow> int \<Rightarrow> string \<Rightarrow> fork_orch \<Rightarrow> fork_orch" where
  "fo_error now i msg o' = o'\<lparr>fo_ledger := jl_error now i msg (fo_ledger o'), fo_finalized := i # fo_finalized o'\<rparr>"

definition fo_rows :: "fork_orch \<Rightarrow> int list" where
  "fo_rows o' = (case fo_parent o' of Some p \<Rightarrow> [p] | None \<Rightarrow> []) @ fo_children o'"

definition fail_stragglers :: "int \<Rightarrow> string \<Rightarrow> fork_orch \<Rightarrow> fork_orch" where
  "fail_stragglers now msg o' =
     fold (\<lambda>i. fo_error now i msg) (filter (\<lambda>i. i \<notin> set (fo_finalized o')) (fo_rows o')) o'"

fun start_children ::
  "int \<Rightarrow> string \<Rightarrow> (nat \<Rightarrow> string) \<Rightarrow> int \<Rightarrow> jail_snapshot \<Rightarrow> nat \<Rightarrow> nat \<Rightarrow> fork_orch \<Rightarrow> fork_orch" where
  "start_children now tenant label parent config k 0 o' = o'"
| "start_children now tenant label parent config k (Suc n) o' =
     (case jl_start now tenant KindFork (label k) None (Some parent) (fo_ledger o') of
        (i, l) \<Rightarrow>
          start_children now tenant label parent config (Suc k) n
            (o'\<lparr>fo_ledger := jl_attach_config i config l, fo_children := fo_children o' @ [i]\<rparr>))"

text \<open>The monitored runs of the children, each with its last flush.\<close>

fun settle_children ::
  "(int \<times> run_outcome) list \<Rightarrow> ledger \<Rightarrow> (int \<times> (jail_error, run_output) result) list option \<times> ledger" where
  "settle_children [] l = (Some [], l)"
| "settle_children ((i, oc) # cs) l =
     (case oc of
        NeverReturns \<Rightarrow> (None, l)
      | SpawnFailed e \<Rightarrow> (case settle_children cs l of (rs, l) \<Rightarrow> (map_option (\<lambda>rs. (i, Err e) # rs) rs, l))
      | Returned so se r \<Rightarrow>
          (case jl_tail i so se l of
             (False, l) \<Rightarrow> (None, l)
           | (True, l) \<Rightarrow>
               (case settle_children cs l of
                  (rs, l) \<Rightarrow> (map_option (\<lambda>rs. (i, and_then r (\<lambda>out. Ok (merge_output so se out))) # rs) rs, l))))"

text \<open>The children's results in order; the first failure ends the collection.\<close>

fun collect_children ::
  "(jail_error \<Rightarrow> string) \<Rightarrow> int \<Rightarrow> (int \<times> (jail_error, run_output) result) list \<Rightarrow> fork_orch
   \<Rightarrow> (ctl_error, run_output list) result option \<times> fork_orch" where
  "collect_children show_err now [] o' = (Some (Ok []), o')"
| "collect_children show_err now ((i, r) # rs) o' =
     (case r of
        Inl e \<Rightarrow> (Some (Err (CtlJail e)), fo_error now i (show_err e) o')
      | Inr out \<Rightarrow>
          (case fo_finish now i out o' of
             (False, o') \<Rightarrow> (None, o')
           | (True, o') \<Rightarrow>
               (case collect_children show_err now rs o' of
                  (Some (Inr outs), o') \<Rightarrow> (Some (Ok (out # outs)), o')
                | (r, o') \<Rightarrow> (r, o'))))"

record fork_world =
  fw_exec :: exec_world
  fw_spawn :: "jail_error option"
  fw_fork :: "nat \<Rightarrow> (ctl_error, unit) result"
  fw_parent :: "(jail_error, run_output) result"
  fw_child :: "nat \<Rightarrow> run_outcome"

definition child_label :: "string \<Rightarrow> nat \<Rightarrow> nat \<Rightarrow> string" where
  "child_label lang n k =
     lang @ [CHR 0x20, CHR 0xC2, CHR 0xB7] @ (if n = 1 then '' child'' else '' child '' @ show_nat k)"

definition parent_label :: "string \<Rightarrow> string" where
  "parent_label lang = lang @ [CHR 0x20, CHR 0xC2, CHR 0xB7] @ '' parent''"

fun write_children :: "exec_world \<Rightarrow> string \<Rightarrow> string \<Rightarrow> nat \<Rightarrow> string list \<Rightarrow> (ctl_error, unit) result" where
  "write_children w dst filename k [] = Ok ()"
| "write_children w dst filename k (c # cs) =
     and_then (write_file w dst (''child_'' @ show_nat k @ ''_'' @ filename) c) (\<lambda>_.
       write_children w dst filename (Suc k) cs)"

definition fork_prepare ::
  "fork_world \<Rightarrow> exec_config option \<Rightarrow> fork_request \<Rightarrow> (ctl_error, fork_plan \<times> jail_config) result" where
  "fork_prepare fw exec_cfg req =
     (let w = fw_exec fw in
      and_then (ok_or (CtlInternal ''exec not enabled'') exec_cfg) (\<lambda>ec.
      and_then (fork_validate req ec) (\<lambda>plan.
      and_then (take_permit w) (\<lambda>_.
      and_then (language_runtime (fq_language req)) (\<lambda>(filename, cmd).
      and_then (io_err (xw_dirs w)) (\<lambda>(source, output).
      and_then (clone_git w (fq_git req) source) (\<lambda>_.
      and_then (write_file w source filename (fq_parent_code req)) (\<lambda>_.
      and_then (write_children w source filename 0 (fp_children plan)) (\<lambda>_.
      and_then (exec_jail_config (xw_is_root w) source output (fp_memory plan) (fp_timeout plan)
          default_path (fq_options req) False []) (\<lambda>config.
      and_then (jail_err (xw_new w config)) (\<lambda>_. Ok (plan, config))))))))))))"

text \<open>\<open>live_fork\<close> for every child, in order; the first failure ends the run.\<close>

fun fork_all :: "(nat \<Rightarrow> (ctl_error, unit) result) \<Rightarrow> nat \<Rightarrow> nat \<Rightarrow> (ctl_error, unit) result" where
  "fork_all f k 0 = Ok ()"
| "fork_all f k (Suc n) = and_then (f k) (\<lambda>_. fork_all f (Suc k) n)"

text \<open>The results, the parent's first.\<close>

definition fork_collect ::
  "fork_world \<Rightarrow> int \<Rightarrow> int \<Rightarrow> (int \<times> (jail_error, run_output) result) list \<Rightarrow> fork_orch
   \<Rightarrow> (ctl_error, run_output \<times> run_output list) result option \<times> fork_orch" where
  "fork_collect fw now p rs o' =
     (case fw_parent fw of
        Inl e \<Rightarrow> (Some (Err (CtlJail e)), fo_error now p (xw_show_err (fw_exec fw) e) o')
      | Inr out \<Rightarrow>
          (case fo_finish now p out o' of
             (False, o') \<Rightarrow> (None, o')
           | (True, o') \<Rightarrow>
               (case collect_children (xw_show_err (fw_exec fw)) now rs o' of
                  (r, o') \<Rightarrow> (map_option (\<lambda>r. and_then r (\<lambda>outs. Ok (out, outs))) r, o'))))"

definition fork_join ::
  "fork_world \<Rightarrow> int \<Rightarrow> int \<Rightarrow> nat \<Rightarrow> fork_orch
   \<Rightarrow> (ctl_error, run_output \<times> run_output list) result option \<times> fork_orch" where
  "fork_join fw now p n o' =
     (case settle_children (zip (fo_children o') (map (fw_child fw) [0..<n])) (fo_ledger o') of
        (None, l) \<Rightarrow> (None, o'\<lparr>fo_ledger := l\<rparr>)
      | (Some rs, l) \<Rightarrow> fork_collect fw now p rs (o'\<lparr>fo_ledger := l\<rparr>))"

definition fork_run ::
  "fork_world \<Rightarrow> exec_config option \<Rightarrow> string \<Rightarrow> int \<Rightarrow> fork_request \<Rightarrow> ledger
   \<Rightarrow> (ctl_error, run_output \<times> run_output list) result option \<times> fork_orch" where
  "fork_run fw exec_cfg tenant now req l =
     (case fork_prepare fw exec_cfg req of
        Inl e \<Rightarrow> (Some (Err e), \<lparr>fo_parent = None, fo_children = [], fo_finalized = [], fo_ledger = l\<rparr>)
      | Inr (plan, config) \<Rightarrow>
          (let (p, l) = jl_start now tenant KindFork (parent_label (fq_language req)) None None l;
               snap = config_snapshot (fq_options req) (fp_memory plan) (fp_timeout plan) (fq_git req);
               o' = \<lparr>fo_parent = Some p, fo_children = [], fo_finalized = [], fo_ledger = jl_attach_config p snap l\<rparr>;
               n = length (fp_children plan)
           in case and_then (case fw_spawn fw of Some e \<Rightarrow> Err (CtlJail e) | None \<Rightarrow> Ok ()) (\<lambda>_. fork_all (fw_fork fw) 0 n) of
                Inl e \<Rightarrow> (Some (Err e), o')
              | Inr _ \<Rightarrow>
                  fork_join fw now p n (start_children now tenant (child_label (fq_language req) n) p snap 0 n o')))"

definition create_fork_run ::
  "(ctl_error \<Rightarrow> string) \<Rightarrow> fork_world \<Rightarrow> exec_config option \<Rightarrow> tenant_scope \<Rightarrow> int \<Rightarrow> fork_request \<Rightarrow> ledger
   \<Rightarrow> (run_output \<times> run_output list) handled \<times> fork_orch" where
  "create_fork_run show_ctl fw exec_cfg scope now req l =
     (case fork_run fw exec_cfg (sc_tenant scope) now req l of
        (Some (Inl e), o') \<Rightarrow> (Some (Err e), fail_stragglers now (show_ctl e) o')
      | (r, o') \<Rightarrow> (r, o'))"

section \<open>Lemmas\<close>

text \<open>Cutting the buffers of a monitored run never panics.\<close>

lemma truncate_str_capped: "capped buf \<Longrightarrow> truncate_str buf OUTPUT_CAP \<noteq> None"
proof -
  assume "capped buf"
  moreover have "is_char_boundary buf OUTPUT_CAP" if len: "length buf = OUTPUT_CAP_BYTES + 3" and marked: "ends_with buf ellipsis"
  proof -
    obtain r where r: "buf = r @ ellipsis"
      using marked by (auto simp: ends_with_iff)
    with len have "length r = OUTPUT_CAP"
      by (simp add: ellipsis_def OUTPUT_CAP_def OUTPUT_CAP_BYTES_def)
    then have "buf ! OUTPUT_CAP = CHR 0xE2" "OUTPUT_CAP < length buf"
      by (simp_all add: r nth_append ellipsis_def)
    then show ?thesis
      by (simp add: is_char_boundary_def utf8_cont_def)
  qed
  ultimately show ?thesis
    by (auto simp: truncate_str_def capped_def slice_to_def OUTPUT_CAP_def OUTPUT_CAP_BYTES_def)
qed

lemma update_first_ids: "(\<And>r. jr_id (f r) = jr_id r) \<Longrightarrow> map jr_id (update_first P f rows) = map jr_id rows"
  by (induction rows) auto

lemma update_first_mem:
  "distinct (map jr_id rows) \<Longrightarrow> r \<in> set (update_first (\<lambda>r. jr_id r = i) f rows) \<Longrightarrow>
     (r \<in> set rows \<and> jr_id r \<noteq> i) \<or> (\<exists>r' \<in> set rows. jr_id r' = i \<and> r = f r')"
  by (induction rows) (auto simp: image_iff split: if_splits)

text \<open>The ids of a ledger are its history: distinct and below the next one.\<close>

definition ledger_ids :: "ledger \<Rightarrow> bool" where
  "ledger_ids l = (distinct (map jr_id (ld_rows l)) \<and> (\<forall>r \<in> set (ld_rows l). jr_id r < ld_next l))"

text \<open>What a handler has done to a ledger: it has started the rows \<open>N\<close>, for one tenant, and
  finalised \<open>F\<close>; every other row is as it was.\<close>

definition is_final :: "jail_record \<Rightarrow> bool" where
  "is_final r = (jr_status r \<noteq> Running \<and> jr_ended_at r \<noteq> None)"

definition tracks :: "string \<Rightarrow> ledger \<Rightarrow> int set \<Rightarrow> int set \<Rightarrow> ledger \<Rightarrow> bool" where
  "tracks t l0 N F l =
     (ledger_ids l \<and> ld_next l0 \<le> ld_next l \<and> (\<forall>i \<in> N. ld_next l0 \<le> i \<and> i < ld_next l) \<and>
      (\<forall>r \<in> set (ld_rows l0). jr_id r < ld_next l0) \<and>
      (\<forall>r \<in> set (ld_rows l). r \<in> set (ld_rows l0) \<or>
         (jr_id r \<in> N \<and> jr_tenant r = t \<and> (jr_id r \<in> F \<longrightarrow> is_final r))))"

lemma tracks_init: "ledger_ids l \<Longrightarrow> tracks t l {} {} l"
  by (auto simp: tracks_def ledger_ids_def)

lemma push_ring_set: "set (push_ring c r rows) \<subseteq> insert r (set rows)"
  using set_drop_subset [of 1 rows] by (auto simp: push_ring_def)

lemma push_ring_distinct: "distinct (map f rows) \<Longrightarrow> f r \<notin> f ` set rows \<Longrightarrow> distinct (map f (push_ring c r rows))"
  using set_drop_subset [of 1 rows] by (auto simp: push_ring_def drop_map [symmetric] simp del: drop_map)

lemma tracks_start:
  assumes "tracks t l0 N F l" "ld_next l < 2 ^ 63 - 1" "jl_start now t kind label session parent l = (i, l')"
    "i \<notin> F"
  shows "i = ld_next l" "ld_next l' = ld_next l + 1" "tracks t l0 (insert i N) F l'"
proof -
  let ?r = "new_running now (ld_next l) t kind label session parent"
  show i: "i = ld_next l" and n: "ld_next l' = ld_next l + 1"
    using assms(2,3) by (auto simp: jl_start_def wrap_i64_def)
  have rows: "ld_rows l' = push_ring (ld_capacity l) ?r (ld_rows l)"
    using assms(3) by (auto simp: jl_start_def)
  have r: "jr_id ?r = ld_next l" "jr_tenant ?r = t"
    by (simp_all add: new_running_def)
  have mem: "x = ?r \<or> x \<in> set (ld_rows l)" if "x \<in> set (ld_rows l')" for x
    using push_ring_set [of "ld_capacity l" ?r "ld_rows l"] that unfolding rows by blast
  have l: "distinct (map jr_id (ld_rows l))" "\<And>r. r \<in> set (ld_rows l) \<Longrightarrow> jr_id r < ld_next l"
    "ld_next l0 \<le> ld_next l" "\<forall>i \<in> N. ld_next l0 \<le> i \<and> i < ld_next l" "\<forall>r \<in> set (ld_rows l0). jr_id r < ld_next l0"
    and old: "\<And>r. r \<in> set (ld_rows l) \<Longrightarrow> r \<in> set (ld_rows l0) \<or>
         (jr_id r \<in> N \<and> jr_tenant r = t \<and> (jr_id r \<in> F \<longrightarrow> is_final r))"
    using assms(1) by (auto simp: tracks_def ledger_ids_def)
  have "jr_id ?r \<notin> jr_id ` set (ld_rows l)"
    using l(2) by (force simp: r)
  then have "distinct (map jr_id (ld_rows l'))"
    unfolding rows by (rule push_ring_distinct [OF l(1)])
  moreover have "jr_id x < ld_next l'" if "x \<in> set (ld_rows l')" for x
    using mem [OF that] l(2) [of x] r(1) by (auto simp: n)
  ultimately have "ledger_ids l'"
    by (simp add: ledger_ids_def)
  moreover have "x \<in> set (ld_rows l0) \<or> (jr_id x \<in> insert i N \<and> jr_tenant x = t \<and> (jr_id x \<in> F \<longrightarrow> is_final x))"
    if "x \<in> set (ld_rows l')" for x
    using mem [OF that] old [of x] r assms(4) i by auto
  ultimately show "tracks t l0 (insert i N) F l'"
    using l(3-5) unfolding tracks_def n i by auto
qed

lemma tracks_update:
  assumes "tracks t l0 N F l" "i \<in> N" "\<And>r. jr_id (f r) = jr_id r" "\<And>r. jr_tenant (f r) = jr_tenant r"
    "\<And>r. is_final r \<Longrightarrow> is_final (f r)" "F' = F \<or> (F' = insert i F \<and> (\<forall>r. is_final (f r)))"
  shows "tracks t l0 N F' (jl_update i f l)"
proof -
  have ids: "map jr_id (ld_rows (jl_update i f l)) = map jr_id (ld_rows l)"
    by (simp add: jl_update_def update_first_ids assms(3))
  have bound: "(\<forall>r \<in> set rs. jr_id r < b) \<longleftrightarrow> (\<forall>k \<in> set (map jr_id rs). k < b)" for rs b
    by simp
  have nxt: "ld_next (jl_update i f l) = ld_next l"
    by (simp add: jl_update_def)
  have l: "ledger_ids l" "ld_next l0 \<le> ld_next l" "\<forall>i \<in> N. ld_next l0 \<le> i \<and> i < ld_next l"
    "\<forall>r \<in> set (ld_rows l0). jr_id r < ld_next l0"
    and rows: "\<And>r. r \<in> set (ld_rows l) \<Longrightarrow> r \<in> set (ld_rows l0) \<or>
         (jr_id r \<in> N \<and> jr_tenant r = t \<and> (jr_id r \<in> F \<longrightarrow> is_final r))"
    using assms(1) by (auto simp: tracks_def)
  have "r \<in> set (ld_rows l0) \<or> (jr_id r \<in> N \<and> jr_tenant r = t \<and> (jr_id r \<in> F' \<longrightarrow> is_final r))"
    if r: "r \<in> set (ld_rows (jl_update i f l))" for r
  proof -
    have "distinct (map jr_id (ld_rows l))"
      using l(1) by (simp add: ledger_ids_def)
    from update_first_mem [OF this, of r i f] r
    consider "r \<in> set (ld_rows l)" "jr_id r \<noteq> i" | r' where "r' \<in> set (ld_rows l)" "jr_id r' = i" "r = f r'"
      by (auto simp: jl_update_def)
    then show ?thesis
    proof cases
      case 1
      with rows [of r] assms(6) show ?thesis
        by auto
    next
      case 2
      then have "r' \<notin> set (ld_rows l0)"
        using l(3,4) assms(2) by force
      with rows [OF 2(1)] 2 assms(2-6) show ?thesis
        by auto
    qed
  qed
  moreover have "ledger_ids (jl_update i f l)"
    using l(1) unfolding ledger_ids_def bound ids nxt by simp
  ultimately show ?thesis
    using l(2-4) unfolding tracks_def nxt by blast
qed

lemma set_outputs_keeps [simp]:
  "jr_id (set_outputs so se r) = jr_id r" "jr_tenant (set_outputs so se r) = jr_tenant r"
  "is_final (set_outputs so se r) = is_final r"
  by (auto simp: set_outputs_def is_final_def split: option.split)

lemma finish_row_keeps [simp]:
  "jr_id (finish_row now out r) = jr_id r" "jr_tenant (finish_row now out r) = jr_tenant r" "is_final (finish_row now out r)"
  by (simp_all add: finish_row_def is_final_def)

lemma tracks_attach: "tracks t l0 N F l \<Longrightarrow> i \<in> N \<Longrightarrow> tracks t l0 N F (jl_attach_config i c l)"
  unfolding jl_attach_config_def by (rule tracks_update) (auto simp: is_final_def)

lemma tracks_tail: "tracks t l0 N F l \<Longrightarrow> i \<in> N \<Longrightarrow> jl_tail i so se l = (ok, l') \<Longrightarrow> tracks t l0 N F l'"
  using tracks_update [of t l0 N F l i "set_outputs so se" F] by (auto simp: jl_tail_def)

lemma tracks_finish:
  "tracks t l0 N F l \<Longrightarrow> i \<in> N \<Longrightarrow> jl_finish now i out l = (ok, l') \<Longrightarrow> tracks t l0 N (insert i F) l'"
  using tracks_update [of t l0 N F l i "\<lambda>r. set_outputs (ro_stdout out) (ro_stderr out) (finish_row now out r)" "insert i F"]
  by (auto simp: jl_finish_def)

lemma tracks_error: "tracks t l0 N F l \<Longrightarrow> i \<in> N \<Longrightarrow> tracks t l0 N (insert i F) (jl_error now i msg l)"
  unfolding jl_error_def by (rule tracks_update) (auto simp: is_final_def)

text \<open>A handler that has finalised what it started.\<close>

definition settled :: "string \<Rightarrow> ledger \<Rightarrow> ledger \<Rightarrow> bool" where
  "settled t l0 l =
     (ledger_ids l \<and>
      (\<forall>r \<in> set (ld_rows l). r \<in> set (ld_rows l0) \<or> (ld_next l0 \<le> jr_id r \<and> jr_tenant r = t \<and> is_final r)))"

lemma tracks_settled: "tracks t l0 N F l \<Longrightarrow> N \<subseteq> F \<Longrightarrow> settled t l0 l"
  unfolding tracks_def settled_def by blast

lemma settled_refl: "ledger_ids l \<Longrightarrow> settled t l l"
  by (simp add: settled_def)

lemma run_and_record_settles:
  assumes "ledger_ids l" "ld_next l < 2 ^ 63 - 1"
    "run_and_record show_err now t kind label session config outcome l = (Some res, l')"
  shows "settled t l l'"
proof -
  obtain i l1 where start: "jl_start now t kind label session None l = (i, l1)"
    by fastforce
  have "tracks t l {i} {} (jl_attach_config i config l1)" (is "tracks _ _ _ _ ?l2")
    using tracks_attach [OF tracks_start(3) [OF tracks_init [OF assms(1)] assms(2) start]] by simp
  note l2 = this
  show ?thesis
  proof (cases outcome)
    case (SpawnFailed e)
    then have "l' = jl_error now i (show_err e) ?l2"
      using assms(3) start by (simp add: run_and_record_def settle_row_def)
    then show ?thesis
      using tracks_settled [OF tracks_error [OF l2]] by simp
  next
    case (Returned so se r)
    obtain ok l3 where tail: "jl_tail i so se ?l2 = (ok, l3)"
      by fastforce
    have l3: "tracks t l {i} {} l3"
      using tracks_tail [OF l2 _ tail] by simp
    have ok: "ok"
      using assms(3) start tail Returned by (auto simp: run_and_record_def settle_row_def split: bool.splits)
    show ?thesis
    proof (cases r)
      case (Inl e)
      then have "l' = jl_error now i (show_err e) l3"
        using assms(3) start tail ok Returned by (simp add: run_and_record_def settle_row_def)
      then show ?thesis
        using tracks_settled [OF tracks_error [OF l3]] by simp
    next
      case (Inr out)
      obtain ok' l4 where fin: "jl_finish now i (merge_output so se out) l3 = (ok', l4)"
        by fastforce
      then have "l' = l4"
        using assms(3) start tail ok Returned Inr by (auto simp: run_and_record_def settle_row_def split: bool.splits)
      then show ?thesis
        using tracks_settled [OF tracks_finish [OF l3 _ fin]] by simp
    qed
  qed (use assms(3) start in \<open>simp add: run_and_record_def settle_row_def\<close>)
qed

text \<open>The orchestrator of a fork.\<close>

definition orch_tracks :: "string \<Rightarrow> ledger \<Rightarrow> fork_orch \<Rightarrow> bool" where
  "orch_tracks t l0 o' = tracks t l0 (set (fo_rows o')) (set (fo_finalized o')) (fo_ledger o')"

lemma fo_error_tracks:
  assumes "orch_tracks t l0 o'" "i \<in> set (fo_rows o')"
  shows "orch_tracks t l0 (fo_error now i msg o')" "fo_rows (fo_error now i msg o') = fo_rows o'"
    "set (fo_finalized (fo_error now i msg o')) = insert i (set (fo_finalized o'))"
  using assms tracks_error [of t l0 "set (fo_rows o')" "set (fo_finalized o')" "fo_ledger o'" i now msg]
  by (auto simp: orch_tracks_def fo_error_def fo_rows_def)

lemma fo_finish_tracks:
  assumes "orch_tracks t l0 o'" "i \<in> set (fo_rows o')" "fo_finish now i out o' = (True, o2)"
  shows "orch_tracks t l0 o2" "fo_rows o2 = fo_rows o'" "set (fo_finalized o2) = insert i (set (fo_finalized o'))"
  using assms tracks_finish [of t l0 "set (fo_rows o')" "set (fo_finalized o')" "fo_ledger o'" i now out]
  by (auto simp: orch_tracks_def fo_finish_def fo_rows_def split: prod.splits bool.splits)

lemma fold_errors_tracks:
  "orch_tracks t l0 o' \<Longrightarrow> set is \<subseteq> set (fo_rows o') \<Longrightarrow>
     orch_tracks t l0 (fold (\<lambda>i. fo_error now i msg) is o') \<and>
     fo_rows (fold (\<lambda>i. fo_error now i msg) is o') = fo_rows o' \<and>
     set (fo_finalized (fold (\<lambda>i. fo_error now i msg) is o')) = set is \<union> set (fo_finalized o')"
proof (induction "is" arbitrary: o')
  case (Cons i "is")
  note e = fo_error_tracks [OF Cons.prems(1), of i now msg]
  show ?case
    using Cons.IH [of "fo_error now i msg o'"] Cons.prems e by auto
qed simp

lemma fail_stragglers_settles:
  assumes "orch_tracks t l0 o'"
  shows "settled t l0 (fo_ledger (fail_stragglers now msg o'))"
proof -
  let ?is = "filter (\<lambda>i. i \<notin> set (fo_finalized o')) (fo_rows o')"
  have "orch_tracks t l0 (fail_stragglers now msg o')"
    "set (fo_rows (fail_stragglers now msg o')) \<subseteq> set (fo_finalized (fail_stragglers now msg o'))"
    using fold_errors_tracks [OF assms, of ?is now msg] unfolding fail_stragglers_def by auto
  then show ?thesis
    unfolding orch_tracks_def by (rule tracks_settled)
qed

lemma start_children_tracks:
  "orch_tracks t l0 o' \<Longrightarrow> fo_finalized o' = [] \<Longrightarrow> ld_next (fo_ledger o') + int n < 2 ^ 63 - 1 \<Longrightarrow>
   o2 = start_children now t label p config k n o' \<Longrightarrow>
     orch_tracks t l0 o2 \<and> fo_parent o2 = fo_parent o' \<and> fo_finalized o2 = [] \<and>
     length (fo_children o2) = length (fo_children o') + n"
proof (induction n arbitrary: k o')
  case (Suc n)
  obtain i l where start: "jl_start now t KindFork (label k) None (Some p) (fo_ledger o') = (i, l)"
    by fastforce
  let ?o = "o'\<lparr>fo_ledger := jl_attach_config i config l, fo_children := fo_children o' @ [i]\<rparr>"
  have bound: "ld_next (fo_ledger o') < 2 ^ 63 - 1"
    using Suc.prems(3) by simp
  have tr: "tracks t l0 (set (fo_rows o')) {} (fo_ledger o')"
    using Suc.prems(1,2) by (simp add: orch_tracks_def)
  note s = tracks_start [OF tr bound start]
  have "set (fo_rows ?o) = insert i (set (fo_rows o'))"
    by (auto simp: fo_rows_def)
  moreover have "tracks t l0 (insert i (set (fo_rows o'))) {} (jl_attach_config i config l)"
    using tracks_attach [OF s(3)] by simp
  ultimately have "orch_tracks t l0 ?o"
    using Suc.prems(2) by (simp add: orch_tracks_def)
  moreover have "ld_next (jl_attach_config i config l) = ld_next (fo_ledger o') + 1"
    using s(2) by (simp add: jl_attach_config_def jl_update_def)
  ultimately show ?case
    using Suc.IH [of ?o "Suc k"] Suc.prems start by simp
qed simp

lemma settle_children_tracks:
  "tracks t l0 N F l \<Longrightarrow> fst ` set cs \<subseteq> N \<Longrightarrow> settle_children cs l = (rs, l') \<Longrightarrow>
     tracks t l0 N F l' \<and> (\<forall>xs. rs = Some xs \<longrightarrow> map fst xs = map fst cs)"
proof (induction cs l arbitrary: rs l' rule: settle_children.induct)
  case (2 i oc cs l)
  show ?case
  proof (cases oc)
    case (SpawnFailed e)
    then show ?thesis
      using 2 by (fastforce split: prod.splits)
  next
    case (Returned so se r)
    obtain ok l2 where tail: "jl_tail i so se l = (ok, l2)"
      by fastforce
    have l2: "tracks t l0 N F l2"
      using tracks_tail [OF 2(3) _ tail] 2(4) by simp
    show ?thesis
    proof (cases ok)
      case True
      then show ?thesis
        using 2(2) [OF Returned tail [symmetric]] 2(4,5) l2 tail Returned by (fastforce split: prod.splits)
    next
      case False
      then show ?thesis
        using 2(5) tail l2 Returned by simp
    qed
  qed (use 2 in simp)
qed auto

lemma collect_children_tracks:
  "orch_tracks t l0 o' \<Longrightarrow> fst ` set rs \<subseteq> set (fo_rows o') \<Longrightarrow> collect_children show_err now rs o' = (Some res, o2) \<Longrightarrow>
     orch_tracks t l0 o2 \<and> fo_rows o2 = fo_rows o' \<and> set (fo_finalized o') \<subseteq> set (fo_finalized o2) \<and>
     (\<forall>outs. res = Ok outs \<longrightarrow> fst ` set rs \<subseteq> set (fo_finalized o2))"
proof (induction rs arbitrary: o' res)
  case (Cons ir rs)
  obtain i r where ir: "ir = (i, r)"
    by fastforce
  show ?case
  proof (cases r)
    case (Inl e)
    then show ?thesis
      using Cons.prems fo_error_tracks [OF Cons.prems(1), of i] by (auto simp: ir)
  next
    case (Inr out)
    obtain ok o1 where fin: "fo_finish now i out o' = (ok, o1)"
      by fastforce
    then have ok: ok
      using Cons.prems(3) Inr by (auto simp: ir split: bool.splits)
    have i: "i \<in> set (fo_rows o')" "fst ` set rs \<subseteq> set (fo_rows o')"
      using Cons.prems(2) by (auto simp: ir)
    note f = fo_finish_tracks [OF Cons.prems(1) i(1) fin [unfolded ok [THEN eqTrueI]]]
    obtain res' where rest: "collect_children show_err now rs o1 = (Some res', o2)"
      and res: "\<And>outs. res = Ok outs \<Longrightarrow> \<exists>outs'. res' = Ok outs'"
      using Cons.prems(3) fin ok Inr by (auto simp: ir split: prod.splits option.splits sum.splits)
    have "fst ` set rs \<subseteq> set (fo_rows o1)"
      using i(2) f(2) by simp
    note IH = Cons.IH [OF f(1) this rest]
    have "i \<in> set (fo_finalized o2)"
      using IH f(3) by blast
    then show ?thesis
      using IH f res unfolding ir by auto
  qed
qed simp

lemma fork_collect_tracks:
  assumes "orch_tracks t l0 o'" "p \<in> set (fo_rows o')" "fst ` set rs \<subseteq> set (fo_rows o')"
    "fork_collect fw now p rs o' = (Some res, o2)"
  shows "orch_tracks t l0 o2 \<and> (\<forall>r. res = Ok r \<longrightarrow> fo_rows o2 = fo_rows o' \<and> insert p (fst ` set rs) \<subseteq> set (fo_finalized o2))"
proof (cases "fw_parent fw")
  case (Inl e)
  then show ?thesis
    using assms(4) fo_error_tracks [OF assms(1,2)] by (auto simp: fork_collect_def)
next
  case (Inr out)
  obtain ok o1 where fin: "fo_finish now p out o' = (ok, o1)"
    by fastforce
  then have ok: ok
    using assms(4) Inr by (auto simp: fork_collect_def split: bool.splits)
  note f = fo_finish_tracks [OF assms(1,2) fin [unfolded ok [THEN eqTrueI]]]
  obtain res' where coll: "collect_children (xw_show_err (fw_exec fw)) now rs o1 = (Some res', o2)"
    and res: "res = and_then res' (\<lambda>outs. Ok (out, outs))"
    using assms(4) fin ok Inr by (auto simp: fork_collect_def split: prod.splits)
  have "fst ` set rs \<subseteq> set (fo_rows o1)"
    using assms(3) f(2) by simp
  from collect_children_tracks [OF f(1) this coll] show ?thesis
    using f(2,3) by (auto simp: res and_then_Ok_iff)
qed

lemma fork_join_tracks:
  assumes "orch_tracks t l0 o'" "fo_rows o' = p # fo_children o'" "length (fo_children o') = n"
    "fork_join fw now p n o' = (Some res, o2)"
  shows "orch_tracks t l0 o2 \<and> (\<forall>r. res = Ok r \<longrightarrow> set (fo_rows o2) \<subseteq> set (fo_finalized o2))"
proof -
  let ?cs = "zip (fo_children o') (map (fw_child fw) [0..<n])"
  have kids: "map fst ?cs = fo_children o'"
    using assms(3) by simp
  then have kset: "fst ` set ?cs = set (fo_children o')"
    by (metis list.set_map)
  obtain rs l where settle: "settle_children ?cs (fo_ledger o') = (Some rs, l)"
    and coll: "fork_collect fw now p rs (o'\<lparr>fo_ledger := l\<rparr>) = (Some res, o2)"
    using assms(4) by (auto simp: fork_join_def split: prod.splits option.splits)
  have "fst ` set ?cs \<subseteq> set (fo_rows o')"
    using kset assms(2) by auto
  note s = settle_children_tracks [OF assms(1) [unfolded orch_tracks_def] this settle]
  have "map fst rs = fo_children o'"
    using s kids by simp
  then have rs: "fst ` set rs = set (fo_children o')"
    by (metis list.set_map)
  have rows: "fo_rows (o'\<lparr>fo_ledger := l\<rparr>) = fo_rows o'"
    by (simp add: fo_rows_def)
  have o3: "orch_tracks t l0 (o'\<lparr>fo_ledger := l\<rparr>)" "fo_rows (o'\<lparr>fo_ledger := l\<rparr>) = p # fo_children o'"
    using s assms(2) unfolding orch_tracks_def rows by simp_all
  have "p \<in> set (fo_rows (o'\<lparr>fo_ledger := l\<rparr>))" "fst ` set rs \<subseteq> set (fo_rows (o'\<lparr>fo_ledger := l\<rparr>))"
    unfolding o3(2) rs by auto
  from fork_collect_tracks [OF o3(1) this coll] show ?thesis
    unfolding o3(2) rs by auto
qed

lemma fork_run_tracks:
  assumes "ledger_ids l" "ld_next l + 17 < 2 ^ 63 - 1" "fork_run fw exec_cfg t now req l = (Some res, o')"
  shows "orch_tracks t l o' \<and> (\<forall>r. res = Ok r \<longrightarrow> set (fo_rows o') \<subseteq> set (fo_finalized o'))"
proof (cases "fork_prepare fw exec_cfg req")
  case (Inl e)
  then show ?thesis
    using assms(3) tracks_init [OF assms(1), of t] by (auto simp: fork_run_def orch_tracks_def fo_rows_def)
next
  case (Inr pc)
  then obtain plan config where plan: "fork_prepare fw exec_cfg req = Ok (plan, config)"
    by (cases pc) auto
  define n where "n = length (fp_children plan)"
  have n: "n \<le> 16"
    using plan unfolding fork_prepare_def Let_def and_then_Ok_iff n_def
    by (auto simp: fork_validate_def and_then_Ok_iff split: if_splits)
  define snap where "snap = config_snapshot (fq_options req) (fp_memory plan) (fp_timeout plan) (fq_git req)"
  obtain p l1 where start: "jl_start now t KindFork (parent_label (fq_language req)) None None l = (p, l1)"
    by fastforce
  define o1 where "o1 = \<lparr>fo_parent = Some p, fo_children = [], fo_finalized = [], fo_ledger = jl_attach_config p snap l1\<rparr>"
  have bound: "ld_next l < 2 ^ 63 - 1"
    using assms(2) by simp
  note s = tracks_start [OF tracks_init [OF assms(1)] bound start]
  have o1: "orch_tracks t l o1" "fo_finalized o1 = []"
    using tracks_attach [OF s(3)] by (simp_all add: o1_def orch_tracks_def fo_rows_def)
  have next1: "ld_next (fo_ledger o1) + int n < 2 ^ 63 - 1"
    using s(2) assms(2) n by (simp add: o1_def jl_attach_config_def jl_update_def)
  define o2 where "o2 = start_children now t (child_label (fq_language req) n) p snap 0 n o1"
  note o2 = start_children_tracks [OF o1 next1 o2_def]
  have "(res, o') = (Err e, o1)" if "and_then (case fw_spawn fw of Some e \<Rightarrow> Err (CtlJail e) | None \<Rightarrow> Ok ())
      (\<lambda>_. fork_all (fw_fork fw) 0 n) = Err e" for e
    using assms(3) that by (simp add: fork_run_def Let_def plan start n_def [symmetric] snap_def [symmetric] o1_def [symmetric])
  moreover have "fork_join fw now p n o2 = (Some res, o')" if "and_then (case fw_spawn fw of Some e \<Rightarrow> Err (CtlJail e) | None \<Rightarrow> Ok ())
      (\<lambda>_. fork_all (fw_fork fw) 0 n) = Ok u" for u
    using assms(3) that
    by (simp add: fork_run_def Let_def plan start n_def [symmetric] snap_def [symmetric] o1_def [symmetric] o2_def [symmetric])
  moreover have "fo_rows o2 = p # fo_children o2" "length (fo_children o2) = n"
    using o2 by (simp_all add: fo_rows_def o1_def)
  ultimately show ?thesis
    using o1(1) fork_join_tracks [of t l o2 p n fw now res o'] o2
    by (cases "and_then (case fw_spawn fw of Some e \<Rightarrow> Err (CtlJail e) | None \<Rightarrow> Ok ()) (\<lambda>_. fork_all (fw_fork fw) 0 n)") auto
qed

lemma create_fork_run_settles:
  assumes "ledger_ids l" "ld_next l + 17 < 2 ^ 63 - 1" "create_fork_run show_ctl fw exec_cfg scope now req l = (Some res, o')"
  shows "settled (sc_tenant scope) l (fo_ledger o')"
proof -
  obtain r o1 where run: "fork_run fw exec_cfg (sc_tenant scope) now req l = (Some r, o1)"
    using assms(3) by (auto simp: create_fork_run_def split: prod.splits option.splits sum.splits)
  note tr = fork_run_tracks [OF assms(1,2) run]
  show ?thesis
  proof (cases r)
    case (Inl e)
    then have "o' = fail_stragglers now (show_ctl e) o1"
      using assms(3) run by (simp add: create_fork_run_def)
    then show ?thesis
      using fail_stragglers_settles tr by simp
  next
    case (Inr out)
    then have "o' = o1"
      using assms(3) run by (simp add: create_fork_run_def)
    then show ?thesis
      using tr Inr tracks_settled unfolding orch_tracks_def by blast
  qed
qed

section \<open>Properties\<close>

text \<open>C18. No run is left behind in the ledger.  Whenever one of the handlers that run jails (a
  command in a session, a program, a live fork with up to sixteen children) answers, with success
  or with an error at any point of the way, every row of the ledger is an old row, unchanged, or a
  new row of the caller's tenant that has ended; ids stay distinct.  A run that does not return
  gives no answer, and its row stays \<open>running\<close>.\<close>
theorem runs_settle:
  assumes "ledger_ids l" "ld_next l + 17 < 2 ^ 63 - 1"
  shows "(exec_in_session w exec_cfg scope now i req sessions l = (Some res, l') \<longrightarrow> settled (sc_tenant scope) l l') \<and>
    (create_run w exec_cfg scope now rreq l = (Some res, l') \<longrightarrow> settled (sc_tenant scope) l l') \<and>
    (create_fork_run show_ctl fw exec_cfg scope now freq l = (Some fres, o') \<longrightarrow> settled (sc_tenant scope) l (fo_ledger o')) \<and>
    (run_plan w exec_cfg rreq = Ok (config, filename, cmd) \<and> xw_run w config cmd [''/workspace/'' @ filename] = NeverReturns \<longrightarrow>
       (\<exists>l'. create_run w exec_cfg scope now rreq l = (None, l') \<and>
          (\<exists>r \<in> set (ld_rows l'). jr_id r = ld_next l \<and> jr_status r = Running)))"
proof (intro conjI impI)
  have bound: "ld_next l < 2 ^ 63 - 1"
    using assms(2) by simp
  note run = run_and_record_settles [OF assms(1) bound]
  show "settled (sc_tenant scope) l l'" if "exec_in_session w exec_cfg scope now i req sessions l = (Some res, l')"
    using that run settled_refl [OF assms(1)] by (auto simp: exec_in_session_def split: sum.splits)
  show "settled (sc_tenant scope) l l'" if "create_run w exec_cfg scope now rreq l = (Some res, l')"
    using that run settled_refl [OF assms(1)] by (auto simp: create_run_def split: sum.splits)
  show "settled (sc_tenant scope) l (fo_ledger o')"
    if "create_fork_run show_ctl fw exec_cfg scope now freq l = (Some fres, o')"
    using create_fork_run_settles [OF assms that] .
  assume never: "run_plan w exec_cfg rreq = Ok (config, filename, cmd) \<and> xw_run w config cmd [''/workspace/'' @ filename] = NeverReturns"
  have upd: "\<exists>r \<in> set (update_first (\<lambda>r. jr_id r = n) (\<lambda>r. r\<lparr>jr_config := Some c\<rparr>) (rows @ [x])).
      jr_id r = n \<and> jr_status r = Running" if "jr_id x = n" "jr_status x = Running" "\<forall>r \<in> set rows. jr_id r \<noteq> n" for rows x n c
    using that by (induction rows) auto
  have ids: "jr_id r \<noteq> ld_next l" if "r \<in> set (ld_rows l) \<or> r \<in> set (drop (Suc 0) (ld_rows l))" for r
    using assms(1) that set_drop_subset [of "Suc 0" "ld_rows l"] by (force simp: ledger_ids_def)
  show "\<exists>l'. create_run w exec_cfg scope now rreq l = (None, l') \<and>
          (\<exists>r \<in> set (ld_rows l'). jr_id r = ld_next l \<and> jr_status r = Running)"
    using never ids
    by (auto simp: create_run_def run_and_record_def settle_row_def jl_start_def jl_attach_config_def jl_update_def push_ring_def
        new_running_def intro!: upd)
qed

definition demo_world :: "run_outcome \<Rightarrow> exec_world" where
  "demo_world oc = \<lparr>xw_is_root = True, xw_permits = 1, xw_dirs = Ok (''/s'', ''/o''), xw_host = demo_clone_host,
     xw_write = (\<lambda>_ _. Ok ()),
     xw_new = (\<lambda>_. Ok ()), xw_run = (\<lambda>_ _ _. oc), xw_show_err = (\<lambda>_. ''failed'')\<rparr>"

definition demo_output :: run_output where
  "demo_output = \<lparr>out_exit_code = 0, out_timed_out = False, ro_stdout = [], ro_stderr = [], ro_duration_ms = 3,
     ro_oom_killed = False, ro_stats = None\<rparr>"

definition demo_run_request :: run_request where
  "demo_run_request = \<lparr>rr_code = ''1'', rr_language = ''js'', rr_timeout_secs = None, rr_memory_mb = None, rr_git = None,
     rr_options = \<lparr>eo_network = None, eo_seccomp = None, eo_cpu_percent = None, eo_max_pids = None\<rparr>\<rparr>"

theorem runs_settle_witness:
  "\<exists>res l'. create_run (demo_world (Returned ''hi'' [] (Ok demo_output))) (Some exec_config_default)
       \<lparr>sc_tenant = ''acme'', sc_role = Operator\<rparr> 7 demo_run_request ledger_new = (Some res, l') \<and>
     map jr_status (ld_rows l') = [Completed] \<and> settled ''acme'' ledger_new l'"
proof -
  let ?r = "create_run (demo_world (Returned ''hi'' [] (Ok demo_output))) (Some exec_config_default)
       \<lparr>sc_tenant = ''acme'', sc_role = Operator\<rparr> 7 demo_run_request ledger_new"
  have ids: "ledger_ids ledger_new" "ld_next ledger_new + 17 < 2 ^ 63 - 1"
    by (simp_all add: ledger_ids_def ledger_new_def)
  have "fst ?r \<noteq> None" "map jr_status (ld_rows (snd ?r)) = [Completed]"
    by (simp_all add: create_run_def run_plan_def demo_world_def demo_run_request_def exec_config_default_def
        take_permit_def language_runtime_def clone_git_def write_file_def exec_jail_config_def network_of_spec_def jail_err_def run_and_record_def settle_row_def
        jl_start_def ledger_new_def push_ring_def DEFAULT_CAPACITY_def jl_attach_config_def jl_update_def
        new_running_def jl_tail_def jl_get_def outputs_fit_def truncate_str_def OUTPUT_CAP_def set_outputs_def
        jl_finish_def finish_row_def merge_output_def demo_output_def)
  then obtain res l' where "?r = (Some res, l')" "map jr_status (ld_rows l') = [Completed]"
    by (cases ?r) auto
  then show ?thesis
    using runs_settle [OF ids] by fastforce
qed

end
