(* ===== verification/Workspace_Disk.thy ===== *)
theory Workspace_Disk
  imports Git_Clone Snapshot_Pool
begin

text \<open>
  The directories the control plane keeps on disk, and the snapshots it takes of them
  (\<open>capture_snapshot\<close> and \<open>restore_snapshot\<close> of \<open>agentjail-ctl/src/routes/snapshots.rs\<close>, \<open>pause_one\<close>
  and \<open>wipe_dir_contents\<close> of \<open>workspaces/idle.rs\<close>), over the snapshot operations of the engine.  A
  snapshot directory holds a copy of the tree or, with a pool, a manifest.  What a failed capture
  leaves behind in its new directory is not kept.
\<close>

section \<open>Directories\<close>

record disk =
  dk_dirs :: "(string \<times> dir) list"
  dk_manifests :: "(string \<times> manifest) list"
  dk_ps :: pool_state

definition dir_at :: "string \<Rightarrow> disk \<Rightarrow> dir option" where
  "dir_at p dk = map_of (dk_dirs dk) p"

definition manifest_at :: "string \<Rightarrow> disk \<Rightarrow> manifest option" where
  "manifest_at p dk = map_of (dk_manifests dk) p"

definition put_dir :: "string \<Rightarrow> dir \<Rightarrow> disk \<Rightarrow> disk" where
  "put_dir p d dk = dk\<lparr>dk_dirs := AList.update p d (dk_dirs dk)\<rparr>"

text \<open>\<open>create_dir_all\<close> leaves an existing directory alone; \<open>remove_dir_all\<close> takes everything below.\<close>

definition create_dir_all :: "string \<Rightarrow> disk \<Rightarrow> disk" where
  "create_dir_all p dk = (if dir_at p dk = None then put_dir p [] dk else dk)"

definition below :: "string \<Rightarrow> string \<Rightarrow> bool" where
  "below root p = (p = root \<or> starts_with p (root @ ''/''))"

definition remove_dir_all :: "string \<Rightarrow> disk \<Rightarrow> disk" where
  "remove_dir_all root dk =
     dk\<lparr>dk_dirs := filter (\<lambda>(p, _). \<not> below root p) (dk_dirs dk),
        dk_manifests := filter (\<lambda>(p, _). \<not> below root p) (dk_manifests dk)\<rparr>"

definition path_exists :: "string \<Rightarrow> disk \<Rightarrow> bool" where
  "path_exists p dk = (list_ex (below p) (map fst (dk_dirs dk)) \<or> list_ex (below p) (map fst (dk_manifests dk)))"

text \<open>\<open>wipe_dir_contents\<close> removes every entry of a directory, links without following them.\<close>

definition wipe_dir_contents :: "string \<Rightarrow> disk \<Rightarrow> disk" where
  "wipe_dir_contents p dk = (case dir_at p dk of Some d \<Rightarrow> put_dir p (clear_dir d) dk | None \<Rightarrow> dk)"

section \<open>Snapshots\<close>

text \<open>A tree from the paths of its files.\<close>

fun insert_path :: "string list \<Rightarrow> nat \<Rightarrow> dir \<Rightarrow> dir" where
  "insert_path [] i d = d"
| "insert_path [n] i d = AList.update n (FsFile i) d"
| "insert_path (n # m # ns) i d =
     AList.update n (FsDir (insert_path (m # ns) i (case map_of d n of Some (FsDir sub) \<Rightarrow> sub | _ \<Rightarrow> []))) d"

definition dir_of_tree :: "tree \<Rightarrow> dir" where
  "dir_of_tree t = fold (\<lambda>(p, i). insert_path p i) t []"

record snap_config =
  sf_pool :: "pool_env option"
  sf_parse :: "string \<Rightarrow> manifest option"

text \<open>Freezing the group of a running jail around the copy changes neither the copy nor the result
  (\<open>Cgroup\<close>); \<open>now\<close> is the time of the copies.\<close>

definition capture_snapshot ::
  "snap_config \<Rightarrow> nat \<Rightarrow> string \<Rightarrow> string \<Rightarrow> disk \<Rightarrow> (jail_error, nat \<times> disk) result" where
  "capture_snapshot sf now src snap_dir dk =
     (case sf_pool sf of
        Some env \<Rightarrow>
          and_then (create_incremental env now src (dir_at src dk) (dk_ps dk)) (\<lambda>(m, ps).
            Ok (manifest_size_bytes m, dk\<lparr>dk_ps := ps, dk_manifests := AList.update snap_dir m (dk_manifests dk)\<rparr>))
      | None \<Rightarrow>
          and_then (snapshot_create now src (dir_at src dk) (ps_store (dk_ps dk))) (\<lambda>(d, st).
            Ok (dir_size st d, put_dir snap_dir d (dk\<lparr>dk_ps := (dk_ps dk)\<lparr>ps_store := st\<rparr>\<rparr>))))"

text \<open>What is found at \<open>manifest.json\<close> of a snapshot directory: nothing, or a manifest, readable or
  not.  A copied tree may have a file of that name.\<close>

definition manifest_file :: "snap_config \<Rightarrow> string \<Rightarrow> disk \<Rightarrow> manifest option option" where
  "manifest_file sf snap_dir dk =
     (case manifest_at snap_dir dk of
        Some m \<Rightarrow> Some (Some m)
      | None \<Rightarrow>
          (case dir_at snap_dir dk of
             None \<Rightarrow> None
           | Some d \<Rightarrow>
               (case map_of d ''manifest.json'' of
                  Some (FsFile i) \<Rightarrow>
                    Some (case is_data (ps_store (dk_ps dk)) i of Some f \<Rightarrow> sf_parse sf (fd_content f) | None \<Rightarrow> None)
                | Some (FsDir _) \<Rightarrow> Some None
                | _ \<Rightarrow> None)))"

text \<open>An incremental restore that fails has cleared the target and restored the entries before the
  one that failed.\<close>

fun restored_before ::
  "pool_env \<Rightarrow> nat \<Rightarrow> pool \<Rightarrow> manifest_entry list \<Rightarrow> tree \<times> inode_store \<Rightarrow> tree \<times> inode_store" where
  "restored_before env now pool [] ts = ts"
| "restored_before env now pool (e # es) ts =
     (case restore_entry env now pool e ts of Inl _ \<Rightarrow> ts | Inr ts' \<Rightarrow> restored_before env now pool es ts')"

definition put_tree :: "string \<Rightarrow> tree \<times> inode_store \<Rightarrow> disk \<Rightarrow> disk" where
  "put_tree p ts dk = put_dir p (dir_of_tree (fst ts)) (dk\<lparr>dk_ps := (dk_ps dk)\<lparr>ps_store := snd ts\<rparr>\<rparr>)"

definition restore_snapshot ::
  "snap_config \<Rightarrow> nat \<Rightarrow> string \<Rightarrow> string \<Rightarrow> disk \<Rightarrow> (ctl_error, unit) result \<times> disk" where
  "restore_snapshot sf now snap_dir target dk =
     (case manifest_file sf snap_dir dk of
        Some m \<Rightarrow>
          (case sf_pool sf of
             None \<Rightarrow>
               (Err (BadRequest ''snapshot is content-addressed but AGENTJAIL_SNAPSHOT_POOL_DIR is not set''), dk)
           | Some env \<Rightarrow>
               (case restore_incremental env now m (dk_ps dk) of
                  Inl e \<Rightarrow>
                    (Err (CtlJail e),
                     case m of
                       None \<Rightarrow> dk
                     | Some mf \<Rightarrow>
                         put_tree target
                           (restored_before env now (ps_pool (dk_ps dk)) (mf_entries mf) ([], ps_store (dk_ps dk))) dk)
                | Inr (t, ps) \<Rightarrow> (Ok (), put_tree target (t, ps_store ps) dk)))
      | None \<Rightarrow>
          (case restore_to now snap_dir (dir_at snap_dir dk) (dir_at target dk) (ps_store (dk_ps dk)) of
             Inl e \<Rightarrow>
               (Err (CtlJail e),
                case dir_at snap_dir dk of
                  None \<Rightarrow> dk
                | Some d \<Rightarrow>
                    (case copied_before now d (ps_store (dk_ps dk)) of
                       (_, d', st) \<Rightarrow> put_dir target d' (dk\<lparr>dk_ps := (dk_ps dk)\<lparr>ps_store := st\<rparr>\<rparr>)))
           | Inr (d, st) \<Rightarrow> (Ok (), put_dir target d (dk\<lparr>dk_ps := (dk_ps dk)\<lparr>ps_store := st\<rparr>\<rparr>))))"

section \<open>Lemmas\<close>

lemma dir_at_put [simp]: "dir_at q (put_dir p d dk) = (if q = p then Some d else dir_at q dk)"
  by (simp add: dir_at_def put_dir_def update_conv')

lemma put_dir_simps [simp]:
  "manifest_at q (put_dir p d dk) = manifest_at q dk" "dk_ps (put_dir p d dk) = dk_ps dk"
  "dk_manifests (put_dir p d dk) = dk_manifests dk"
  by (simp_all add: manifest_at_def put_dir_def)

lemma dir_at_ps [simp]: "dir_at q (dk\<lparr>dk_ps := ps\<rparr>) = dir_at q dk" "manifest_at q (dk\<lparr>dk_ps := ps\<rparr>) = manifest_at q dk"
  by (simp_all add: dir_at_def manifest_at_def)

lemma create_dir_all_at: "dir_at q (create_dir_all p dk) = (if q = p \<and> dir_at p dk = None then Some [] else dir_at q dk)"
  by (simp add: create_dir_all_def)

lemma create_dir_all_simps [simp]:
  "manifest_at q (create_dir_all p dk) = manifest_at q dk" "dk_ps (create_dir_all p dk) = dk_ps dk"
  by (simp_all add: create_dir_all_def)

lemma map_of_filter_key: "map_of (filter (\<lambda>(p, _). P p) xs) q = (if P q then map_of xs q else None)"
  by (induction xs) auto

lemma remove_dir_all_at [simp]:
  "dir_at q (remove_dir_all root dk) = (if below root q then None else dir_at q dk)"
  "manifest_at q (remove_dir_all root dk) = (if below root q then None else manifest_at q dk)"
  "dk_ps (remove_dir_all root dk) = dk_ps dk"
  by (simp_all add: dir_at_def manifest_at_def remove_dir_all_def map_of_filter_key)

lemma wipe_at [simp]:
  "dir_at q (wipe_dir_contents p dk) = (if q = p \<and> dir_at p dk \<noteq> None then Some [] else dir_at q dk)"
  "manifest_at q (wipe_dir_contents p dk) = manifest_at q dk" "dk_ps (wipe_dir_contents p dk) = dk_ps dk"
  by (auto simp: wipe_dir_contents_def clear_dir_empty split: option.split)

text \<open>A full snapshot and its restoration.\<close>

lemma capture_full:
  assumes "sf_pool sf = None" "dir_at src dk = Some d" "store_ok (ps_store (dk_ps dk))" "dir_ok (ps_store (dk_ps dk)) d"
  obtains snap st n where
    "capture_snapshot sf now src snap_dir dk = Ok (n, put_dir snap_dir snap (dk\<lparr>dk_ps := (dk_ps dk)\<lparr>ps_store := st\<rparr>\<rparr>))"
    "extends (ps_store (dk_ps dk)) st" "shape st snap = shape (ps_store (dk_ps dk)) d" "dir_ok st snap" "no_symlinks snap"
    "n = dir_size st snap"
proof -
  obtain snap st where "copy_dir_recursive now d (ps_store (dk_ps dk)) = Ok (snap, st)"
    "extends (ps_store (dk_ps dk)) st" "shape st snap = shape (ps_store (dk_ps dk)) d" "dir_ok st snap" "no_symlinks snap"
    using copy_dir_recursive_ok [OF assms(3,4)] by metis
  then show ?thesis
    using that assms(1,2) by (simp add: capture_snapshot_def snapshot_create_def)
qed

end
