(* ===== verification/Workspace_Routes.thy ===== *)
theory Workspace_Routes
  imports Jail_Ledger Workspace_Disk
begin

text \<open>
  Persistent workspaces and their snapshots: the flavors (\<open>agentjail-ctl/src/flavors.rs\<close>), the locks
  (\<open>workspaces.rs\<close>) and the handlers of \<open>routes/workspaces.rs\<close>, \<open>routes/workspaces_exec.rs\<close> and
  \<open>routes/snapshots.rs\<close>.  A handler returns its answer and the state after it; the time, new ids and
  labels, the outcome of creating directories, the tree a clone leaves and the new jail are arguments.
\<close>

section \<open>Flavors\<close>

record flavor =
  fl_name :: string
  fl_path :: string

definition is_lower_or_digit :: "char \<Rightarrow> bool" where
  "is_lower_or_digit c = ((CHR ''a'' \<le> c \<and> c \<le> CHR ''z'') \<or> (CHR ''0'' \<le> c \<and> c \<le> CHR ''9''))"

definition is_safe_flavor_name :: "string \<Rightarrow> bool" where
  "is_safe_flavor_name n =
     (case n of
        [] \<Rightarrow> False
      | c # cs \<Rightarrow> length n \<le> 32 \<and> is_lower_or_digit c \<and>
                  list_all (\<lambda>c. is_lower_or_digit c \<or> c = CHR ''_'' \<or> c = CHR ''-'') cs)"

text \<open>The registry lists the directories and links below its root, by name; a name that is not UTF-8
  or not safe is skipped.\<close>

definition flavor_list :: "string \<Rightarrow> (string \<times> bool) list option \<Rightarrow> flavor list" where
  "flavor_list root entries =
     (case entries of
        None \<Rightarrow> []
      | Some es \<Rightarrow>
          foldr (insort_by (\<lambda>a b. str_le (fl_name a) (fl_name b)))
            (map (\<lambda>(n, _). \<lparr>fl_name = n, fl_path = path_join root n\<rparr>)
               (filter (\<lambda>(n, dir_or_link). dir_or_link \<and> utf8_valid n \<and> is_safe_flavor_name n) es)) [])"

fun flavor_resolve :: "flavor list \<Rightarrow> string list \<Rightarrow> (string, flavor list) result" where
  "flavor_resolve fls [] = Ok []"
| "flavor_resolve fls (n # ns) =
     (case find (\<lambda>f. fl_name f = n) fls of
        None \<Rightarrow> Err n
      | Some f \<Rightarrow> and_then (flavor_resolve fls ns) (\<lambda>fs. Ok (f # fs)))"

section \<open>State\<close>

record ctl_config =
  cc_state_dir :: string
  cc_exec :: "exec_config option"
  cc_snap :: snap_config
  cc_is_root :: bool
  cc_host_clone :: bool
  cc_lower :: "string \<Rightarrow> string"
  cc_debug :: "string \<Rightarrow> string"

text \<open>What a call finds around it.\<close>

record ctl_world =
  cw_now :: int
  cw_mtime :: nat
  cw_ids :: "nat \<Rightarrow> string"
  cw_snap_id :: string
  cw_slug :: string
  cw_mkdir :: "string \<Rightarrow> (string, unit) result"
  cw_host :: clone_host
  cw_scratch :: "(string, string) result"
  cw_git_run :: clone_run
  cw_checkout :: "inode_store \<Rightarrow> dir \<times> inode_store"
  cw_flavors :: "flavor list"
  cw_new :: "jail_config \<Rightarrow> (jail_error, unit) result"

text \<open>The locks: a slot per workspace, naming a mutex, and the mutexes that are held.\<close>

record ctl_state =
  ct_ws :: "workspace list"
  ct_snaps :: "snapshot_record list"
  ct_disk :: disk
  ct_slots :: "(string \<times> nat) list"
  ct_held :: "nat list"
  ct_next_lock :: nat
  ct_permits :: nat
  ct_cgroups :: "(string \<times> string) list"
  ct_ips :: "(string \<times> string) list"
  ct_ledger :: ledger

definition lock_for :: "string \<Rightarrow> ctl_state \<Rightarrow> nat \<times> ctl_state" where
  "lock_for i st =
     (case map_of (ct_slots st) i of
        Some n \<Rightarrow> (n, st)
      | None \<Rightarrow> (ct_next_lock st,
                 st\<lparr>ct_slots := (i, ct_next_lock st) # ct_slots st, ct_next_lock := ct_next_lock st + 1\<rparr>))"

definition forget_lock :: "string \<Rightarrow> ctl_state \<Rightarrow> ctl_state" where
  "forget_lock i st = st\<lparr>ct_slots := AList.delete i (ct_slots st)\<rparr>"

section \<open>Directories of a workspace and of a snapshot\<close>

definition ws_root :: "ctl_config \<Rightarrow> string \<Rightarrow> string" where
  "ws_root cfg i = path_join (path_join (cc_state_dir cfg) ''workspaces'') i"

definition ws_source :: "ctl_config \<Rightarrow> string \<Rightarrow> string" where
  "ws_source cfg i = path_join (ws_root cfg i) ''source''"

definition ws_output :: "ctl_config \<Rightarrow> string \<Rightarrow> string" where
  "ws_output cfg i = path_join (ws_root cfg i) ''output''"

definition snap_path :: "ctl_config \<Rightarrow> string \<Rightarrow> string" where
  "snap_path cfg i = path_join (path_join (cc_state_dir cfg) ''snapshots'') i"

definition make_dirs :: "ctl_world \<Rightarrow> ctl_config \<Rightarrow> string \<Rightarrow> disk \<Rightarrow> (ctl_error, unit) result \<times> disk" where
  "make_dirs w cfg i dk =
     (case cw_mkdir w (ws_source cfg i) of
        Inl e \<Rightarrow> (Err (CtlIo e), dk)
      | Inr _ \<Rightarrow>
          (let dk = create_dir_all (ws_source cfg i) dk
           in case cw_mkdir w (ws_output cfg i) of
                Inl e \<Rightarrow> (Err (CtlIo e), dk)
              | Inr _ \<Rightarrow> (Ok (), create_dir_all (ws_output cfg i) dk)))"

section \<open>Workspaces\<close>

definition redact_for :: "tenant_scope \<Rightarrow> workspace \<Rightarrow> workspace" where
  "redact_for scope ws =
     (if is_admin (sc_role scope) then ws else ws\<lparr>w_source_dir := [], w_output_dir := []\<rparr>)"

definition ws_visible :: "tenant_scope \<Rightarrow> string \<Rightarrow> workspace list \<Rightarrow> workspace option" where
  "ws_visible scope i rows =
     (case ws_get i rows of Some ws \<Rightarrow> if can_see scope (w_tenant ws) then Some ws else None | None \<Rightarrow> None)"

definition no_workspace :: "string \<Rightarrow> ctl_error" where
  "no_workspace i = NotFound (''workspace '' @ i)"

text \<open>A label that is blank is no label.\<close>

definition given_label :: "string option \<Rightarrow> string option" where
  "given_label label =
     (case label of None \<Rightarrow> None | Some s \<Rightarrow> if trim s = [] then None else Some (trim s))"

record create_request =
  cq_git :: "git_spec option"
  cq_label :: "string option"
  cq_memory_mb :: "nat option"
  cq_timeout_secs :: "nat option"
  cq_idle_timeout_secs :: "nat option"
  cq_domains :: "workspace_domain list option"
  cq_flavors :: "string list option"
  cq_options :: exec_options

definition check_flavors :: "ctl_world \<Rightarrow> ctl_config \<Rightarrow> string \<Rightarrow> string \<Rightarrow> string list \<Rightarrow> (ctl_error, flavor list) result" where
  "check_flavors w cfg before after names =
     (if names = [] then Ok []
      else case flavor_resolve (cw_flavors w) names of
             Inl missing \<Rightarrow> Err (BadRequest (before @ cc_debug cfg missing @ after))
           | Inr fls \<Rightarrow> Ok fls)"

definition create_spec :: "ctl_world \<Rightarrow> ctl_config \<Rightarrow> create_request \<Rightarrow> (ctl_error, workspace_spec) result" where
  "create_spec w cfg req =
     and_then (ok_or (CtlInternal ''exec not enabled'') (cc_exec cfg)) (\<lambda>ec.
     and_then (check_flavors w cfg ''unknown flavor: '' [] (unwrap_or [] (cq_flavors req))) (\<lambda>_.
       Ok (options_to_spec (cq_options req)
             (capped_memory (ec_default_memory_mb ec) (cq_memory_mb req))
             (clamped_timeout (ec_default_timeout_secs ec) (cq_timeout_secs req))
             (unwrap_or 0 (cq_idle_timeout_secs req)) (unwrap_or [] (cq_flavors req)))))"

text \<open>A new row; what it inherits from its parent, if any, is in the arguments.\<close>

definition new_row ::
  "ctl_world \<Rightarrow> ctl_config \<Rightarrow> string \<Rightarrow> string \<Rightarrow> workspace_spec \<Rightarrow> string option \<times> string option \<Rightarrow> string option
   \<Rightarrow> workspace_domain list \<Rightarrow> workspace" where
  "new_row w cfg i tenant spec git label domains =
     \<lparr>w_id = i, w_tenant = tenant, w_created_at = cw_now w, w_deleted_at = None, w_source_dir = ws_source cfg i,
      w_output_dir = ws_output cfg i, w_config = spec, w_git_repo = fst git, w_git_ref = snd git, w_label = label,
      w_domains = domains, w_last_exec_at = None, w_paused_at = None, w_auto_snapshot = None\<rparr>"

text \<open>Cloning into the new source directory.  Whatever the outcome, the directory holds what the
  clone has left there.\<close>

definition clone_into ::
  "ctl_world \<Rightarrow> ctl_config \<Rightarrow> git_spec \<Rightarrow> string \<Rightarrow> disk \<Rightarrow> (ctl_error, unit) result \<times> disk" where
  "clone_into w cfg g source dk =
     (let (d, store) = cw_checkout w (ps_store (dk_ps dk));
          dk = put_dir source d (dk\<lparr>dk_ps := (dk_ps dk)\<lparr>ps_store := store\<rparr>\<rparr>)
      in (if cc_host_clone cfg then snd (git_clone (cw_host w) g source)
          else snd (git_clone_in_jail (cw_host w) (cc_is_root cfg) (cw_scratch w) (cw_git_run w) g source), dk))"

fun domains_ok :: "(string \<Rightarrow> string) \<Rightarrow> workspace_domain list \<Rightarrow> (ctl_error, unit) result" where
  "domains_ok dbg [] = Ok ()"
| "domains_ok dbg (d # ds) = and_then (domain_target_of dbg d) (\<lambda>_. domains_ok dbg ds)"

definition create_workspace ::
  "ctl_world \<Rightarrow> ctl_config \<Rightarrow> tenant_scope \<Rightarrow> create_request \<Rightarrow> ctl_state
   \<Rightarrow> (ctl_error, workspace) result \<times> ctl_state" where
  "create_workspace w cfg scope req st =
     (case create_spec w cfg req of
        Inl e \<Rightarrow> (Err e, st)
      | Inr spec \<Rightarrow>
          (let i = cw_ids w 0
           in case make_dirs w cfg i (ct_disk st) of
                (Inl e, dk) \<Rightarrow> (Err e, st\<lparr>ct_disk := dk\<rparr>)
              | (Inr _, dk) \<Rightarrow>
                  (case (case cq_git req of Some g \<Rightarrow> clone_into w cfg g (ws_source cfg i) dk | None \<Rightarrow> (Ok (), dk)) of
                     (cloned, dk) \<Rightarrow>
                       (let git = (case cq_git req of Some g \<Rightarrow> git_primary g | None \<Rightarrow> (None, None));
                            domains = unwrap_or [] (cq_domains req);
                            label = Some (unwrap_or (cw_slug w) (given_label (cq_label req)));
                            ws = new_row w cfg i (sc_tenant scope) spec git label domains
                        in case and_then cloned (\<lambda>_. and_then (domains_ok (cc_debug cfg) domains) (\<lambda>_. ws_insert ws (ct_ws st))) of
                             Inl e \<Rightarrow> (Err e, st\<lparr>ct_disk := remove_dir_all (ws_root cfg i) dk\<rparr>)
                           | Inr rows \<Rightarrow> (Ok (redact_for scope ws), st\<lparr>ct_ws := rows, ct_disk := dk\<rparr>)))))"

definition list_workspaces ::
  "ctl_config \<Rightarrow> tenant_scope \<Rightarrow> nat option \<Rightarrow> nat option \<Rightarrow> string option \<Rightarrow> ctl_state \<Rightarrow> workspace list \<times> nat" where
  "list_workspaces cfg scope q_limit q_offset q st =
     (let limit = min (unwrap_or 50 q_limit) 500;
          needle = (case q of Some s \<Rightarrow> if trim s = [] then None else Some (trim s) | None \<Rightarrow> None);
          (rows, all_rows) = ws_list (cc_lower cfg) (tenant_filter scope) limit (unwrap_or 0 q_offset) needle (ct_ws st)
      in (map (redact_for scope) rows, all_rows))"

definition get_workspace :: "tenant_scope \<Rightarrow> string \<Rightarrow> ctl_state \<Rightarrow> (ctl_error, workspace) result" where
  "get_workspace scope i st = ok_or (no_workspace i) (map_option (redact_for scope) (ws_visible scope i (ct_ws st)))"

definition patch_workspace ::
  "ctl_world \<Rightarrow> tenant_scope \<Rightarrow> string \<Rightarrow> string option \<Rightarrow> ctl_state \<Rightarrow> (ctl_error, workspace) result \<times> ctl_state" where
  "patch_workspace w scope i label st =
     (if ws_visible scope i (ct_ws st) = None then (Err (no_workspace i), st)
      else case ws_set_label i (Some (unwrap_or (cw_slug w) (given_label label))) (ct_ws st) of
             (ws, rows) \<Rightarrow> (ok_or (no_workspace i) (map_option (redact_for scope) ws), st\<lparr>ct_ws := rows\<rparr>))"

definition delete_workspace ::
  "ctl_world \<Rightarrow> ctl_config \<Rightarrow> tenant_scope \<Rightarrow> string \<Rightarrow> ctl_state \<Rightarrow> (ctl_error, unit) result \<times> ctl_state" where
  "delete_workspace w cfg scope i st =
     (if ws_visible scope i (ct_ws st) = None then (Err (no_workspace i), st)
      else case ws_mark_deleted (cw_now w) i (ct_ws st) of
             (None, rows) \<Rightarrow> (Err (no_workspace i), st\<lparr>ct_ws := rows\<rparr>)
           | (Some ws, rows) \<Rightarrow>
               (Ok (), forget_lock (w_id ws)
                  (st\<lparr>ct_ws := rows, ct_disk := remove_dir_all (ws_root cfg (w_id ws)) (ct_disk st)\<rparr>)))"

section \<open>Snapshots\<close>

definition sn_visible :: "tenant_scope \<Rightarrow> string \<Rightarrow> snapshot_record list \<Rightarrow> snapshot_record option" where
  "sn_visible scope i rows =
     (case sn_get i rows of Some s \<Rightarrow> if can_see scope (sn_tenant s) then Some s else None | None \<Rightarrow> None)"

definition no_snapshot :: "string \<Rightarrow> ctl_error" where
  "no_snapshot i = NotFound (''snapshot '' @ i)"

text \<open>Capturing the source directory of a workspace into a new snapshot with its row.\<close>

definition record_snapshot ::
  "ctl_world \<Rightarrow> ctl_config \<Rightarrow> workspace \<Rightarrow> string option \<Rightarrow> ctl_state \<Rightarrow> (ctl_error, snapshot_record) result \<times> ctl_state" where
  "record_snapshot w cfg ws name st =
     (let dir = snap_path cfg (cw_snap_id w)
      in case capture_snapshot (cc_snap cfg) (cw_mtime w) (w_source_dir ws) dir (ct_disk st) of
           Inl e \<Rightarrow> (Err (CtlJail e), st)
         | Inr (bytes, dk) \<Rightarrow>
             (let rec = \<lparr>sn_id = cw_snap_id w, sn_tenant = w_tenant ws, sn_workspace = Some (w_id ws), sn_name = name,
                         sn_created_at = cw_now w, sn_path = dir, sn_size_bytes = bytes\<rparr>
              in case sn_insert rec (ct_snaps st) of
                   Inl e \<Rightarrow> (Err e, st\<lparr>ct_disk := remove_dir_all dir dk\<rparr>)
                 | Inr rows \<Rightarrow> (Ok rec, st\<lparr>ct_snaps := rows, ct_disk := dk\<rparr>)))"

definition create_snapshot ::
  "ctl_world \<Rightarrow> ctl_config \<Rightarrow> tenant_scope \<Rightarrow> string \<Rightarrow> string option \<Rightarrow> ctl_state
   \<Rightarrow> (ctl_error, snapshot_record) result \<times> ctl_state" where
  "create_snapshot w cfg scope i name st =
     (case ws_visible scope i (ct_ws st) of
        None \<Rightarrow> (Err (no_workspace i), st)
      | Some ws \<Rightarrow> record_snapshot w cfg ws name st)"

definition list_snapshots ::
  "ctl_config \<Rightarrow> tenant_scope \<Rightarrow> string option \<Rightarrow> nat option \<Rightarrow> nat option \<Rightarrow> string option \<Rightarrow> ctl_state
   \<Rightarrow> snapshot_record list \<times> nat" where
  "list_snapshots cfg scope workspace q_limit q_offset q st =
     (let limit = min (unwrap_or 50 q_limit) 500;
          needle = (case q of Some s \<Rightarrow> if trim s = [] then None else Some (trim s) | None \<Rightarrow> None)
      in sn_list (cc_lower cfg) (tenant_filter scope) workspace limit (unwrap_or 0 q_offset) needle (ct_snaps st))"

definition get_snapshot :: "tenant_scope \<Rightarrow> string \<Rightarrow> ctl_state \<Rightarrow> (ctl_error, snapshot_record) result" where
  "get_snapshot scope i st = ok_or (no_snapshot i) (sn_visible scope i (ct_snaps st))"

text \<open>The entries of a manifest; \<open>None\<close> is the kind \<open>classic\<close>.\<close>

definition get_snapshot_manifest ::
  "ctl_config \<Rightarrow> tenant_scope \<Rightarrow> string \<Rightarrow> ctl_state \<Rightarrow> (ctl_error, manifest_entry list option) result" where
  "get_snapshot_manifest cfg scope i st =
     and_then (ok_or (no_snapshot i) (sn_visible scope i (ct_snaps st))) (\<lambda>rec.
       Ok (case manifest_file (cc_snap cfg) (sn_path rec) (ct_disk st) of
             Some (Some m) \<Rightarrow> Some (mf_entries m)
           | _ \<Rightarrow> None))"

definition delete_snapshot :: "tenant_scope \<Rightarrow> string \<Rightarrow> ctl_state \<Rightarrow> (ctl_error, unit) result \<times> ctl_state" where
  "delete_snapshot scope i st =
     (if sn_visible scope i (ct_snaps st) = None then (Err (no_snapshot i), st)
      else case sn_remove i (ct_snaps st) of
             (None, rows) \<Rightarrow> (Err (no_snapshot i), st\<lparr>ct_snaps := rows\<rparr>)
           | (Some rec, rows) \<Rightarrow>
               (Ok (), st\<lparr>ct_snaps := rows, ct_disk := remove_dir_all (sn_path rec) (ct_disk st)\<rparr>))"

text \<open>A new workspace of the tenant of its parent, filled from a snapshot.\<close>

definition rehydrate ::
  "ctl_world \<Rightarrow> ctl_config \<Rightarrow> string \<Rightarrow> workspace \<Rightarrow> string \<Rightarrow> string \<Rightarrow> ctl_state \<Rightarrow> (ctl_error, workspace) result \<times> ctl_state" where
  "rehydrate w cfg dir parent i label st =
     (case make_dirs w cfg i (ct_disk st) of
        (Inl e, dk) \<Rightarrow> (Err e, st\<lparr>ct_disk := dk\<rparr>)
      | (Inr _, dk) \<Rightarrow>
          (case restore_snapshot (cc_snap cfg) (cw_mtime w) dir (ws_source cfg i) dk of
             (rst, dk) \<Rightarrow>
               (let ws = new_row w cfg i (w_tenant parent) (w_config parent) (w_git_repo parent, w_git_ref parent)
                           (Some label) []
                in case and_then rst (\<lambda>_. ws_insert ws (ct_ws st)) of
                     Inl e \<Rightarrow> (Err e, st\<lparr>ct_disk := remove_dir_all (ws_root cfg i) dk\<rparr>)
                   | Inr rows \<Rightarrow> (Ok ws, st\<lparr>ct_ws := rows, ct_disk := dk\<rparr>))))"

definition create_workspace_from_snapshot ::
  "ctl_world \<Rightarrow> ctl_config \<Rightarrow> tenant_scope \<Rightarrow> string \<Rightarrow> string \<Rightarrow> string option \<Rightarrow> ctl_state
   \<Rightarrow> (ctl_error, workspace) result \<times> ctl_state" where
  "create_workspace_from_snapshot w cfg scope snapshot claimed label st =
     (case and_then (ok_or (no_snapshot snapshot) (sn_visible scope snapshot (ct_snaps st))) (\<lambda>snap.
        if trim claimed = [] then Err (BadRequest ''parent_workspace_id is required'')
        else if sn_workspace snap \<noteq> Some (trim claimed) then Err (no_snapshot snapshot)
        else and_then (ok_or (no_snapshot snapshot) (ws_visible scope (trim claimed) (ct_ws st))) (\<lambda>parent.
          Ok (snap, parent))) of
        Inl e \<Rightarrow> (Err e, st)
      | Inr (snap, parent) \<Rightarrow>
          (case rehydrate w cfg (sn_path snap) parent (cw_ids w 0) (unwrap_or (cw_slug w) (given_label label)) st of
             (r, st) \<Rightarrow> (and_then r (\<lambda>ws. Ok (redact_for scope ws)), st)))"

text \<open>The forks of a workspace; a failure leaves the forks before it.\<close>

definition fork_label :: "string option \<Rightarrow> workspace \<Rightarrow> nat \<Rightarrow> string" where
  "fork_label label parent k =
     (case label of
        Some l \<Rightarrow> l @ ''-'' @ show_nat k
      | None \<Rightarrow> ''fork of '' @ w_id parent @ ''-'' @ show_nat k)"

fun fork_workspaces ::
  "ctl_world \<Rightarrow> ctl_config \<Rightarrow> string \<Rightarrow> workspace \<Rightarrow> string option \<Rightarrow> nat \<Rightarrow> nat \<Rightarrow> ctl_state
   \<Rightarrow> (ctl_error, workspace list) result \<times> ctl_state" where
  "fork_workspaces w cfg dir parent label k 0 st = (Ok [], st)"
| "fork_workspaces w cfg dir parent label k (Suc n) st =
     (case rehydrate w cfg dir parent (cw_ids w k) (fork_label label parent k) st of
        (Inl e, st) \<Rightarrow> (Err e, st)
      | (Inr ws, st) \<Rightarrow>
          (case fork_workspaces w cfg dir parent label (Suc k) n st of
             (r, st) \<Rightarrow> (and_then r (\<lambda>forks. Ok (ws # forks)), st)))"

definition fork_workspace ::
  "ctl_world \<Rightarrow> ctl_config \<Rightarrow> tenant_scope \<Rightarrow> string \<Rightarrow> nat \<Rightarrow> string option \<Rightarrow> ctl_state
   \<Rightarrow> (ctl_error, workspace \<times> workspace list \<times> string) result \<times> ctl_state" where
  "fork_workspace w cfg scope i count label st =
     (if count = 0 \<or> 16 < count then (Err (BadRequest ''fork.count must be 1..=16''), st)
      else case ws_visible scope i (ct_ws st) of
             None \<Rightarrow> (Err (no_workspace i), st)
           | Some parent \<Rightarrow>
               (case record_snapshot w cfg parent (Some (''fork-origin:'' @ w_id parent)) st of
                  (Inl e, st) \<Rightarrow> (Err e, st)
                | (Inr snap, st) \<Rightarrow>
                    (case fork_workspaces w cfg (sn_path snap) parent label 0 count st of
                       (r, st) \<Rightarrow>
                         (and_then r (\<lambda>forks. Ok (redact_for scope parent, map (redact_for scope) forks, sn_id snap)), st))))"

section \<open>Execution in a workspace\<close>

record ws_exec_request =
  wq_cmd :: string
  wq_args :: "string list"
  wq_timeout_secs :: "nat option"
  wq_memory_mb :: "nat option"
  wq_env :: "(string \<times> string) list"

text \<open>The handler looks the workspace up, takes its lock, resumes it if the row it has read says that
  it is paused, and starts the jail.  The row is not read again after the lock is taken.\<close>

definition ws_exec_lookup ::
  "ctl_config \<Rightarrow> tenant_scope \<Rightarrow> string \<Rightarrow> ctl_state \<Rightarrow> (ctl_error, workspace) result" where
  "ws_exec_lookup cfg scope i st =
     (if cc_exec cfg = None then Err (CtlInternal ''exec not enabled'')
      else ok_or (no_workspace i) (ws_visible scope i (ct_ws st)))"

definition ws_resume ::
  "ctl_world \<Rightarrow> ctl_config \<Rightarrow> workspace \<Rightarrow> ctl_state \<Rightarrow> (ctl_error, unit) result \<times> ctl_state" where
  "ws_resume w cfg ws st =
     (case (w_paused_at ws, Option.bind (w_auto_snapshot ws) (\<lambda>i. sn_get i (ct_snaps st))) of
        (Some _, Some snap) \<Rightarrow>
          (case restore_snapshot (cc_snap cfg) (cw_mtime w) (sn_path snap) (w_source_dir ws) (ct_disk st) of
             (Inl e, dk) \<Rightarrow> (Err e, st\<lparr>ct_disk := dk\<rparr>)
           | (Inr _, dk) \<Rightarrow> (Ok (), st\<lparr>ct_disk := dk, ct_ws := snd (ws_mark_resumed (w_id ws) (ct_ws st))\<rparr>))
      | _ \<Rightarrow> (Ok (), st))"

definition ws_exec_plan ::
  "ctl_world \<Rightarrow> ctl_config \<Rightarrow> workspace \<Rightarrow> ws_exec_request \<Rightarrow> nat \<Rightarrow> (ctl_error, jail_config \<times> exec_options) result" where
  "ws_exec_plan w cfg ws req permits =
     and_then (if permits = 0 then Err (BadRequest ''too many concurrent executions'') else Ok ()) (\<lambda>_.
     and_then (spec_to_options (w_config ws)) (\<lambda>options.
     and_then (check_flavors w cfg ''flavor '' '' is no longer available on this server'' (wsp_flavors (w_config ws))) (\<lambda>fls.
     and_then (exec_jail_config (cc_is_root cfg) (w_source_dir ws) (w_output_dir ws)
         (capped_memory (wsp_memory_mb (w_config ws)) (wq_memory_mb req))
         (clamped_timeout (wsp_timeout_secs (w_config ws)) (wq_timeout_secs req))
         (default_path @ wq_env req) options True (map fl_path fls)) (\<lambda>config.
     and_then (jail_err (cw_new w config)) (\<lambda>_. Ok (config, options))))))"

definition workspace_exec_label :: "string \<Rightarrow> string \<Rightarrow> string" where
  "workspace_exec_label i cmd = ''workspace:'' @ i @ ''/'' @ cmd"

record running =
  rn_ws :: workspace
  rn_lock :: nat
  rn_row :: int
  rn_config :: jail_config

definition ws_exec_enter ::
  "ctl_world \<Rightarrow> ctl_config \<Rightarrow> workspace \<Rightarrow> ws_exec_request \<Rightarrow> ctl_state \<Rightarrow> (ctl_error, running) result \<times> ctl_state" where
  "ws_exec_enter w cfg ws req st =
     (case lock_for (w_id ws) st of
        (n, st) \<Rightarrow>
          (if n \<in> set (ct_held st) then (Err (Conflict ''another exec is in flight against this workspace''), st)
           else case ws_resume w cfg ws st of
                  (Inl e, st) \<Rightarrow> (Err e, st)
                | (Inr _, st) \<Rightarrow>
                    (case ws_exec_plan w cfg ws req (ct_permits st) of
                       Inl e \<Rightarrow> (Err e, st)
                     | Inr (config, options) \<Rightarrow>
                         (let (row, l) = jl_start (cw_now w) (w_tenant ws) KindWorkspace
                                (workspace_exec_label (w_id ws) (wq_cmd req)) None None (ct_ledger st);
                              l = jl_attach_config row
                                (config_snapshot options (jc_memory_mb config) (jc_timeout_secs config) None) l
                          in (Ok \<lparr>rn_ws = ws, rn_lock = n, rn_row = row, rn_config = config\<rparr>,
                              st\<lparr>ct_ws := ws_touch (cw_now w) (w_id ws) (ct_ws st), ct_ledger := l,
                                 ct_held := n # ct_held st, ct_permits := ct_permits st - 1\<rparr>)))))"

text \<open>While the jail runs its cgroup and its address are registered; what it writes is the tree at
  its source directory.\<close>

definition ws_exec_register :: "running \<Rightarrow> string option \<Rightarrow> string option \<Rightarrow> ctl_state \<Rightarrow> ctl_state" where
  "ws_exec_register rn cgroup ip st =
     (let i = w_id (rn_ws rn)
      in st\<lparr>ct_cgroups := (case cgroup of Some p \<Rightarrow> AList.update i p (ct_cgroups st) | None \<Rightarrow> ct_cgroups st),
            ct_ips := (case ip of Some a \<Rightarrow> AList.update i a (ct_ips st) | None \<Rightarrow> ct_ips st)\<rparr>)"

definition ws_exec_write :: "running \<Rightarrow> dir \<Rightarrow> inode_store \<Rightarrow> ctl_state \<Rightarrow> ctl_state" where
  "ws_exec_write rn d store st =
     st\<lparr>ct_disk := put_dir (jc_source (rn_config rn)) d ((ct_disk st)\<lparr>dk_ps := (dk_ps (ct_disk st))\<lparr>ps_store := store\<rparr>\<rparr>)\<rparr>"

text \<open>The end of a run, and of its handler: the registrations it made are dropped with it, then the
  permit and the lock.  A handler whose client has gone is dropped (\<open>NeverReturns\<close>); one that waits
  forever has no end.\<close>

definition ws_exec_leave ::
  "(jail_error \<Rightarrow> string) \<Rightarrow> int \<Rightarrow> running \<Rightarrow> string option \<Rightarrow> string option \<Rightarrow> run_outcome \<Rightarrow> ctl_state
   \<Rightarrow> run_output handled \<times> ctl_state" where
  "ws_exec_leave show_err now rn cgroup ip outcome st =
     (let i = w_id (rn_ws rn);
          st = st\<lparr>ct_cgroups := (if cgroup = None then ct_cgroups st else AList.delete i (ct_cgroups st)),
                  ct_ips := (if ip = None then ct_ips st else AList.delete i (ct_ips st)),
                  ct_held := removeAll (rn_lock rn) (ct_held st), ct_permits := ct_permits st + 1\<rparr>
      in case settle_row show_err now (rn_row rn) outcome (ct_ledger st) of
           (r, l) \<Rightarrow> (r, st\<lparr>ct_ledger := l\<rparr>))"

end
