(* ===== verification/Workspace_Isolation.thy ===== *)
theory Workspace_Isolation
  imports Workspace_Routes
begin

text \<open>
  The workspace and snapshot routes as one service (the table of routes in \<open>agentjail-ctl/src/lib.rs\<close>)
  and the isolation of tenants: for an operator the service behaves as if theirs were the only tenant,
  and it leaves the rows and directories of the others alone.
\<close>

section \<open>The service\<close>

datatype ws_request =
    CreateWorkspace create_request
  | ForkWorkspace string nat "string option"
  | ListWorkspaces "nat option" "nat option" "string option"
  | GetWorkspace string
  | PatchWorkspace string "string option"
  | DeleteWorkspace string
  | CreateSnapshot string "string option"
  | ListSnapshots "string option" "nat option" "nat option" "string option"
  | GetSnapshot string
  | SnapshotManifest string
  | DeleteSnapshot string
  | FromSnapshot string string "string option"

datatype ws_response =
    AnsWorkspace workspace
  | AnsFork workspace "workspace list" string
  | AnsWorkspaces "workspace list" nat
  | AnsSnapshot snapshot_record
  | AnsSnapshots "snapshot_record list" nat
  | AnsManifest "manifest_entry list option"
  | AnsNone

definition answer :: "('a \<Rightarrow> ws_response) \<Rightarrow> (ctl_error, 'a) result \<times> ctl_state \<Rightarrow> (ctl_error, ws_response) result \<times> ctl_state" where
  "answer f p = (and_then (fst p) (\<lambda>a. Ok (f a)), snd p)"

definition serve ::
  "ctl_world \<Rightarrow> ctl_config \<Rightarrow> tenant_scope \<Rightarrow> ws_request \<Rightarrow> ctl_state \<Rightarrow> (ctl_error, ws_response) result \<times> ctl_state" where
  "serve w cfg scope rq st =
     (case rq of
        CreateWorkspace req \<Rightarrow> answer AnsWorkspace (create_workspace w cfg scope req st)
      | ForkWorkspace i n label \<Rightarrow> answer (\<lambda>(p, fs, s). AnsFork p fs s) (fork_workspace w cfg scope i n label st)
      | ListWorkspaces limit offset q \<Rightarrow>
          (Ok (case list_workspaces cfg scope limit offset q st of (rows, n) \<Rightarrow> AnsWorkspaces rows n), st)
      | GetWorkspace i \<Rightarrow> answer AnsWorkspace (get_workspace scope i st, st)
      | PatchWorkspace i label \<Rightarrow> answer AnsWorkspace (patch_workspace w scope i label st)
      | DeleteWorkspace i \<Rightarrow> answer (\<lambda>_. AnsNone) (delete_workspace w cfg scope i st)
      | CreateSnapshot i name \<Rightarrow> answer AnsSnapshot (create_snapshot w cfg scope i name st)
      | ListSnapshots ws limit offset q \<Rightarrow>
          (Ok (case list_snapshots cfg scope ws limit offset q st of (rows, n) \<Rightarrow> AnsSnapshots rows n), st)
      | GetSnapshot i \<Rightarrow> answer AnsSnapshot (get_snapshot scope i st, st)
      | SnapshotManifest i \<Rightarrow> answer AnsManifest (get_snapshot_manifest cfg scope i st, st)
      | DeleteSnapshot i \<Rightarrow> answer (\<lambda>_. AnsNone) (delete_snapshot scope i st)
      | FromSnapshot s p label \<Rightarrow> answer AnsWorkspace (create_workspace_from_snapshot w cfg scope s p label st))"

section \<open>One tenant's view\<close>

definition own_view :: "string \<Rightarrow> ctl_state \<Rightarrow> ctl_state" where
  "own_view t st = st\<lparr>ct_ws := rows_of w_tenant t (ct_ws st), ct_snaps := rows_of sn_tenant t (ct_snaps st)\<rparr>"

definition other_rows :: "string \<Rightarrow> ctl_state \<Rightarrow> workspace list \<times> snapshot_record list" where
  "other_rows t st = (others_of w_tenant t (ct_ws st), others_of sn_tenant t (ct_snaps st))"

definition unique_ids :: "ctl_state \<Rightarrow> bool" where
  "unique_ids st = (distinct (map w_id (ct_ws st)) \<and> distinct (map sn_id (ct_snaps st)))"

text \<open>New ids are not those of another tenant's rows.\<close>

definition fresh_for :: "string \<Rightarrow> ctl_world \<Rightarrow> ctl_state \<Rightarrow> bool" where
  "fresh_for t w st =
     ((\<forall>k. cw_ids w k \<notin> w_id ` set (others_of w_tenant t (ct_ws st))) \<and>
      cw_snap_id w \<notin> sn_id ` set (others_of sn_tenant t (ct_snaps st)))"

text \<open>A handler that cannot tell whether there are other tenants, and does nothing to their rows.\<close>

definition confined :: "string \<Rightarrow> (ctl_state \<Rightarrow> 'a \<times> ctl_state) \<Rightarrow> ctl_state \<Rightarrow> bool" where
  "confined t f st =
     (f (own_view t st) = map_prod id (own_view t) (f st) \<and> other_rows t (snd (f st)) = other_rows t st \<and>
      unique_ids (snd (f st)))"

lemma confinedI:
  assumes "f st = (r, st')" "f (own_view t st) = (r, own_view t st')" "other_rows t st' = other_rows t st" "unique_ids st'"
  shows "confined t f st"
  using assms by (simp add: confined_def)

lemma own_view_simps [simp]:
  "ct_ws (own_view t st) = rows_of w_tenant t (ct_ws st)" "ct_snaps (own_view t st) = rows_of sn_tenant t (ct_snaps st)"
  "ct_disk (own_view t st) = ct_disk st"
  "own_view t (st\<lparr>ct_disk := dk\<rparr>) = (own_view t st)\<lparr>ct_disk := dk\<rparr>"
  "other_rows t (st\<lparr>ct_disk := dk\<rparr>) = other_rows t st" "unique_ids (st\<lparr>ct_disk := dk\<rparr>) = unique_ids st"
  by (simp_all add: own_view_def other_rows_def unique_ids_def)

lemma own_view_ws:
  "own_view t (st\<lparr>ct_ws := rows\<rparr>) = (own_view t st)\<lparr>ct_ws := rows_of w_tenant t rows\<rparr>"
  "own_view t (st\<lparr>ct_snaps := snaps\<rparr>) = (own_view t st)\<lparr>ct_snaps := rows_of sn_tenant t snaps\<rparr>"
  by (simp_all add: own_view_def)

lemma confined_bind:
  assumes "confined t f st" "\<And>r st'. f st = (r, st') \<Longrightarrow> confined t (g r) st'"
  shows "confined t (\<lambda>st. case f st of (r, st) \<Rightarrow> g r st) st"
proof (cases "f st")
  case (Pair r st')
  then show ?thesis
    using assms(1) assms(2) [OF Pair] by (simp add: confined_def)
qed

lemma confined_const [simp]: "unique_ids st \<Longrightarrow> confined t (\<lambda>st. (r, st)) st"
  by (simp add: confined_def)

lemma confined_map: "confined t f st \<Longrightarrow> confined t (\<lambda>st. case f st of (r, st) \<Rightarrow> (g r, st)) st"
  by (cases "f st") (auto simp: confined_def)

lemma confined_answer: "confined t f st \<Longrightarrow> confined t (\<lambda>st. answer g (f st)) st"
  by (cases "f st") (auto simp: confined_def answer_def)

text \<open>Lookups of an operator.\<close>

lemma ws_visible_own:
  assumes "distinct (map w_id rows)" "sc_role scope = Operator"
  shows "ws_visible scope i (rows_of w_tenant (sc_tenant scope) rows) = ws_visible scope i rows"
  using workspaces.get_rows_of [OF assms(1), of i "sc_tenant scope"] assms(2)
  by (auto simp: ws_visible_def can_see_def is_admin_def split: option.splits)

lemma sn_visible_own:
  assumes "distinct (map sn_id rows)" "sc_role scope = Operator"
  shows "sn_visible scope i (rows_of sn_tenant (sc_tenant scope) rows) = sn_visible scope i rows"
  using snapshots.get_rows_of [OF assms(1), of i "sc_tenant scope"] assms(2)
  by (auto simp: sn_visible_def can_see_def is_admin_def split: option.splits)

lemma ws_visible_tenant: "ws_visible scope i rows = Some ws \<Longrightarrow> sc_role scope = Operator \<Longrightarrow> w_tenant ws = sc_tenant scope"
  by (auto simp: ws_visible_def can_see_def is_admin_def split: option.splits if_splits)

lemma sn_visible_tenant: "sn_visible scope i rows = Some s \<Longrightarrow> sc_role scope = Operator \<Longrightarrow> sn_tenant s = sc_tenant scope"
  by (auto simp: sn_visible_def can_see_def is_admin_def split: option.splits if_splits)

lemma row_insert_own:
  assumes "tenant r = t" "key r \<notin> key ` set (others_of tenant t rows)"
  shows "row_insert key what r (rows_of tenant t rows) = map_sum id (rows_of tenant t) (row_insert key what r rows)"
proof -
  have "key r \<in> key ` set (rows_of tenant t rows) \<longleftrightarrow> key r \<in> key ` set rows"
    using assms(2) by (auto simp: rows_of_def others_of_def)
  then show ?thesis
    using row_get_None [of key "key r"] assms(1) by (auto simp: row_insert_def rows_of_def)
qed

lemma insert_ws_confined:
  assumes "unique_ids st" "w_tenant ws = t" "w_id ws \<notin> w_id ` set (others_of w_tenant t (ct_ws st))"
    and "\<And>r. ws_insert ws (ct_ws st) = Ok r \<Longrightarrow> confined t g (st\<lparr>ct_ws := r\<rparr>)"
  shows "confined t (\<lambda>st. case ws_insert ws (ct_ws st) of Inl e \<Rightarrow> (h e, st\<lparr>ct_disk := dk\<rparr>) | Inr r \<Rightarrow> g (st\<lparr>ct_ws := r\<rparr>)) st"
proof (cases "ws_insert ws (ct_ws st)")
  case (Inl e)
  then show ?thesis
    using assms(1) row_insert_own [of w_tenant ws t w_id "ct_ws st" "''workspace''"] assms(2,3)
    by (simp add: confined_def ws_insert_def)
next
  case (Inr r)
  then show ?thesis
    using assms(4) [OF Inr] row_insert_own [of w_tenant ws t w_id "ct_ws st" "''workspace''"] assms(2,3)
      workspaces.insert_views(2) [OF Inr, of t]
    by (simp add: confined_def ws_insert_def own_view_ws other_rows_def)
qed

lemma insert_sn_confined:
  assumes "unique_ids st" "sn_tenant s = t" "sn_id s \<notin> sn_id ` set (others_of sn_tenant t (ct_snaps st))"
    and "\<And>r. sn_insert s (ct_snaps st) = Ok r \<Longrightarrow> confined t g (st\<lparr>ct_snaps := r\<rparr>)"
  shows "confined t (\<lambda>st. case sn_insert s (ct_snaps st) of Inl e \<Rightarrow> (h e, st\<lparr>ct_disk := dk\<rparr>) | Inr r \<Rightarrow> g (st\<lparr>ct_snaps := r\<rparr>)) st"
proof (cases "sn_insert s (ct_snaps st)")
  case (Inl e)
  then show ?thesis
    using assms(1) row_insert_own [of sn_tenant s t sn_id "ct_snaps st" "''snapshot''"] assms(2,3)
    by (simp add: confined_def sn_insert_def)
next
  case (Inr r)
  then show ?thesis
    using assms(4) [OF Inr] row_insert_own [of sn_tenant s t sn_id "ct_snaps st" "''snapshot''"] assms(2,3)
      snapshots.insert_views(2) [OF Inr, of t]
    by (simp add: confined_def sn_insert_def own_view_ws other_rows_def)
qed

lemma unique_ids_insert:
  "ws_insert ws (ct_ws st) = Ok r \<Longrightarrow> unique_ids st \<Longrightarrow> unique_ids (st\<lparr>ct_ws := r\<rparr>)"
  "sn_insert s (ct_snaps st) = Ok q \<Longrightarrow> unique_ids st \<Longrightarrow> unique_ids (st\<lparr>ct_snaps := q\<rparr>)"
  by (auto simp: unique_ids_def dest: workspaces.insert_distinct snapshots.insert_distinct)

lemma confined_disk: "unique_ids st \<Longrightarrow> confined t (\<lambda>st. (r, st\<lparr>ct_disk := dk\<rparr>)) st"
  by (simp add: confined_def)

lemma record_snapshot_confined:
  assumes "unique_ids st" "w_tenant ws = t" "fresh_for t w st"
  shows "confined t (record_snapshot w cfg ws name) st"
proof -
  let ?dir = "snap_path cfg (cw_snap_id w)"
  show ?thesis
  proof (cases "capture_snapshot (cc_snap cfg) (cw_mtime w) (w_source_dir ws) ?dir (ct_disk st)")
    case (Inl e)
    then show ?thesis
      using assms(1) by (simp add: confined_def record_snapshot_def)
  next
    case (Inr p)
    obtain bytes dk where p: "p = (bytes, dk)"
      by fastforce
    let ?rec = "\<lparr>sn_id = cw_snap_id w, sn_tenant = w_tenant ws, sn_workspace = Some (w_id ws), sn_name = name,
                 sn_created_at = cw_now w, sn_path = ?dir, sn_size_bytes = bytes\<rparr>"
    have "confined t (\<lambda>st. case sn_insert ?rec (ct_snaps st) of Inl e \<Rightarrow> (Err e, st\<lparr>ct_disk := remove_dir_all ?dir dk\<rparr>)
        | Inr r \<Rightarrow> (\<lambda>st. (Ok ?rec, st\<lparr>ct_disk := dk\<rparr>)) (st\<lparr>ct_snaps := r\<rparr>)) st"
      by (rule insert_sn_confined) (use assms in \<open>auto simp: fresh_for_def intro!: confined_disk unique_ids_insert(2)\<close>)
    then show ?thesis
      using Inr by (simp add: confined_def record_snapshot_def p Let_def)
  qed
qed

lemma fresh_for_others: "other_rows t st' = other_rows t st \<Longrightarrow> fresh_for t w st' \<longleftrightarrow> fresh_for t w st"
  by (simp add: other_rows_def fresh_for_def)

lemma confinedD:
  assumes "confined t f st" "f st = (r, st')"
  shows "other_rows t st' = other_rows t st" "unique_ids st'"
  using assms by (simp_all add: confined_def)

lemma rehydrate_confined:
  assumes "unique_ids st" "w_tenant parent = t" "i \<notin> w_id ` set (others_of w_tenant t (ct_ws st))"
  shows "confined t (rehydrate w cfg dir parent i label) st"
proof (cases "make_dirs w cfg i (ct_disk st)")
  case (Pair r dk)
  show ?thesis
  proof (cases r)
    case (Inl e)
    with Pair show ?thesis
      using assms(1) by (simp add: confined_def rehydrate_def)
  next
    case (Inr u)
    obtain rst dk' where res: "restore_snapshot (cc_snap cfg) (cw_mtime w) dir (ws_source cfg i) dk = (rst, dk')"
      by fastforce
    let ?ws = "new_row w cfg i (w_tenant parent) (w_config parent) (w_git_repo parent, w_git_ref parent) (Some label) []"
    have "confined t (\<lambda>st. case ws_insert ?ws (ct_ws st) of Inl e \<Rightarrow> (Err e, st\<lparr>ct_disk := remove_dir_all (ws_root cfg i) dk'\<rparr>)
        | Inr rows \<Rightarrow> (\<lambda>st. (Ok ?ws, st\<lparr>ct_disk := dk'\<rparr>)) (st\<lparr>ct_ws := rows\<rparr>)) st"
      by (rule insert_ws_confined) (use assms in \<open>auto simp: new_row_def intro!: confined_disk unique_ids_insert(1)\<close>)
    then show ?thesis
      using Pair Inr res assms(1) by (cases rst) (simp_all add: confined_def rehydrate_def Let_def)
  qed
qed

lemma fork_workspaces_confined:
  "unique_ids st \<Longrightarrow> w_tenant parent = t \<Longrightarrow> fresh_for t w st \<Longrightarrow>
   confined t (fork_workspaces w cfg dir parent label k n) st"
proof (induction n arbitrary: k st)
  case (Suc n)
  let ?r = "rehydrate w cfg dir parent (cw_ids w k) (fork_label label parent k)"
  have one: "confined t ?r st"
    using Suc.prems by (intro rehydrate_confined) (auto simp: fresh_for_def)
  have "confined t (\<lambda>st. case ?r st of (r, st) \<Rightarrow>
      (\<lambda>r st. case r of Inl e \<Rightarrow> (Err e, st)
        | Inr ws \<Rightarrow> (case fork_workspaces w cfg dir parent label (Suc k) n st of
             (r, st) \<Rightarrow> (and_then r (\<lambda>forks. Ok (ws # forks)), st))) r st) st"
  proof (rule confined_bind [OF one])
    fix r st'
    assume r: "?r st = (r, st')"
    have "confined t (fork_workspaces w cfg dir parent label (Suc k) n) st'"
      using Suc.IH Suc.prems confinedD [OF one r] fresh_for_others by blast
    moreover have "unique_ids st'"
      using confinedD [OF one r] by simp
    ultimately show "confined t (\<lambda>st. case r of Inl e \<Rightarrow> (Err e, st)
        | Inr ws \<Rightarrow> (case fork_workspaces w cfg dir parent label (Suc k) n st of
             (r, st) \<Rightarrow> (and_then r (\<lambda>forks. Ok (ws # forks)), st))) st'"
      by (cases r) (simp_all add: confined_map)
  qed
  then show ?case
    by (auto simp: confined_def split: prod.split sum.split)
qed (simp add: confined_def)

lemma create_workspace_confined:
  assumes "unique_ids st" "fresh_for (sc_tenant scope) w st"
  shows "confined (sc_tenant scope) (create_workspace w cfg scope req) st"
proof (cases "create_spec w cfg req")
  case (Inl e)
  then show ?thesis
    using assms(1) by (simp add: confined_def create_workspace_def)
next
  case (Inr spec)
  let ?i = "cw_ids w 0" and ?t = "sc_tenant scope"
  show ?thesis
  proof (cases "make_dirs w cfg ?i (ct_disk st)")
    case (Pair r dk)
    show ?thesis
    proof (cases r)
      case (Inl e)
      with Pair \<open>create_spec w cfg req = Inr spec\<close> show ?thesis
        using assms(1) by (simp add: confined_def create_workspace_def)
    next
      case (Inr u)
      obtain cloned dk' where c: "(case cq_git req of Some g \<Rightarrow> clone_into w cfg g (ws_source cfg ?i) dk | None \<Rightarrow> (Ok (), dk)) = (cloned, dk')"
        by fastforce
      let ?ws = "new_row w cfg ?i ?t spec (case cq_git req of Some g \<Rightarrow> git_primary g | None \<Rightarrow> (None, None))
        (Some (unwrap_or (cw_slug w) (given_label (cq_label req)))) (unwrap_or [] (cq_domains req))"
      have "confined ?t (\<lambda>st. case ws_insert ?ws (ct_ws st) of
            Inl e \<Rightarrow> (Err e, st\<lparr>ct_disk := remove_dir_all (ws_root cfg ?i) dk'\<rparr>)
          | Inr rows \<Rightarrow> (\<lambda>st. (Ok (redact_for scope ?ws), st\<lparr>ct_disk := dk'\<rparr>)) (st\<lparr>ct_ws := rows\<rparr>)) st"
        by (rule insert_ws_confined)
          (use assms in \<open>auto simp: new_row_def fresh_for_def intro!: confined_disk unique_ids_insert(1)\<close>)
      then show ?thesis
        using Pair Inr c assms(1) \<open>create_spec w cfg req = Inr spec\<close>
        by (cases cloned; cases "domains_ok (cc_debug cfg) (unwrap_or [] (cq_domains req))")
          (simp_all add: confined_def create_workspace_def Let_def)
    qed
  qed
qed

lemma fork_workspace_confined:
  assumes "unique_ids st" "sc_role scope = Operator" "fresh_for (sc_tenant scope) w st"
  shows "confined (sc_tenant scope) (fork_workspace w cfg scope i n label) st"
proof (cases "ws_visible scope i (ct_ws st)")
  case None
  then show ?thesis
    using assms ws_visible_own [of "ct_ws st" scope i] by (simp add: confined_def fork_workspace_def unique_ids_def)
next
  case (Some parent)
  let ?t = "sc_tenant scope"
  let ?rec = "record_snapshot w cfg parent (Some (''fork-origin:'' @ w_id parent))"
  have parent: "w_tenant parent = ?t"
    using ws_visible_tenant [OF Some assms(2)] .
  have one: "confined ?t ?rec st"
    using record_snapshot_confined [OF assms(1) parent assms(3)] .
  have "confined ?t (\<lambda>st. case ?rec st of (r, st) \<Rightarrow>
      (\<lambda>r st. case r of Inl e \<Rightarrow> (Err e, st)
        | Inr snap \<Rightarrow> (case fork_workspaces w cfg (sn_path snap) parent label 0 n st of
             (r, st) \<Rightarrow> (and_then r (\<lambda>forks. Ok (redact_for scope parent, map (redact_for scope) forks, sn_id snap)), st))) r st) st"
  proof (rule confined_bind [OF one])
    fix r st'
    assume r: "?rec st = (r, st')"
    note st' = confinedD [OF one r]
    have "confined ?t (fork_workspaces w cfg dir parent label 0 n) st'" for dir
      using fork_workspaces_confined [OF st'(2) parent] fresh_for_others [OF st'(1)] assms(3) by blast
    with st'(2) show "confined ?t (\<lambda>st. case r of Inl e \<Rightarrow> (Err e, st)
        | Inr snap \<Rightarrow> (case fork_workspaces w cfg (sn_path snap) parent label 0 n st of
             (r, st) \<Rightarrow> (and_then r (\<lambda>forks. Ok (redact_for scope parent, map (redact_for scope) forks, sn_id snap)), st))) st'"
      by (cases r) (simp_all add: confined_map)
  qed
  then show ?thesis
    using Some assms ws_visible_own [of "ct_ws st" scope i]
    by (auto simp: confined_def fork_workspace_def unique_ids_def split: prod.split sum.split)
qed

lemma ws_visible_get:
  assumes "ws_visible scope i rows = Some ws" "distinct (map w_id rows)" "sc_role scope = Operator"
  shows "ws_get i rows = Some ws" "ws_get i (rows_of w_tenant (sc_tenant scope) rows) = Some ws"
    "r \<in> set rows \<Longrightarrow> w_id r = i \<Longrightarrow> w_tenant r = sc_tenant scope"
proof -
  show get: "ws_get i rows = Some ws"
    using assms(1) by (auto simp: ws_visible_def split: option.splits if_splits)
  then show "ws_get i (rows_of w_tenant (sc_tenant scope) rows) = Some ws"
    using workspaces.get_rows_of [OF assms(2), of i "sc_tenant scope"] ws_visible_tenant [OF assms(1,3)] by simp
  assume "r \<in> set rows" "w_id r = i"
  moreover have "row_get w_id i rows = Some ws"
    using get by (auto simp: ws_get_def split: option.splits if_splits)
  ultimately show "w_tenant r = sc_tenant scope"
    using unique_row [OF assms(2)] ws_visible_tenant [OF assms(1,3)] by metis
qed

lemma sn_visible_get:
  assumes "sn_visible scope i rows = Some s" "distinct (map sn_id rows)" "sc_role scope = Operator"
  shows "sn_get i rows = Some s" "sn_get i (rows_of sn_tenant (sc_tenant scope) rows) = Some s"
    "r \<in> set rows \<Longrightarrow> sn_id r = i \<Longrightarrow> sn_tenant r = sc_tenant scope"
proof -
  show get: "sn_get i rows = Some s"
    using assms(1) by (auto simp: sn_visible_def split: option.splits if_splits)
  then show "sn_get i (rows_of sn_tenant (sc_tenant scope) rows) = Some s"
    using snapshots.get_rows_of [OF assms(2), of i "sc_tenant scope"] sn_visible_tenant [OF assms(1,3)] by simp
  assume "r \<in> set rows" "sn_id r = i"
  then show "sn_tenant r = sc_tenant scope"
    using unique_row [OF assms(2)] get sn_visible_tenant [OF assms(1,3)] unfolding sn_get_def by metis
qed

lemma patch_workspace_confined:
  assumes "unique_ids st" "sc_role scope = Operator"
  shows "confined (sc_tenant scope) (patch_workspace w scope i label) st"
proof (cases "ws_visible scope i (ct_ws st)")
  case None
  then show ?thesis
    using assms ws_visible_own [of "ct_ws st" scope i] by (simp add: confined_def patch_workspace_def unique_ids_def)
next
  case (Some ws)
  have ids: "distinct (map w_id (ct_ws st))"
    using assms(1) by (simp add: unique_ids_def)
  note g = ws_visible_get [OF Some ids assms(2)]
  let ?f = "\<lambda>w'. w'\<lparr>w_label := Some (unwrap_or (cw_slug w) (given_label label))\<rparr>"
  have "rows_of w_tenant (sc_tenant scope) (row_update w_id i ?f (ct_ws st)) =
      row_update w_id i ?f (rows_of w_tenant (sc_tenant scope) (ct_ws st))"
    "others_of w_tenant (sc_tenant scope) (row_update w_id i ?f (ct_ws st)) = others_of w_tenant (sc_tenant scope) (ct_ws st)"
    using row_update_views [of w_tenant ?f "ct_ws st" w_id i] g(3) by simp_all
  then show ?thesis
    using assms Some g ws_visible_own [OF ids assms(2), of i]
    by (simp add: confined_def patch_workspace_def ws_set_label_def own_view_ws other_rows_def unique_ids_def)
qed

lemma delete_workspace_confined:
  assumes "unique_ids st" "sc_role scope = Operator"
  shows "confined (sc_tenant scope) (delete_workspace w cfg scope i) st"
proof (cases "ws_visible scope i (ct_ws st)")
  case None
  then show ?thesis
    using assms ws_visible_own [of "ct_ws st" scope i] by (simp add: confined_def delete_workspace_def unique_ids_def)
next
  case (Some ws)
  have ids: "distinct (map w_id (ct_ws st))"
    using assms(1) by (simp add: unique_ids_def)
  note g = ws_visible_get [OF Some ids assms(2)]
  let ?f = "\<lambda>w'. w'\<lparr>w_deleted_at := Some (cw_now w)\<rparr>"
  have "rows_of w_tenant (sc_tenant scope) (row_update w_id i ?f (ct_ws st)) =
      row_update w_id i ?f (rows_of w_tenant (sc_tenant scope) (ct_ws st))"
    "others_of w_tenant (sc_tenant scope) (row_update w_id i ?f (ct_ws st)) = others_of w_tenant (sc_tenant scope) (ct_ws st)"
    using row_update_views [of w_tenant ?f "ct_ws st" w_id i] g(3) by simp_all
  then show ?thesis
    using assms Some g ws_visible_own [OF ids assms(2), of i]
    by (simp add: confined_def delete_workspace_def ws_mark_deleted_def forget_lock_def own_view_def other_rows_def unique_ids_def)
qed

lemma create_snapshot_confined:
  assumes "unique_ids st" "sc_role scope = Operator" "fresh_for (sc_tenant scope) w st"
  shows "confined (sc_tenant scope) (create_snapshot w cfg scope i name) st"
  using assms ws_visible_own [of "ct_ws st" scope i] record_snapshot_confined [OF assms(1) _ assms(3)]
  by (cases "ws_visible scope i (ct_ws st)")
    (auto simp: confined_def create_snapshot_def unique_ids_def dest: ws_visible_tenant)

lemma delete_snapshot_confined:
  assumes "unique_ids st" "sc_role scope = Operator"
  shows "confined (sc_tenant scope) (delete_snapshot scope i) st"
proof (cases "sn_visible scope i (ct_snaps st)")
  case None
  then show ?thesis
    using assms sn_visible_own [of "ct_snaps st" scope i] by (simp add: confined_def delete_snapshot_def unique_ids_def)
next
  case (Some s)
  have ids: "distinct (map sn_id (ct_snaps st))"
    using assms(1) by (simp add: unique_ids_def)
  note g = sn_visible_get [OF Some ids assms(2)]
  show ?thesis
    using assms Some g sn_visible_own [OF ids assms(2), of i] row_remove_views [of "ct_snaps st" sn_id i sn_tenant, OF g(3)]
      row_remove_distinct [OF ids]
    by (simp add: confined_def delete_snapshot_def sn_remove_def own_view_ws other_rows_def unique_ids_def)
qed

lemma from_snapshot_confined:
  assumes "unique_ids st" "sc_role scope = Operator" "fresh_for (sc_tenant scope) w st"
  shows "confined (sc_tenant scope) (create_workspace_from_snapshot w cfg scope s p label) st"
proof -
  let ?gate = "\<lambda>st. and_then (ok_or (no_snapshot s) (sn_visible scope s (ct_snaps st))) (\<lambda>snap.
        if trim p = [] then Err (BadRequest ''parent_workspace_id is required'')
        else if sn_workspace snap \<noteq> Some (trim p) then Err (no_snapshot s)
        else and_then (ok_or (no_snapshot s) (ws_visible scope (trim p) (ct_ws st))) (\<lambda>parent. Ok (snap, parent)))"
  have gate: "?gate (own_view (sc_tenant scope) st) = ?gate st"
    using assms ws_visible_own [of "ct_ws st" scope] sn_visible_own [of "ct_snaps st" scope] by (simp add: unique_ids_def cong: if_cong)
  show ?thesis
  proof (cases "?gate st")
    case (Inl e)
    then show ?thesis
      using assms(1) gate unfolding confined_def create_workspace_from_snapshot_def by simp
  next
    case (Inr q)
    obtain snap parent where q: "q = (snap, parent)"
      by fastforce
    have parent: "ws_visible scope (trim p) (ct_ws st) = Some parent"
      using Inr by (auto simp: q and_then_Ok_iff split: if_splits)
    have "confined (sc_tenant scope) (\<lambda>st. case rehydrate w cfg (sn_path snap) parent (cw_ids w 0)
        (unwrap_or (cw_slug w) (given_label label)) st of (r, st) \<Rightarrow> (and_then r (\<lambda>ws. Ok (redact_for scope ws)), st)) st"
      using assms ws_visible_tenant [OF parent] by (intro confined_map rehydrate_confined) (auto simp: fresh_for_def)
    then show ?thesis
      using gate Inr unfolding confined_def create_workspace_from_snapshot_def q by simp
  qed
qed

lemma lists_own:
  assumes "unique_ids st" "sc_role scope = Operator"
  shows "list_workspaces cfg scope limit offset q (own_view (sc_tenant scope) st) = list_workspaces cfg scope limit offset q st"
    "list_snapshots cfg scope ws limit offset q (own_view (sc_tenant scope) st) = list_snapshots cfg scope ws limit offset q st"
    "get_workspace scope i (own_view (sc_tenant scope) st) = get_workspace scope i st"
    "get_snapshot scope i (own_view (sc_tenant scope) st) = get_snapshot scope i st"
    "get_snapshot_manifest cfg scope i (own_view (sc_tenant scope) st) = get_snapshot_manifest cfg scope i st"
  using assms ws_visible_own [of "ct_ws st" scope] sn_visible_own [of "ct_snaps st" scope]
  by (simp_all add: list_workspaces_def list_snapshots_def get_workspace_def get_snapshot_def get_snapshot_manifest_def
      tenant_filter_def is_admin_def ws_list_rows sn_list_rows rows_of_def unique_ids_def)

lemma serve_confined:
  assumes "unique_ids st" "sc_role scope = Operator" "fresh_for (sc_tenant scope) w st"
  shows "confined (sc_tenant scope) (serve w cfg scope rq) st"
proof (cases rq)
  case (CreateWorkspace req)
  then show ?thesis
    using confined_answer [OF create_workspace_confined [OF assms(1,3)]] by (simp add: serve_def [abs_def])
next
  case (ForkWorkspace i n label)
  then show ?thesis
    using confined_answer [OF fork_workspace_confined [OF assms]] by (simp add: serve_def [abs_def])
next
  case (PatchWorkspace i label)
  then show ?thesis
    using confined_answer [OF patch_workspace_confined [OF assms(1,2)]] by (simp add: serve_def [abs_def])
next
  case (DeleteWorkspace i)
  then show ?thesis
    using confined_answer [OF delete_workspace_confined [OF assms(1,2)]] by (simp add: serve_def [abs_def])
next
  case (CreateSnapshot i name)
  then show ?thesis
    using confined_answer [OF create_snapshot_confined [OF assms]] by (simp add: serve_def [abs_def])
next
  case (DeleteSnapshot i)
  then show ?thesis
    using confined_answer [OF delete_snapshot_confined [OF assms(1,2)]] by (simp add: serve_def [abs_def])
next
  case (FromSnapshot s p label)
  then show ?thesis
    using confined_answer [OF from_snapshot_confined [OF assms]] by (simp add: serve_def [abs_def])
qed (use assms in \<open>simp_all add: serve_def confined_def answer_def lists_own\<close>)

section \<open>Paths\<close>

definition plain_id :: "string \<Rightarrow> bool" where
  "plain_id i = (i \<noteq> [] \<and> CHR ''/'' \<notin> set i)"

definition ws_base :: "ctl_config \<Rightarrow> string" where
  "ws_base cfg = path_join (cc_state_dir cfg) ''workspaces''"

definition snap_base :: "ctl_config \<Rightarrow> string" where
  "snap_base cfg = path_join (cc_state_dir cfg) ''snapshots''"

lemma path_join_name:
  assumes "plain_id i" "a \<noteq> []" "\<not> ends_with a ''/''"
  shows "path_join a i = a @ ''/'' @ i"
  using assms by (auto simp: path_join_def is_absolute_def plain_id_def starts_with_iff)

lemma base_ends:
  "ws_base cfg \<noteq> []" "\<not> ends_with (ws_base cfg) ''/''" "snap_base cfg \<noteq> []" "\<not> ends_with (snap_base cfg) ''/''"
  by (auto simp: ws_base_def snap_base_def path_join_def is_absolute_def ends_with_iff append_eq_append_conv2 Cons_eq_append_conv
      append_eq_Cons_conv starts_with_iff)

lemma path_forms:
  assumes "plain_id i"
  shows "ws_root cfg i = ws_base cfg @ ''/'' @ i" "ws_source cfg i = ws_base cfg @ ''/'' @ i @ ''/source''"
    "ws_output cfg i = ws_base cfg @ ''/'' @ i @ ''/output''" "snap_path cfg i = snap_base cfg @ ''/'' @ i"
proof -
  show root: "ws_root cfg i = ws_base cfg @ ''/'' @ i"
    unfolding ws_root_def ws_base_def [symmetric] using path_join_name [OF assms base_ends(1,2)] by simp
  have "\<not> ends_with (ws_root cfg i) ''/''" "ws_root cfg i \<noteq> []"
    using assms by (auto simp: root plain_id_def ends_with_iff append_eq_append_conv2 Cons_eq_append_conv append_eq_Cons_conv)
  then show "ws_source cfg i = ws_base cfg @ ''/'' @ i @ ''/source''" "ws_output cfg i = ws_base cfg @ ''/'' @ i @ ''/output''"
    using path_join_name [of "''source''" "ws_root cfg i"] path_join_name [of "''output''" "ws_root cfg i"]
    by (simp_all add: ws_source_def ws_output_def plain_id_def root)
  show "snap_path cfg i = snap_base cfg @ ''/'' @ i"
    unfolding snap_path_def snap_base_def [symmetric] using path_join_name [OF assms base_ends(3,4)] by simp
qed

lemma bases: "\<exists>x. ws_base cfg = x @ ''workspaces'' \<and> snap_base cfg = x @ ''snapshots''"
  by (auto simp: ws_base_def snap_base_def path_join_def is_absolute_def starts_with_iff)

lemma below_child:
  assumes "plain_id i" "plain_id j" "rest = [] \<or> hd rest = CHR ''/''" "below (base @ ''/'' @ i) (base @ ''/'' @ j @ rest)"
  shows "i = j"
proof -
  have first: "takeWhile (\<lambda>c. c \<noteq> CHR ''/'') (k @ r) = k" if "plain_id k" "r = [] \<or> hd r = CHR ''/''" for k r
    using that by (cases r) (auto simp: plain_id_def takeWhile_append takeWhile_eq_all_conv)
  obtain r where "j @ rest = i @ r" "r = [] \<or> hd r = CHR ''/''"
    using assms(4) by (auto simp: below_def starts_with_iff)
  then show ?thesis
    using first [OF assms(2,3)] first [OF assms(1)] by metis
qed

lemma paths_apart:
  assumes "plain_id i" "plain_id j"
  shows "i \<noteq> j \<Longrightarrow> \<not> below (ws_root cfg i) (ws_source cfg j)" "i \<noteq> j \<Longrightarrow> \<not> below (ws_root cfg i) (ws_output cfg j)"
    "i \<noteq> j \<Longrightarrow> \<not> below (snap_path cfg i) (snap_path cfg j)"
    "\<not> below (snap_path cfg i) (ws_source cfg j)" "\<not> below (snap_path cfg i) (ws_output cfg j)"
    "\<not> below (ws_root cfg i) (snap_path cfg j)"
    "below (ws_root cfg i) (ws_source cfg i)" "below (ws_root cfg i) (ws_output cfg i)"
proof -
  obtain x where "ws_base cfg = x @ ''workspaces''" "snap_base cfg = x @ ''snapshots''"
    using bases by blast
  then show "\<not> below (snap_path cfg i) (ws_source cfg j)" "\<not> below (snap_path cfg i) (ws_output cfg j)"
    "\<not> below (ws_root cfg i) (snap_path cfg j)"
    by (auto simp: path_forms assms below_def starts_with_iff)
  show "below (ws_root cfg i) (ws_source cfg i)" "below (ws_root cfg i) (ws_output cfg i)"
    by (auto simp: path_forms assms below_def starts_with_iff)
qed (use below_child [OF assms, of "''/source''" "ws_base cfg"] below_child [OF assms, of "''/output''" "ws_base cfg"]
      below_child [OF assms, of "[]" "snap_base cfg"] in \<open>auto simp: path_forms assms\<close>)

section \<open>Other tenants' directories\<close>

text \<open>The entries of a set of paths stay, and (\<open>b\<close>) so does every file.\<close>

definition same_at :: "bool \<Rightarrow> string set \<Rightarrow> disk \<Rightarrow> disk \<Rightarrow> bool" where
  "same_at b F dk dk' =
     ((\<forall>p \<in> F. dir_at p dk' = dir_at p dk \<and> manifest_at p dk' = manifest_at p dk) \<and>
      (b \<and> store_ok (ps_store (dk_ps dk)) \<longrightarrow> extends (ps_store (dk_ps dk)) (ps_store (dk_ps dk'))))"

lemma same_at_refl [simp]: "same_at b F dk dk"
  by (simp add: same_at_def extends_refl)

lemma same_at_trans: "same_at b F dk dk' \<Longrightarrow> same_at b F dk' dk'' \<Longrightarrow> same_at b F dk dk''"
  by (auto simp: same_at_def intro: extends_trans dest: extends_store_ok)

lemma same_at_ops:
  "p \<notin> F \<Longrightarrow> same_at b F dk (put_dir p d dk)" "p \<notin> F \<Longrightarrow> same_at b F dk (create_dir_all p dk)"
  "(\<forall>q \<in> F. \<not> below p q) \<Longrightarrow> same_at b F dk (remove_dir_all p dk)"
  by (auto simp: same_at_def create_dir_all_at extends_refl)

lemma same_at_put:
  assumes "p \<notin> F" "b \<Longrightarrow> store_ok (ps_store (dk_ps dk)) \<Longrightarrow> extends (ps_store (dk_ps dk)) (ps_store ps)"
  shows "same_at b F dk (put_dir p d (dk\<lparr>dk_ps := ps\<rparr>))"
  using assms by (auto simp: same_at_def)

lemma copy_extends:
  "store_ok st \<Longrightarrow> copy_dir_recursive now d st = Ok (d', st') \<Longrightarrow> extends st st'"
  unfolding copy_dir_recursive_def
proof (induction d arbitrary: st d' st' rule: dir_induct)
  case (Dir name sub es)
  then obtain d1 s1 d2 where 1: "copy_dir_with (\<lambda>n st. case fs_copy_new now n st of Inl e \<Rightarrow> Err (SnapshotError e) | Inr r \<Rightarrow> Ok r) sub st = Ok (d1, s1)"
    and 2: "copy_dir_with (\<lambda>n st. case fs_copy_new now n st of Inl e \<Rightarrow> Err (SnapshotError e) | Inr r \<Rightarrow> Ok r) es s1 = Ok (d2, st')"
    by (auto simp: and_then_Ok_iff)
  have "extends st s1"
    using Dir.IH(1) [OF Dir.prems(1) 1] .
  then show ?case
    using Dir.IH(2) [OF extends_store_ok 2] extends_trans by blast
next
  case (File name i es)
  then obtain j s1 d2 f where 1: "alloc (f\<lparr>fd_mtime := now\<rparr>) st = (j, s1)"
    and 2: "copy_dir_with (\<lambda>n st. case fs_copy_new now n st of Inl e \<Rightarrow> Err (SnapshotError e) | Inr r \<Rightarrow> Ok r) es s1 = Ok (d2, st')"
    by (auto simp: and_then_Ok_iff fs_copy_new_def split: option.splits)
  have "extends st s1"
    using alloc_extends [OF File.prems(1) 1] by simp
  then show ?case
    using File.IH [OF extends_store_ok 2] extends_trans by blast
qed (auto simp: extends_refl fs_copy_new_def)

lemma copied_before_extends:
  "store_ok st \<Longrightarrow> copied_before now d st = (ok, d', st') \<Longrightarrow> extends st st'"
proof (induction now d st arbitrary: ok d' st' rule: copied_before.induct)
  case (3 now name sub es st)
  obtain ok1 d1 s1 where 1: "copied_before now sub st = (ok1, d1, s1)"
    by (cases "copied_before now sub st") auto
  have "extends st s1"
    using "3.IH"(1) [OF "3.prems"(1) 1] .
  then show ?case
    using "3.IH"(2) [OF 1 [symmetric] _ _ extends_store_ok] "3.prems"(2) 1
    by (cases ok1) (auto intro: extends_trans split: prod.splits)
next
  case (4 now name i es st)
  show ?case
  proof (cases "is_data st i")
    case (Some f)
    obtain j s1 where 1: "alloc (f\<lparr>fd_mtime := now\<rparr>) st = (j, s1)"
      by fastforce
    then have "extends st s1"
      using alloc_extends [OF "4.prems"(1)] by simp
    then show ?thesis
      using "4.IH" [of "(j, s1)" j s1] "4.prems"(2) Some 1
      by (auto simp: fs_copy_new_def intro: extends_trans extends_store_ok split: prod.splits)
  qed (use 4 in \<open>simp add: fs_copy_new_def extends_refl\<close>)
qed (simp_all add: extends_refl)

lemma capture_same_at:
  assumes "capture_snapshot sf now src dir dk = Ok (n, dk')" "dir \<notin> F" "b \<Longrightarrow> sf_pool sf = None"
  shows "same_at b F dk dk'"
proof (cases "sf_pool sf")
  case None
  then obtain d st where st: "snapshot_create now src (dir_at src dk) (ps_store (dk_ps dk)) = Ok (d, st)"
    and dk': "dk' = put_dir dir d (dk\<lparr>dk_ps := (dk_ps dk)\<lparr>ps_store := st\<rparr>\<rparr>)"
    using assms(1) by (auto simp: capture_snapshot_def and_then_Ok_iff)
  show ?thesis
    unfolding dk' using assms(2) st
    by (intro same_at_put) (auto simp: snapshot_create_def dest: copy_extends split: option.splits)
next
  case (Some env)
  then show ?thesis
    using assms by (auto simp: capture_snapshot_def and_then_Ok_iff same_at_def manifest_at_def dir_at_def update_conv')
qed

lemma restore_same_at:
  assumes "restore_snapshot sf now dir target dk = (r, dk')" "target \<notin> F" "b \<Longrightarrow> sf_pool sf = None"
  shows "same_at b F dk dk'"
proof (cases "manifest_file sf dir dk")
  case None
  show ?thesis
  proof (cases "restore_to now dir (dir_at dir dk) (dir_at target dk) (ps_store (dk_ps dk))")
    case (Inr q)
    obtain d st where q: "q = (d, st)"
      by fastforce
    have "dk' = put_dir target d (dk\<lparr>dk_ps := (dk_ps dk)\<lparr>ps_store := st\<rparr>\<rparr>)"
      using assms(1) None Inr by (simp add: restore_snapshot_def q)
    then show ?thesis
      using Inr assms(2) unfolding q
      by (auto intro!: same_at_put simp: restore_to_def and_then_Ok_iff Let_def dest: copy_extends split: option.splits)
  next
    case (Inl e)
    show ?thesis
    proof (cases "dir_at dir dk")
      case (Some d)
      obtain ok d' st where copied: "copied_before now d (ps_store (dk_ps dk)) = (ok, d', st)"
        by (cases "copied_before now d (ps_store (dk_ps dk))") auto
      then have "dk' = put_dir target d' (dk\<lparr>dk_ps := (dk_ps dk)\<lparr>ps_store := st\<rparr>\<rparr>)"
        using assms(1) None Inl Some by (simp add: restore_snapshot_def)
      then show ?thesis
        using assms(2) copied_before_extends [OF _ copied] by (auto intro!: same_at_put)
    qed (use assms(1) None Inl in \<open>simp add: restore_snapshot_def\<close>)
  qed
next
  case (Some m)
  then show ?thesis
    using assms by (cases "sf_pool sf") (auto simp: restore_snapshot_def put_tree_def intro!: same_at_put split: option.splits sum.splits)
qed

lemma make_dirs_same_at:
  "make_dirs w cfg i dk = (r, dk') \<Longrightarrow> ws_source cfg i \<notin> F \<Longrightarrow> ws_output cfg i \<notin> F \<Longrightarrow> same_at b F dk dk'"
  by (auto simp: make_dirs_def Let_def split: sum.splits intro: same_at_ops same_at_trans)

text \<open>A clone adds files.\<close>

definition clone_adds :: "ctl_world \<Rightarrow> bool" where
  "clone_adds w = (\<forall>st. store_ok st \<longrightarrow> extends st (snd (cw_checkout w st)))"

lemma clone_same_at:
  "clone_into w cfg g p dk = (r, dk') \<Longrightarrow> p \<notin> F \<Longrightarrow> clone_adds w \<Longrightarrow> same_at b F dk dk'"
  by (cases "cw_checkout w (ps_store (dk_ps dk))")
    (auto simp: clone_into_def Let_def clone_adds_def intro!: same_at_put split: prod.splits)

text \<open>Paths apart from what a call may create.\<close>

definition avoids :: "ctl_config \<Rightarrow> bool \<Rightarrow> string set \<Rightarrow> ctl_world \<Rightarrow> bool" where
  "avoids cfg b F w =
     ((b \<longrightarrow> sf_pool (cc_snap cfg) = None) \<and> clone_adds w \<and>
      (\<forall>k. plain_id (cw_ids w k) \<and> (\<forall>p \<in> F. \<not> below (ws_root cfg (cw_ids w k)) p)) \<and>
      (\<forall>p \<in> F. \<not> below (snap_path cfg (cw_snap_id w)) p))"

lemma avoidsD:
  assumes "avoids cfg b F w"
  shows "ws_source cfg (cw_ids w k) \<notin> F" "ws_output cfg (cw_ids w k) \<notin> F" "snap_path cfg (cw_snap_id w) \<notin> F"
    "\<forall>p \<in> F. \<not> below (ws_root cfg (cw_ids w k)) p" "\<forall>p \<in> F. \<not> below (snap_path cfg (cw_snap_id w)) p"
    "b \<Longrightarrow> sf_pool (cc_snap cfg) = None" "clone_adds w"
  using assms paths_apart(7,8) [of "cw_ids w k" "cw_ids w k" cfg] unfolding avoids_def by (auto simp: below_def)

lemma record_snapshot_same:
  assumes "avoids cfg b F w" "record_snapshot w cfg ws name st = (r, st')"
  shows "same_at b F (ct_disk st) (ct_disk st')"
proof (cases "capture_snapshot (cc_snap cfg) (cw_mtime w) (w_source_dir ws) (snap_path cfg (cw_snap_id w)) (ct_disk st)")
  case (Inl e)
  with assms(2) show ?thesis
    by (simp add: record_snapshot_def)
next
  case (Inr p)
  obtain n dk where p: "p = (n, dk)"
    by fastforce
  have "same_at b F (ct_disk st) dk" "same_at b F dk (remove_dir_all (snap_path cfg (cw_snap_id w)) dk)"
    using capture_same_at [OF Inr [unfolded p]] same_at_ops(3) avoidsD [OF assms(1)] by auto
  then show ?thesis
    using assms(2) Inr by (auto simp: record_snapshot_def p Let_def split: sum.splits intro: same_at_trans)
qed

lemma rehydrate_same:
  assumes "avoids cfg b F w" "rehydrate w cfg dir parent (cw_ids w k) label st = (r, st')"
  shows "same_at b F (ct_disk st) (ct_disk st')"
proof -
  obtain r1 dk where 1: "make_dirs w cfg (cw_ids w k) (ct_disk st) = (r1, dk)"
    by fastforce
  obtain r2 dk' where 2: "restore_snapshot (cc_snap cfg) (cw_mtime w) dir (ws_source cfg (cw_ids w k)) dk = (r2, dk')"
    by fastforce
  have "same_at b F (ct_disk st) dk" "same_at b F dk dk'" "same_at b F dk' (remove_dir_all (ws_root cfg (cw_ids w k)) dk')"
    using make_dirs_same_at [OF 1] restore_same_at [OF 2] avoidsD(1,2,4) [OF assms(1), of k] avoidsD(6) [OF assms(1)] same_at_ops(3) by auto
  then show ?thesis
    using assms(2) 1 2 by (auto simp: rehydrate_def Let_def split: sum.splits intro: same_at_trans)
qed

lemma fork_workspaces_same:
  "avoids cfg b F w \<Longrightarrow> fork_workspaces w cfg dir parent label k n st = (r, st') \<Longrightarrow> same_at b F (ct_disk st) (ct_disk st')"
proof (induction n arbitrary: k r st st')
  case (Suc n)
  obtain r1 st1 where 1: "rehydrate w cfg dir parent (cw_ids w k) (fork_label label parent k) st = (r1, st1)"
    by fastforce
  obtain r2 st2 where 2: "fork_workspaces w cfg dir parent label (Suc k) n st1 = (r2, st2)"
    by fastforce
  show ?case
    using Suc.prems(2) rehydrate_same [OF Suc.prems(1) 1] Suc.IH [OF Suc.prems(1) 2] 1 2
    by (cases r1) (auto intro: same_at_trans)
qed simp

lemma create_workspace_same:
  assumes "avoids cfg b F w" "create_workspace w cfg scope req st = (r, st')"
  shows "same_at b F (ct_disk st) (ct_disk st')"
proof -
  let ?i = "cw_ids w 0"
  obtain r1 dk where 1: "make_dirs w cfg ?i (ct_disk st) = (r1, dk)"
    by fastforce
  obtain r2 dk' where 2: "(case cq_git req of Some g \<Rightarrow> clone_into w cfg g (ws_source cfg ?i) dk | None \<Rightarrow> (Ok (), dk)) = (r2, dk')"
    by fastforce
  have "same_at b F (ct_disk st) dk" "same_at b F dk dk'" "same_at b F dk' (remove_dir_all (ws_root cfg ?i) dk')"
    using make_dirs_same_at [OF 1] avoidsD(1,2,4) [OF assms(1), of 0] avoidsD(7) [OF assms(1)] same_at_ops(3) 2
    by (auto simp: clone_same_at split: option.splits)
  then show ?thesis
    using assms(2) 1 2 by (auto simp: create_workspace_def Let_def split: sum.splits intro: same_at_trans)
qed

lemma answer_eq: "answer f p = (r, st') \<longleftrightarrow> (\<exists>a. p = (a, st') \<and> r = and_then a (\<lambda>x. Ok (f x)))"
  by (cases p) (auto simp: answer_def)

lemma fork_workspace_same:
  assumes "avoids cfg b F w" "fork_workspace w cfg scope i n label st = (r, st')"
  shows "same_at b F (ct_disk st) (ct_disk st')"
proof (cases "(n = 0 \<or> 16 < n) \<or> ws_visible scope i (ct_ws st) = None")
  case True
  with assms(2) show ?thesis
    by (auto simp: fork_workspace_def split: if_splits)
next
  case False
  then obtain parent where parent: "ws_visible scope i (ct_ws st) = Some parent" and n: "\<not> (n = 0 \<or> 16 < n)"
    by auto
  obtain r1 st1 where 1: "record_snapshot w cfg parent (Some (''fork-origin:'' @ w_id parent)) st = (r1, st1)"
    by fastforce
  note same1 = record_snapshot_same [OF assms(1) 1]
  show ?thesis
  proof (cases r1)
    case (Inl e)
    then show ?thesis
      using assms(2) parent n 1 same1 by (simp add: fork_workspace_def)
  next
    case (Inr snap)
    obtain r2 st2 where 2: "fork_workspaces w cfg (sn_path snap) parent label 0 n st1 = (r2, st2)"
      by fastforce
    then have "st' = st2"
      using assms(2) parent n 1 Inr by (simp add: fork_workspace_def)
    then show ?thesis
      using same_at_trans [OF same1 fork_workspaces_same [OF assms(1) 2]] by simp
  qed
qed

lemma delete_same:
  assumes "sc_role scope = Operator"
    and "\<forall>ws \<in> set (ct_ws st). w_tenant ws = sc_tenant scope \<longrightarrow> (\<forall>p \<in> F. \<not> below (ws_root cfg (w_id ws)) p)"
    and "\<forall>s \<in> set (ct_snaps st). sn_tenant s = sc_tenant scope \<longrightarrow> (\<forall>p \<in> F. \<not> below (sn_path s) p)"
  shows "same_at b F (ct_disk st) (ct_disk (snd (delete_workspace w cfg scope i st)))"
    "same_at b F (ct_disk st) (ct_disk (snd (delete_snapshot scope i st)))"
proof -
  show "same_at b F (ct_disk st) (ct_disk (snd (delete_workspace w cfg scope i st)))"
  proof (cases "ws_visible scope i (ct_ws st)")
    case (Some ws)
    then have "ws_get i (ct_ws st) = Some ws" "w_tenant ws = sc_tenant scope"
      using ws_visible_tenant [OF Some assms(1)] by (auto simp: ws_visible_def split: option.splits if_splits)
    then show ?thesis
      using Some assms(2) workspaces.get_some [of i "ct_ws st" ws]
      by (auto simp: delete_workspace_def ws_mark_deleted_def forget_lock_def intro!: same_at_ops(3))
  qed (simp add: delete_workspace_def)
  show "same_at b F (ct_disk st) (ct_disk (snd (delete_snapshot scope i st)))"
  proof (cases "sn_visible scope i (ct_snaps st)")
    case (Some s)
    then have "sn_get i (ct_snaps st) = Some s" "sn_tenant s = sc_tenant scope"
      using sn_visible_tenant [OF Some assms(1)] by (auto simp: sn_visible_def split: option.splits if_splits)
    then show ?thesis
      using Some assms(3) snapshots.get_some [of i "ct_snaps st" s]
      by (auto simp: delete_snapshot_def sn_remove_def intro!: same_at_ops(3))
  qed (simp add: delete_snapshot_def)
qed

lemma from_snapshot_same:
  assumes "avoids cfg b F w" "create_workspace_from_snapshot w cfg scope s p label st = (r, st')"
  shows "same_at b F (ct_disk st) (ct_disk st')"
proof -
  have "st' = st \<or> (\<exists>dir parent r'. rehydrate w cfg dir parent (cw_ids w 0)
      (unwrap_or (cw_slug w) (given_label label)) st = (r', st'))"
    using assms(2) unfolding create_workspace_from_snapshot_def
    by (simp split: sum.splits prod.splits) blast
  then show ?thesis
    using rehydrate_same [OF assms(1)] by auto
qed

lemma serve_same:
  assumes "avoids cfg b F w" "sc_role scope = Operator" "serve w cfg scope rq st = (r, st')"
    and "\<forall>ws \<in> set (ct_ws st). w_tenant ws = sc_tenant scope \<longrightarrow> (\<forall>p \<in> F. \<not> below (ws_root cfg (w_id ws)) p)"
    and "\<forall>s \<in> set (ct_snaps st). sn_tenant s = sc_tenant scope \<longrightarrow> (\<forall>p \<in> F. \<not> below (sn_path s) p)"
  shows "same_at b F (ct_disk st) (ct_disk st')"
proof (cases rq)
  case (PatchWorkspace i label)
  with assms(3) show ?thesis
    by (auto simp: serve_def answer_eq patch_workspace_def split: if_splits prod.splits)
next
  case (CreateSnapshot i name)
  with assms(3) show ?thesis
    using record_snapshot_same [OF assms(1)]
    by (auto simp: serve_def answer_eq create_snapshot_def split: option.splits)
next
  case (DeleteWorkspace i)
  then have "st' = snd (delete_workspace w cfg scope i st)"
    using assms(3) by (simp add: serve_def answer_def)
  then show ?thesis
    using delete_same(1) [OF assms(2,4,5)] by simp
next
  case (DeleteSnapshot i)
  then have "st' = snd (delete_snapshot scope i st)"
    using assms(3) by (simp add: serve_def answer_def)
  then show ?thesis
    using delete_same(2) [OF assms(2,4,5)] by simp
qed (use assms(3) create_workspace_same [OF assms(1)] fork_workspace_same [OF assms(1)] from_snapshot_same [OF assms(1)] in
    \<open>auto simp: serve_def answer_eq\<close>)

text \<open>Rows as the handlers write them: the directories of a workspace and of a snapshot follow from
  its id, which is a plain name.\<close>

definition laid_out :: "ctl_config \<Rightarrow> ctl_state \<Rightarrow> bool" where
  "laid_out cfg st =
     ((\<forall>ws \<in> set (ct_ws st). plain_id (w_id ws) \<and> w_source_dir ws = ws_source cfg (w_id ws) \<and>
         w_output_dir ws = ws_output cfg (w_id ws)) \<and>
      (\<forall>s \<in> set (ct_snaps st). plain_id (sn_id s) \<and> sn_path s = snap_path cfg (sn_id s)))"

definition foreign_paths :: "string \<Rightarrow> ctl_state \<Rightarrow> string set" where
  "foreign_paths t st =
     w_source_dir ` set (fst (other_rows t st)) \<union> w_output_dir ` set (fst (other_rows t st)) \<union>
     sn_path ` set (snd (other_rows t st))"

lemma foreign_apart:
  assumes "unique_ids st" "laid_out cfg st" "p \<in> foreign_paths t st" "plain_id i"
  shows "(\<forall>ws \<in> set (fst (other_rows t st)). w_id ws \<noteq> i) \<Longrightarrow> \<not> below (ws_root cfg i) p"
    "(\<forall>s \<in> set (snd (other_rows t st)). sn_id s \<noteq> i) \<Longrightarrow> \<not> below (snap_path cfg i) p"
proof -
  consider ws where "ws \<in> set (fst (other_rows t st))" "p = ws_source cfg (w_id ws) \<or> p = ws_output cfg (w_id ws)" "plain_id (w_id ws)"
    | s where "s \<in> set (snd (other_rows t st))" "p = snap_path cfg (sn_id s)" "plain_id (sn_id s)"
    using assms(2,3) by (auto simp: foreign_paths_def other_rows_def others_of_def laid_out_def)
  then show "(\<forall>ws \<in> set (fst (other_rows t st)). w_id ws \<noteq> i) \<Longrightarrow> \<not> below (ws_root cfg i) p"
    "(\<forall>s \<in> set (snd (other_rows t st)). sn_id s \<noteq> i) \<Longrightarrow> \<not> below (snap_path cfg i) p"
    using paths_apart [OF assms(4)] by (metis (full_types))+
qed

lemma serve_foreign:
  assumes "unique_ids st" "laid_out cfg st" "sc_role scope = Operator"
    "fresh_for (sc_tenant scope) w st" "\<forall>k. plain_id (cw_ids w k)" "plain_id (cw_snap_id w)" "clone_adds w"
    "serve w cfg scope rq st = (r, st')"
  shows "same_at (sf_pool (cc_snap cfg) = None) (foreign_paths (sc_tenant scope) st) (ct_disk st) (ct_disk st')"
proof (rule serve_same [OF _ assms(3,8)])
  note apart = foreign_apart [OF assms(1,2)]
  have ids: "\<forall>ws \<in> set (fst (other_rows (sc_tenant scope) st)). w_id ws \<noteq> cw_ids w k" for k
    using assms(4) unfolding fresh_for_def other_rows_def by (metis fst_conv image_eqI)
  have snap: "\<forall>s \<in> set (snd (other_rows (sc_tenant scope) st)). sn_id s \<noteq> cw_snap_id w"
    using assms(4) unfolding fresh_for_def other_rows_def by (metis snd_conv image_eqI)
  show "avoids cfg (sf_pool (cc_snap cfg) = None) (foreign_paths (sc_tenant scope) st) w"
    using assms(5-7) apart(1) [OF _ _ ids] apart(2) [OF _ _ snap] by (auto simp: avoids_def)
  have plain: "plain_id (w_id ws)" if "ws \<in> set (ct_ws st)" for ws
    using assms(2) that by (simp add: laid_out_def)
  show "\<forall>ws \<in> set (ct_ws st). w_tenant ws = sc_tenant scope \<longrightarrow>
      (\<forall>p \<in> foreign_paths (sc_tenant scope) st. \<not> below (ws_root cfg (w_id ws)) p)"
  proof (intro ballI impI)
    fix ws p
    assume ws: "ws \<in> set (ct_ws st)" "w_tenant ws = sc_tenant scope" and p: "p \<in> foreign_paths (sc_tenant scope) st"
    have "w_id ws' \<noteq> w_id ws" if "ws' \<in> set (fst (other_rows (sc_tenant scope) st))" for ws'
      using that assms(1) ws by (auto simp: unique_ids_def other_rows_def others_of_def distinct_map inj_on_def)
    then show "\<not> below (ws_root cfg (w_id ws)) p"
      using apart(1) [OF p plain [OF ws(1)]] by blast
  qed
  show "\<forall>s \<in> set (ct_snaps st). sn_tenant s = sc_tenant scope \<longrightarrow>
      (\<forall>p \<in> foreign_paths (sc_tenant scope) st. \<not> below (sn_path s) p)"
  proof (intro ballI impI)
    fix s p
    assume s: "s \<in> set (ct_snaps st)" "sn_tenant s = sc_tenant scope" and p: "p \<in> foreign_paths (sc_tenant scope) st"
    have "sn_id s' \<noteq> sn_id s" if "s' \<in> set (snd (other_rows (sc_tenant scope) st))" for s'
      using that assms(1) s by (auto simp: unique_ids_def other_rows_def others_of_def distinct_map inj_on_def)
    then show "\<not> below (sn_path s) p"
      using apart(2) [OF p, of "sn_id s"] assms(2) s(1) by (auto simp: laid_out_def)
  qed
qed

text \<open>C2. Tenants are isolated.  For an operator, every call of the workspace and snapshot routes gives
  the answer, and the change to the operator's own rows and to the disk, that the service would give
  if the operator's tenant were the only one.  The rows of all other tenants stay as they are, and so
  do their source, output and snapshot directories; without a snapshot pool every file that exists
  keeps its contents.  New ids are those of no row of another tenant, and a clone only adds files.\<close>
theorem tenant_isolation:
  assumes wf: "unique_ids st" "laid_out cfg st" "store_ok (ps_store (dk_ps (ct_disk st)))"
    and operator: "sc_role scope = Operator"
    and world: "fresh_for (sc_tenant scope) w st" "\<forall>k. plain_id (cw_ids w k)" "plain_id (cw_snap_id w)" "clone_adds w"
    and call: "serve w cfg scope rq st = (r, st')"
  shows "serve w cfg scope rq (own_view (sc_tenant scope) st) = (r, own_view (sc_tenant scope) st') \<and>
    other_rows (sc_tenant scope) st' = other_rows (sc_tenant scope) st \<and>
    (\<forall>ws \<in> set (fst (other_rows (sc_tenant scope) st)).
       dir_at (w_source_dir ws) (ct_disk st') = dir_at (w_source_dir ws) (ct_disk st) \<and>
       dir_at (w_output_dir ws) (ct_disk st') = dir_at (w_output_dir ws) (ct_disk st)) \<and>
    (\<forall>s \<in> set (snd (other_rows (sc_tenant scope) st)).
       dir_at (sn_path s) (ct_disk st') = dir_at (sn_path s) (ct_disk st) \<and>
       manifest_at (sn_path s) (ct_disk st') = manifest_at (sn_path s) (ct_disk st)) \<and>
    (sf_pool (cc_snap cfg) = None \<longrightarrow> extends (ps_store (dk_ps (ct_disk st))) (ps_store (dk_ps (ct_disk st'))))"
  using serve_confined [OF wf(1) operator world(1), of cfg rq] wf(3) call
    serve_foreign [OF wf(1,2) operator world call]
  by (auto simp: confined_def same_at_def foreign_paths_def)

definition demo_spec :: workspace_spec where
  "demo_spec = \<lparr>wsp_memory_mb = 512, wsp_timeout_secs = 300, wsp_cpu_percent = 100, wsp_max_pids = 64,
     wsp_network_mode = ''none'', wsp_network_domains = [], wsp_seccomp = ''standard'', wsp_idle_timeout_secs = 60,
     wsp_flavors = []\<rparr>"

definition demo_cfg :: ctl_config where
  "demo_cfg = \<lparr>cc_state_dir = ''/s'', cc_exec = Some exec_config_default,
     cc_snap = \<lparr>sf_pool = None, sf_parse = (\<lambda>_. None)\<rparr>, cc_is_root = True, cc_host_clone = False,
     cc_lower = map ascii_lower, cc_debug = (\<lambda>s. s)\<rparr>"

definition demo_ctl_world :: ctl_world where
  "demo_ctl_world = \<lparr>cw_now = 7, cw_mtime = 1, cw_ids = (\<lambda>k. ''wrk_'' @ replicate (Suc k) (CHR ''n'')), cw_snap_id = ''snap_n'', cw_slug = ''calm-fox-0001'',
     cw_mkdir = (\<lambda>_. Ok ()), cw_host = demo_clone_host, cw_scratch = Ok ''/tmp/x'', cw_git_run = demo_clone_run,
     cw_checkout = (\<lambda>st. ([], st)), cw_flavors = [], cw_new = (\<lambda>_. Ok ())\<rparr>"

definition demo_row :: "string \<Rightarrow> string \<Rightarrow> workspace" where
  "demo_row i t = new_row demo_ctl_world demo_cfg i t demo_spec (None, None) None []"

definition demo_inodes :: inode_store where
  "demo_inodes = \<lparr>is_next = 1, is_data = [0 \<mapsto> \<lparr>fd_content = ''hi'', fd_mode = 420, fd_mtime = 0\<rparr>]\<rparr>"

definition demo_ctl :: ctl_state where
  "demo_ctl = \<lparr>ct_ws = [demo_row ''wrk_a'' ''acme'', demo_row ''wrk_b'' ''beta''], ct_snaps = [],
     ct_disk = \<lparr>dk_dirs = [(''/s/workspaces/wrk_a/source'', [(''f'', FsFile 0)]), (''/s/workspaces/wrk_b/source'', [])],
                dk_manifests = [], dk_ps = \<lparr>ps_pool = [], ps_store = demo_inodes\<rparr>\<rparr>,
     ct_slots = [], ct_held = [], ct_next_lock = 0, ct_permits = 2, ct_cgroups = [], ct_ips = [], ct_ledger = ledger_new\<rparr>"

lemma demo_ctl_ok:
  "unique_ids demo_ctl" "laid_out demo_cfg demo_ctl" "store_ok (ps_store (dk_ps (ct_disk demo_ctl)))"
  "fresh_for ''acme'' demo_ctl_world demo_ctl" "\<forall>k. plain_id (cw_ids demo_ctl_world k)"
  "plain_id (cw_snap_id demo_ctl_world)" "clone_adds demo_ctl_world"
  by (auto simp: unique_ids_def laid_out_def store_ok_def fresh_for_def plain_id_def clone_adds_def demo_ctl_def demo_inodes_def
      demo_ctl_world_def demo_row_def new_row_def others_of_def extends_refl)

theorem tenant_isolation_witness:
  "\<exists>st'. serve demo_ctl_world demo_cfg \<lparr>sc_tenant = ''acme'', sc_role = Operator\<rparr> (DeleteWorkspace ''wrk_a'') demo_ctl =
       (Ok AnsNone, st') \<and>
     other_rows ''acme'' st' = ([demo_row ''wrk_b'' ''beta''], []) \<and>
     dir_at ''/s/workspaces/wrk_b/source'' (ct_disk st') = Some []"
proof -
  let ?scope = "\<lparr>sc_tenant = ''acme'', sc_role = Operator\<rparr>"
  have "fst (serve demo_ctl_world demo_cfg ?scope (DeleteWorkspace ''wrk_a'') demo_ctl) = Ok AnsNone"
    by (simp add: serve_def answer_def delete_workspace_def ws_visible_def ws_get_def row_get_def ws_live_def demo_ctl_def
        demo_row_def new_row_def can_see_def ws_mark_deleted_def)
  then obtain st' where call: "serve demo_ctl_world demo_cfg ?scope (DeleteWorkspace ''wrk_a'') demo_ctl = (Ok AnsNone, st')"
    by (metis prod.collapse)
  have "w_source_dir (demo_row ''wrk_b'' ''beta'') = ''/s/workspaces/wrk_b/source''"
    by (simp add: demo_row_def new_row_def path_forms plain_id_def ws_base_def demo_cfg_def path_join_def is_absolute_def
        starts_with_iff ends_with_iff)
  moreover have "other_rows ''acme'' demo_ctl = ([demo_row ''wrk_b'' ''beta''], [])"
    "dir_at ''/s/workspaces/wrk_b/source'' (ct_disk demo_ctl) = Some []"
    by (simp_all add: other_rows_def others_of_def demo_ctl_def demo_row_def new_row_def dir_at_def)
  ultimately show ?thesis
    using tenant_isolation [OF demo_ctl_ok(1-3), of ?scope demo_ctl_world "DeleteWorkspace ''wrk_a''" "Ok AnsNone" st'] call demo_ctl_ok(4-7)
    by auto
qed

end
