(* ===== verification/Workspace_Life.thy ===== *)
theory Workspace_Life
  imports Workspace_Isolation
begin

text \<open>
  The life of a workspace: the idle reaper (\<open>agentjail-ctl/src/workspaces/idle.rs\<close>), the garbage
  collection of snapshots (\<open>snapshots.rs\<close>), the reconciliation at startup (\<open>routes/workspaces.rs\<close>) and
  the interleavings of requests, executions and sweeps.
\<close>

section \<open>The idle reaper\<close>

text \<open>Whether a workspace has been idle for longer than its limit; \<open>None\<close> is the panic of the
  subtraction.\<close>

definition idle_due :: "int \<Rightarrow> workspace \<Rightarrow> bool option" where
  "idle_due now ws =
     (if w_paused_at ws \<noteq> None \<or> wsp_idle_timeout_secs (w_config ws) = 0 then Some False
      else map_option (\<lambda>cutoff. unwrap_or (w_created_at ws) (w_last_exec_at ws) < cutoff)
             (offset_add now (- as_i64 (wsp_idle_timeout_secs (w_config ws)) * NANOS)))"

definition pause_one :: "ctl_world \<Rightarrow> ctl_config \<Rightarrow> workspace \<Rightarrow> ctl_state \<Rightarrow> bool \<times> ctl_state" where
  "pause_one w cfg ws st =
     (case record_snapshot w cfg ws (Some (''auto:'' @ w_id ws)) st of
        (Inl e, st) \<Rightarrow> (False, st)
      | (Inr snap, st) \<Rightarrow>
          (True, st\<lparr>ct_disk := wipe_dir_contents (w_source_dir ws) (ct_disk st),
                    ct_ws := ws_mark_paused (cw_now w) (w_id ws) (sn_id snap) (ct_ws st)\<rparr>))"

text \<open>The loop over the rows that were listed; each capture has an id of its own.  A panic ends the
  sweeper.\<close>

fun reap_rows :: "ctl_world \<Rightarrow> ctl_config \<Rightarrow> (nat \<Rightarrow> string) \<Rightarrow> nat \<Rightarrow> workspace list \<Rightarrow> ctl_state \<Rightarrow> nat option \<times> ctl_state" where
  "reap_rows w cfg ids k [] st = (Some 0, st)"
| "reap_rows w cfg ids k (ws # rows) st =
     (case idle_due (cw_now w) ws of
        None \<Rightarrow> (None, st)
      | Some False \<Rightarrow> reap_rows w cfg ids (Suc k) rows st
      | Some True \<Rightarrow>
          (case pause_one (w\<lparr>cw_snap_id := ids k\<rparr>) cfg ws st of
             (ok, st) \<Rightarrow>
               (case reap_rows w cfg ids (Suc k) rows st of
                  (n, st) \<Rightarrow> (map_option (\<lambda>n. if ok then Suc n else n) n, st))))"

definition reaper_run_once ::
  "ctl_world \<Rightarrow> ctl_config \<Rightarrow> (nat \<Rightarrow> string) \<Rightarrow> ctl_state \<Rightarrow> nat option \<times> ctl_state" where
  "reaper_run_once w cfg ids st = reap_rows w cfg ids 0 (fst (ws_list (cc_lower cfg) None 500 0 None (ct_ws st))) st"

section \<open>Garbage collection of snapshots\<close>

record gc_config =
  gc_max_age_secs :: "nat option"
  gc_max_count :: "nat option"

definition gc_enabled :: "gc_config \<Rightarrow> bool" where
  "gc_enabled gc = (gc_max_age_secs gc \<noteq> None \<or> gc_max_count gc \<noteq> None)"

fun dedup_by :: "('a \<Rightarrow> 'k) \<Rightarrow> 'a list \<Rightarrow> 'a list" where
  "dedup_by key (x # y # xs) = (if key x = key y then dedup_by key (x # xs) else x # dedup_by key (y # xs))"
| "dedup_by key xs = xs"

definition gc_victims :: "int \<Rightarrow> gc_config \<Rightarrow> snapshot_record list \<Rightarrow> snapshot_record list option" where
  "gc_victims now gc rows =
     map_option (\<lambda>old.
         dedup_by sn_id (foldr (insort_by (\<lambda>a b. str_le (sn_id a) (sn_id b)))
           (old @ (case gc_max_count gc of
                     Some n \<Rightarrow> if n < length rows then take (length rows - n) (rev rows) else []
                   | None \<Rightarrow> [])) []))
       (case gc_max_age_secs gc of
          None \<Rightarrow> Some []
        | Some secs \<Rightarrow>
            map_option (\<lambda>cutoff. filter (\<lambda>r. sn_created_at r < cutoff) rows) (offset_add now (- as_i64 secs * NANOS)))"

definition gc_remove :: "snapshot_record \<Rightarrow> nat \<times> ctl_state \<Rightarrow> nat \<times> ctl_state" where
  "gc_remove r nst =
     (case nst of (n, st) \<Rightarrow>
        (case sn_remove (sn_id r) (ct_snaps st) of
           (found, rows) \<Rightarrow>
             (if found = None then n else Suc n, st\<lparr>ct_snaps := rows, ct_disk := remove_dir_all (sn_path r) (ct_disk st)\<rparr>)))"

definition gc_run_once :: "ctl_config \<Rightarrow> int \<Rightarrow> gc_config \<Rightarrow> ctl_state \<Rightarrow> nat option \<times> ctl_state" where
  "gc_run_once cfg now gc st =
     (if \<not> gc_enabled gc then (Some 0, st)
      else case gc_victims now gc (fst (sn_list (cc_lower cfg) None None 10000 0 None (ct_snaps st))) of
             None \<Rightarrow> (None, st)
           | Some victims \<Rightarrow> (case fold gc_remove victims (0, st) of (n, st) \<Rightarrow> (Some n, st)))"

section \<open>Startup\<close>

definition reconcile_row :: "ctl_world \<Rightarrow> ctl_config \<Rightarrow> (string \<Rightarrow> string) \<Rightarrow> workspace \<Rightarrow> ctl_state \<Rightarrow> ctl_state" where
  "reconcile_row w cfg slugs ws st =
     (if \<not> path_exists (ws_root cfg (w_id ws)) (ct_disk st)
      then st\<lparr>ct_ws := snd (ws_mark_deleted (cw_now w) (w_id ws) (ct_ws st))\<rparr>
      else if given_label (w_label ws) = None
      then st\<lparr>ct_ws := snd (ws_set_label (w_id ws) (Some (slugs (w_id ws))) (ct_ws st))\<rparr>
      else st)"

definition reconcile_on_startup :: "ctl_world \<Rightarrow> ctl_config \<Rightarrow> (string \<Rightarrow> string) \<Rightarrow> ctl_state \<Rightarrow> ctl_state" where
  "reconcile_on_startup w cfg slugs st =
     fold (reconcile_row w cfg slugs) (fst (ws_list (cc_lower cfg) None 500 0 None (ct_ws st))) st"

section \<open>Interleavings\<close>

text \<open>The state of the control plane, the executions that have looked up their workspace but not yet
  taken its lock, those that run, with what they have registered, the rows that a sweep of the
  reaper has listed and not yet come to, and the number of permits held by the routes that run a jail
  outside the workspaces (sessions, runs, forks, streams), which share the semaphore.  An execution is
  running until its registrations are dropped; its process may have ended before, and then it writes
  no more.\<close>

record system =
  sy_ctl :: ctl_state
  sy_pending :: "(workspace \<times> ws_exec_request) list"
  sy_running :: "(running \<times> string option \<times> string option) list"
  sy_sweep :: "workspace list"
  sy_others :: nat

text \<open>Ids are plain names: a prefix and hexadecimal digits.\<close>

definition plain_world :: "ctl_world \<Rightarrow> bool" where
  "plain_world w = ((\<forall>k. plain_id (cw_ids w k)) \<and> plain_id (cw_snap_id w))"

inductive sys_step :: "ctl_config \<Rightarrow> gc_config \<Rightarrow> system \<Rightarrow> system \<Rightarrow> bool" for cfg gc where
  Serve: "plain_world w \<Longrightarrow> serve w cfg scope rq (sy_ctl s) = (r, st) \<Longrightarrow>
    sys_step cfg gc s (s\<lparr>sy_ctl := st\<rparr>)"
| Lookup: "ws_exec_lookup cfg scope i (sy_ctl s) = Ok ws \<Longrightarrow>
    sys_step cfg gc s (s\<lparr>sy_pending := (ws, req) # sy_pending s\<rparr>)"
| Enter: "(ws, req) \<in> set (sy_pending s) \<Longrightarrow> ws_exec_enter w cfg ws req (sy_ctl s) = (Inr rn, st) \<Longrightarrow>
    sys_step cfg gc s (s\<lparr>sy_ctl := ws_exec_register rn cgroup ip st, sy_pending := remove1 (ws, req) (sy_pending s),
      sy_running := (rn, cgroup, ip) # sy_running s\<rparr>)"
| Refuse: "(ws, req) \<in> set (sy_pending s) \<Longrightarrow> ws_exec_enter w cfg ws req (sy_ctl s) = (Inl e, st) \<Longrightarrow>
    sys_step cfg gc s (s\<lparr>sy_ctl := st, sy_pending := remove1 (ws, req) (sy_pending s)\<rparr>)"
| Write: "(rn, cgroup, ip) \<in> set (sy_running s) \<Longrightarrow>
    sys_step cfg gc s (s\<lparr>sy_ctl := ws_exec_write rn d store (sy_ctl s)\<rparr>)"
| Leave: "(rn, cgroup, ip) \<in> set (sy_running s) \<Longrightarrow>
    ws_exec_leave show_err now rn cgroup ip outcome (sy_ctl s) = (r, st) \<Longrightarrow>
    sys_step cfg gc s (s\<lparr>sy_ctl := st, sy_running := remove1 (rn, cgroup, ip) (sy_running s)\<rparr>)"
| Sweep: "sy_sweep s = [] \<Longrightarrow>
    sys_step cfg gc s (s\<lparr>sy_sweep := fst (ws_list (cc_lower cfg) None 500 0 None (ct_ws (sy_ctl s)))\<rparr>)"
| Reap: "sy_sweep s = ws # rows \<Longrightarrow> idle_due (cw_now w) ws = Some due \<Longrightarrow> plain_world w \<Longrightarrow>
    st = (if due then snd (pause_one w cfg ws (sy_ctl s)) else sy_ctl s) \<Longrightarrow>
    sys_step cfg gc s (s\<lparr>sy_ctl := st, sy_sweep := rows\<rparr>)"
| Acquire: "0 < ct_permits (sy_ctl s) \<Longrightarrow>
    sys_step cfg gc s (s\<lparr>sy_ctl := (sy_ctl s)\<lparr>ct_permits := ct_permits (sy_ctl s) - 1\<rparr>, sy_others := sy_others s + 1\<rparr>)"
| Release: "0 < sy_others s \<Longrightarrow>
    sys_step cfg gc s (s\<lparr>sy_ctl := (sy_ctl s)\<lparr>ct_permits := ct_permits (sy_ctl s) + 1\<rparr>, sy_others := sy_others s - 1\<rparr>)"
| Collect: "gc_run_once cfg now gc (sy_ctl s) = (n, st) \<Longrightarrow> sys_step cfg gc s (s\<lparr>sy_ctl := st\<rparr>)"

definition sys_init :: "nat \<Rightarrow> disk \<Rightarrow> system" where
  "sys_init permits dk =
     \<lparr>sy_ctl = \<lparr>ct_ws = [], ct_snaps = [], ct_disk = dk, ct_slots = [], ct_held = [], ct_next_lock = 0,
                ct_permits = permits, ct_cgroups = [], ct_ips = [], ct_ledger = ledger_new\<rparr>,
      sy_pending = [], sy_running = [], sy_sweep = [], sy_others = 0\<rparr>"

inductive sys_reach :: "ctl_config \<Rightarrow> gc_config \<Rightarrow> nat \<Rightarrow> system \<Rightarrow> bool" for cfg gc permits where
  Start: "sys_reach cfg gc permits (sys_init permits dk)"
| Step: "sys_reach cfg gc permits s \<Longrightarrow> sys_step cfg gc s s' \<Longrightarrow> sys_reach cfg gc permits s'"

section \<open>What every step keeps\<close>

definition all_ids :: "ctl_state \<Rightarrow> string set" where
  "all_ids st = w_id ` set (ct_ws st)"

definition live_ids :: "ctl_state \<Rightarrow> string set" where
  "live_ids st = w_id ` {r \<in> set (ct_ws st). ws_live r}"

text \<open>A change by anything but an execution: no row goes, no deleted row comes back, the slot of a live
  workspace stays, and so do the held locks and the permits; the rows remain well-formed.\<close>

definition grows :: "ctl_config \<Rightarrow> ctl_state \<Rightarrow> ctl_state \<Rightarrow> bool" where
  "grows cfg st st' =
     (all_ids st \<subseteq> all_ids st' \<and> live_ids st' \<inter> all_ids st \<subseteq> live_ids st \<and>
      (unique_ids st \<longrightarrow> unique_ids st') \<and> (laid_out cfg st \<longrightarrow> laid_out cfg st') \<and>
      (unique_ids st \<longrightarrow> (\<forall>i \<in> live_ids st' \<inter> all_ids st. map_of (ct_slots st') i = map_of (ct_slots st) i)) \<and>
      set (ct_slots st') \<subseteq> set (ct_slots st) \<and> (distinct (map fst (ct_slots st)) \<longrightarrow> distinct (map fst (ct_slots st'))) \<and>
      ct_held st' = ct_held st \<and> ct_next_lock st' = ct_next_lock st \<and> ct_permits st' = ct_permits st)"

lemma grows_refl [simp]: "grows cfg st st"
  by (simp add: grows_def)

lemma grows_trans:
  assumes "grows cfg a b" "grows cfg b c"
  shows "grows cfg a c"
proof -
  note ab = assms(1) [unfolded grows_def] and bc = assms(2) [unfolded grows_def]
  have live: "i \<in> live_ids b \<inter> all_ids a \<and> i \<in> live_ids c \<inter> all_ids b" if "i \<in> live_ids c \<inter> all_ids a" for i
    using that ab bc by blast
  have "map_of (ct_slots c) i = map_of (ct_slots a) i" if "unique_ids a" "i \<in> live_ids c \<inter> all_ids a" for i
    using live [OF that(2)] that(1) ab bc by metis
  moreover have "live_ids c \<inter> all_ids a \<subseteq> live_ids a"
    using live ab by blast
  moreover have "all_ids a \<subseteq> all_ids c" "set (ct_slots c) \<subseteq> set (ct_slots a)"
    using ab bc by blast+
  ultimately show ?thesis
    using ab bc unfolding grows_def by simp
qed

lemma grows_disk [simp]: "grows cfg st (st\<lparr>ct_disk := dk\<rparr>)"
  by (simp add: grows_def all_ids_def live_ids_def laid_out_def)

lemma grows_update:
  assumes "\<And>r. w_id (f r) = w_id r" "\<And>r. w_source_dir (f r) = w_source_dir r" "\<And>r. w_output_dir (f r) = w_output_dir r"
    "\<And>r. ws_live (f r) \<Longrightarrow> ws_live r"
  shows "grows cfg st (st\<lparr>ct_ws := row_update w_id i f (ct_ws st)\<rparr>)"
proof -
  have keys: "map w_id (row_update w_id i f (ct_ws st)) = map w_id (ct_ws st)"
    using row_update_keys [of w_id f] assms(1) by blast
  have mem: "\<exists>r \<in> set (ct_ws st). w_id r = w_id r' \<and> w_source_dir r = w_source_dir r' \<and> w_output_dir r = w_output_dir r' \<and>
      (ws_live r' \<longrightarrow> ws_live r)" if "r' \<in> set (row_update w_id i f (ct_ws st))" for r'
    using that assms by (auto simp: row_update_def)
  have "all_ids (st\<lparr>ct_ws := row_update w_id i f (ct_ws st)\<rparr>) = all_ids st"
    using arg_cong [OF keys, of set] by (simp add: all_ids_def)
  moreover have "live_ids (st\<lparr>ct_ws := row_update w_id i f (ct_ws st)\<rparr>) \<subseteq> live_ids st"
  proof
    fix x
    assume "x \<in> live_ids (st\<lparr>ct_ws := row_update w_id i f (ct_ws st)\<rparr>)"
    then obtain r' where "r' \<in> set (row_update w_id i f (ct_ws st))" "ws_live r'" "x = w_id r'"
      by (auto simp: live_ids_def)
    then show "x \<in> live_ids st"
      using mem [of r'] unfolding live_ids_def by (metis (mono_tags, lifting) image_eqI mem_Collect_eq)
  qed
  moreover have "laid_out cfg st \<Longrightarrow> laid_out cfg (st\<lparr>ct_ws := row_update w_id i f (ct_ws st)\<rparr>)"
    using mem unfolding laid_out_def by (simp, metis)
  ultimately show ?thesis
    using keys by (auto simp: grows_def unique_ids_def)
qed

lemma grows_insert:
  assumes "ws_insert ws (ct_ws st) = Ok rows" "plain_id (w_id ws)" "w_source_dir ws = ws_source cfg (w_id ws)"
    "w_output_dir ws = ws_output cfg (w_id ws)"
  shows "grows cfg st (st\<lparr>ct_ws := rows, ct_disk := dk\<rparr>)"
  using assms workspaces.insert_distinct [OF assms(1)] assms(1) [unfolded workspaces.insert_ok]
  by (auto simp: grows_def all_ids_def live_ids_def unique_ids_def laid_out_def)

lemma grows_insert_snap:
  assumes "sn_insert s (ct_snaps st) = Ok rows" "plain_id (sn_id s)" "sn_path s = snap_path cfg (sn_id s)"
  shows "grows cfg st (st\<lparr>ct_snaps := rows, ct_disk := dk\<rparr>)"
  using assms snapshots.insert_distinct [OF assms(1)] assms(1) [unfolded snapshots.insert_ok]
  by (auto simp: grows_def all_ids_def live_ids_def unique_ids_def laid_out_def)

lemma grows_remove_snap:
  "grows cfg st (st\<lparr>ct_snaps := row_remove sn_id i (ct_snaps st)\<rparr>)"
  "grows cfg st (st\<lparr>ct_snaps := row_remove sn_id i (ct_snaps st), ct_disk := dk\<rparr>)"
  using row_remove_distinct [of sn_id "ct_snaps st" i]
  by (auto simp: grows_def all_ids_def live_ids_def unique_ids_def laid_out_def row_remove_def)

lemma grows_forget:
  assumes "i \<notin> live_ids st"
  shows "grows cfg st (forget_lock i st)"
proof -
  have "map_of (AList.delete i (ct_slots st)) j = map_of (ct_slots st) j" if "j \<in> live_ids st" for j
    using that assms by (auto simp: delete_conv')
  moreover have "set (AList.delete i (ct_slots st)) \<subseteq> set (ct_slots st)"
    by (auto simp: AList.delete_eq)
  moreover have "distinct (map fst (ct_slots st)) \<Longrightarrow> distinct (map fst (AList.delete i (ct_slots st)))"
    by (rule distinct_delete)
  ultimately show ?thesis
    by (simp add: grows_def forget_lock_def all_ids_def live_ids_def unique_ids_def laid_out_def)
qed

lemma delete_workspace_grows:
  assumes "delete_workspace w cfg scope i st = (r, st')"
  shows "grows cfg st st'"
proof (cases "ws_visible scope i (ct_ws st)")
  case (Some ws)
  let ?st = "st\<lparr>ct_ws := row_update w_id i (\<lambda>w'. w'\<lparr>w_deleted_at := Some (cw_now w)\<rparr>) (ct_ws st),
    ct_disk := remove_dir_all (ws_root cfg i) (ct_disk st)\<rparr>"
  have ws: "ws_get i (ct_ws st) = Some ws" "w_id ws = i"
    using Some workspaces.get_some [of i "ct_ws st" ws] by (auto simp: ws_visible_def split: option.splits if_splits)
  then have st': "st' = forget_lock i ?st"
    using assms Some by (simp add: delete_workspace_def ws_mark_deleted_def)
  have "grows cfg st (st\<lparr>ct_ws := row_update w_id i (\<lambda>w'. w'\<lparr>w_deleted_at := Some (cw_now w)\<rparr>) (ct_ws st)\<rparr>)"
    by (rule grows_update) (simp_all add: ws_live_def)
  then have "grows cfg st ?st"
    by (rule grows_trans [OF _ grows_disk])
  moreover have "i \<notin> live_ids ?st"
  proof -
    have "w_id r' \<noteq> i" if live: "ws_live r'" and
      r': "r' \<in> set (row_update w_id i (\<lambda>w'. w'\<lparr>w_deleted_at := Some (cw_now w)\<rparr>) (ct_ws st))" for r'
    proof -
      obtain r where "r' = (if w_id r = i then r\<lparr>w_deleted_at := Some (cw_now w)\<rparr> else r)"
        using r' unfolding row_update_def set_map by blast
      with live show ?thesis
        by (cases "w_id r = i") (simp_all add: ws_live_def)
    qed
    then show ?thesis
      unfolding live_ids_def by simp blast
  qed
  ultimately show ?thesis
    unfolding st' by (rule grows_trans [OF _ grows_forget])
qed (use assms in \<open>simp add: delete_workspace_def\<close>)

lemma record_snapshot_grows:
  assumes "plain_world w" "record_snapshot w cfg ws name st = (r, st')"
  shows "grows cfg st st'"
  using assms by (auto simp: record_snapshot_def Let_def plain_world_def intro!: grows_insert_snap split: sum.splits)

lemma rehydrate_grows:
  assumes "plain_world w" "rehydrate w cfg dir parent (cw_ids w k) label st = (r, st')"
  shows "grows cfg st st'"
  using assms
  by (auto simp: rehydrate_def Let_def plain_world_def new_row_def and_then_Ok_iff intro!: grows_insert split: sum.splits prod.splits)

lemma fork_workspaces_grows:
  "plain_world w \<Longrightarrow> fork_workspaces w cfg dir parent label k n st = (r, st') \<Longrightarrow> grows cfg st st'"
proof (induction n arbitrary: k r st st')
  case (Suc n)
  obtain r1 st1 where 1: "rehydrate w cfg dir parent (cw_ids w k) (fork_label label parent k) st = (r1, st1)"
    by fastforce
  obtain r2 st2 where 2: "fork_workspaces w cfg dir parent label (Suc k) n st1 = (r2, st2)"
    by fastforce
  show ?case
    using Suc.prems(2) rehydrate_grows [OF Suc.prems(1) 1] Suc.IH [OF Suc.prems(1) 2] 1 2
    by (cases r1) (auto intro: grows_trans)
qed simp

lemma create_workspace_grows:
  assumes "plain_world w" "create_workspace w cfg scope req st = (r, st')"
  shows "grows cfg st st'"
  using assms
  by (auto simp: create_workspace_def Let_def plain_world_def new_row_def and_then_Ok_iff intro!: grows_insert
      split: sum.splits prod.splits)

lemma fork_workspace_grows:
  assumes "plain_world w" "fork_workspace w cfg scope i n label st = (r, st')"
  shows "grows cfg st st'"
proof (cases "(n = 0 \<or> 16 < n) \<or> ws_visible scope i (ct_ws st) = None")
  case True
  with assms(2) show ?thesis
    by (auto simp: fork_workspace_def split: if_splits)
next
  case False
  then obtain parent where parent: "ws_visible scope i (ct_ws st) = Some parent" and n: "\<not> (n = 0 \<or> 16 < n)"
    by auto
  obtain r1 st1 where 1: "record_snapshot w cfg parent (Some (''fork-origin:'' @ w_id parent)) st = (r1, st1)"
    by fastforce
  have "\<exists>dir r2. fork_workspaces w cfg dir parent label 0 n st1 = (r2, st') \<or> st' = st1"
    using assms(2) parent n 1 by (cases r1) (auto simp: fork_workspace_def split: prod.splits)
  then show ?thesis
    using record_snapshot_grows [OF assms(1) 1] fork_workspaces_grows [OF assms(1)] grows_trans by metis
qed

lemma serve_grows:
  assumes "plain_world w" "serve w cfg scope rq st = (r, st')"
  shows "grows cfg st st'"
proof (cases rq)
  case (CreateWorkspace req)
  with assms(2) create_workspace_grows [OF assms(1)] show ?thesis
    by (auto simp: serve_def answer_eq)
next
  case (ForkWorkspace i n label)
  with assms(2) fork_workspace_grows [OF assms(1)] show ?thesis
    by (auto simp: serve_def answer_eq)
next
  case (PatchWorkspace i label)
  have "grows cfg st (st\<lparr>ct_ws := row_update w_id i (\<lambda>w'. w'\<lparr>w_label := l\<rparr>) (ct_ws st)\<rparr>)" for l
    by (rule grows_update) (simp_all add: ws_live_def)
  with PatchWorkspace assms(2) show ?thesis
    by (auto simp: serve_def answer_eq patch_workspace_def ws_set_label_def split: if_splits option.splits)
next
  case (DeleteWorkspace i)
  with assms(2) delete_workspace_grows show ?thesis
    by (auto simp: serve_def answer_eq)
next
  case (CreateSnapshot i name)
  with assms(2) record_snapshot_grows [OF assms(1)] show ?thesis
    by (auto simp: serve_def answer_eq create_snapshot_def split: option.splits)
next
  case (DeleteSnapshot i)
  with assms(2) show ?thesis
    by (auto intro: grows_remove_snap simp: serve_def answer_eq delete_snapshot_def sn_remove_def split: if_splits option.splits)
next
  case (FromSnapshot sn p label)
  have "st' = st \<or> (\<exists>dir parent r'. rehydrate w cfg dir parent (cw_ids w 0)
      (unwrap_or (cw_slug w) (given_label label)) st = (r', st'))"
    using assms(2) FromSnapshot unfolding serve_def create_workspace_from_snapshot_def
    by (simp add: answer_eq split: sum.splits prod.splits) blast
  then show ?thesis
    using rehydrate_grows [OF assms(1)] by auto
qed (use assms(2) in \<open>auto simp: serve_def answer_eq\<close>)

lemma pause_one_grows:
  assumes "plain_world w"
  shows "grows cfg st (snd (pause_one w cfg ws st))"
proof (cases "record_snapshot w cfg ws (Some (''auto:'' @ w_id ws)) st")
  case (Pair r st1)
  have "grows cfg (st1\<lparr>ct_disk := dk\<rparr>) (st1\<lparr>ct_disk := dk,
      ct_ws := row_update w_id i (\<lambda>w'. w'\<lparr>w_paused_at := p, w_auto_snapshot := q\<rparr>) (ct_ws st1)\<rparr>)" for dk i p q
    using grows_update [of "\<lambda>w'. w'\<lparr>w_paused_at := p, w_auto_snapshot := q\<rparr>" cfg "st1\<lparr>ct_disk := dk\<rparr>" i] by (simp add: ws_live_def)
  from grows_trans [OF grows_disk this] show ?thesis
    using Pair record_snapshot_grows [OF assms Pair]
    by (cases r) (auto simp: pause_one_def ws_mark_paused_def intro: grows_trans)
qed

lemma gc_grows: "gc_run_once cfg now gc st = (n, st') \<Longrightarrow> grows cfg st st'"
proof -
  have "grows cfg st (snd (fold gc_remove rs (k, st)))" for rs k st
  proof (induction rs arbitrary: k st)
    case (Cons r rs)
    obtain k' st1 where st1: "gc_remove r (k, st) = (k', st1)"
      by fastforce
    then have "grows cfg st st1"
      by (auto intro: grows_remove_snap simp: gc_remove_def sn_remove_def)
    then show ?case
      using Cons [of st1 k'] st1 by (auto intro: grows_trans)
  qed simp
  moreover assume "gc_run_once cfg now gc st = (n, st')"
  ultimately show ?thesis
    by (auto simp: gc_run_once_def split: if_splits option.splits prod.splits) (metis snd_conv)
qed

section \<open>Executions exclude each other\<close>

definition runs_ok :: "ctl_config \<Rightarrow> nat \<Rightarrow> ctl_state \<Rightarrow> running list \<Rightarrow> bool" where
  "runs_ok cfg permits st runs =
     (unique_ids st \<and> laid_out cfg st \<and> distinct (map fst (ct_slots st)) \<and>
      (\<forall>(i, n) \<in> set (ct_slots st). n < ct_next_lock st) \<and>
      set (ct_held st) = rn_lock ` set runs \<and> distinct (map rn_lock runs) \<and>
      (\<forall>rn \<in> set runs. rn_lock rn < ct_next_lock st \<and> w_id (rn_ws rn) \<in> all_ids st \<and>
         jc_source (rn_config rn) = ws_source cfg (w_id (rn_ws rn)) \<and>
         (w_id (rn_ws rn) \<in> live_ids st \<longrightarrow> map_of (ct_slots st) (w_id (rn_ws rn)) = Some (rn_lock rn))) \<and>
      ct_permits st + length runs = permits)"

lemma runs_ok_grows:
  assumes "runs_ok cfg permits st runs" "grows cfg st st'"
  shows "runs_ok cfg permits st' runs"
proof -
  note r = assms(1) [unfolded runs_ok_def] and g = assms(2) [unfolded grows_def]
  have "map_of (ct_slots st') (w_id (rn_ws rn)) = Some (rn_lock rn)"
    if "rn \<in> set runs" "w_id (rn_ws rn) \<in> live_ids st'" for rn
  proof -
    have "w_id (rn_ws rn) \<in> live_ids st' \<inter> all_ids st" "w_id (rn_ws rn) \<in> live_ids st"
      using that r g by blast+
    then show ?thesis
      using r g that(1) by metis
  qed
  moreover have "(\<forall>(i, n) \<in> set (ct_slots st'). n < ct_next_lock st')"
    using r g by fastforce
  moreover have "\<forall>rn \<in> set runs. w_id (rn_ws rn) \<in> all_ids st'"
    using r g by blast
  ultimately show ?thesis
    using r g unfolding runs_ok_def by simp
qed

lemma lock_for_ok:
  assumes "runs_ok cfg permits st runs" "lock_for i st = (n, st')"
  shows "runs_ok cfg permits st' runs" "map_of (ct_slots st') i = Some n" "n < ct_next_lock st'"
    "ct_held st' = ct_held st" "ct_ws st' = ct_ws st"
proof -
  note r = assms(1) [unfolded runs_ok_def]
  consider "map_of (ct_slots st) i = Some n" "st' = st"
    | "map_of (ct_slots st) i = None" "n = ct_next_lock st"
      "st' = st\<lparr>ct_slots := (i, n) # ct_slots st, ct_next_lock := n + 1\<rparr>"
    using assms(2) by (auto simp: lock_for_def split: option.splits)
  then have "runs_ok cfg permits st' runs \<and> map_of (ct_slots st') i = Some n \<and> n < ct_next_lock st' \<and>
      ct_held st' = ct_held st \<and> ct_ws st' = ct_ws st"
  proof cases
    case 1
    then show ?thesis
      using r assms(1) by (auto dest: map_of_SomeD)
  next
    case 2
    have slots: "i \<notin> fst ` set (ct_slots st)"
      using 2(1) by (simp add: map_of_eq_None_iff)
    have "unique_ids st' = unique_ids st" "laid_out cfg st' = laid_out cfg st" "all_ids st' = all_ids st" "live_ids st' = live_ids st"
      by (simp_all add: 2(3) unique_ids_def laid_out_def all_ids_def live_ids_def)
    moreover have "w_id (rn_ws rn) \<noteq> i" if "rn \<in> set runs" "w_id (rn_ws rn) \<in> live_ids st" for rn
      using r that 2(1) by fastforce
    ultimately show ?thesis
      using r slots unfolding runs_ok_def 2(2,3) by (auto simp: less_Suc_eq)
  qed
  then show "runs_ok cfg permits st' runs" "map_of (ct_slots st') i = Some n" "n < ct_next_lock st'"
    "ct_held st' = ct_held st" "ct_ws st' = ct_ws st"
    by simp_all
qed

lemma resume_grows: "ws_resume w cfg ws st = (r, st') \<Longrightarrow> grows cfg st st'"
proof -
  have "grows cfg st (st\<lparr>ct_disk := dk, ct_ws := snd (ws_mark_resumed i (ct_ws st))\<rparr>)" for dk i
  proof -
    have "grows cfg (st\<lparr>ct_disk := dk\<rparr>)
       (st\<lparr>ct_disk := dk, ct_ws := row_update w_id i (\<lambda>w'. w'\<lparr>w_paused_at := None, w_auto_snapshot := None\<rparr>) (ct_ws st)\<rparr>)"
      using grows_update [of "\<lambda>w'. w'\<lparr>w_paused_at := None, w_auto_snapshot := None\<rparr>" cfg "st\<lparr>ct_disk := dk\<rparr>" i]
      by (simp add: ws_live_def)
    from grows_trans [OF grows_disk this] show ?thesis
      by (auto simp: ws_mark_resumed_def split: option.splits)
  qed
  then show "ws_resume w cfg ws st = (r, st') \<Longrightarrow> grows cfg st st'"
    by (auto simp: ws_resume_def split: option.splits sum.splits prod.splits)
qed

lemma resume_frame: "ws_resume w cfg ws st = (r, st') \<Longrightarrow> ct_slots st' = ct_slots st"
  by (auto simp: ws_resume_def split: option.splits sum.splits prod.splits)

text \<open>An execution that enters.\<close>

lemma enter_Ok:
  assumes "ws_exec_enter w cfg ws req st = (Inr rn, st')"
  obtains n st1 st2 l where "lock_for (w_id ws) st = (n, st1)" "n \<notin> set (ct_held st1)" "ws_resume w cfg ws st1 = (Ok (), st2)"
    "rn_ws rn = ws" "rn_lock rn = n" "jc_source (rn_config rn) = w_source_dir ws" "0 < ct_permits st2"
    "st' = st2\<lparr>ct_ws := ws_touch (cw_now w) (w_id ws) (ct_ws st2), ct_ledger := l, ct_held := n # ct_held st2,
              ct_permits := ct_permits st2 - 1\<rparr>"
proof -
  obtain n st1 where lock: "lock_for (w_id ws) st = (n, st1)"
    by fastforce
  then have held: "n \<notin> set (ct_held st1)"
    using assms by (auto simp: ws_exec_enter_def split: if_splits)
  obtain r st2 where "ws_resume w cfg ws st1 = (r, st2)"
    by fastforce
  then have res: "ws_resume w cfg ws st1 = (Ok (), st2)"
    using assms lock held by (cases r) (auto simp: ws_exec_enter_def)
  obtain config options where plan: "ws_exec_plan w cfg ws req (ct_permits st2) = Ok (config, options)"
    using assms lock held res by (cases "ws_exec_plan w cfg ws req (ct_permits st2)") (auto simp: ws_exec_enter_def)
  have "jc_source config = w_source_dir ws" "0 < ct_permits st2"
    using plan by (auto simp: ws_exec_plan_def and_then_Ok_iff exec_jail_config_def Let_def split: if_splits)
  then show ?thesis
    using assms lock held res plan by (auto simp: ws_exec_enter_def Let_def split: prod.splits intro: that)
qed

lemma enter_Err:
  assumes "ws_exec_enter w cfg ws req st = (Inl e, st')" "runs_ok cfg permits st runs"
  shows "runs_ok cfg permits st' runs"
proof -
  obtain n st1 where lock: "lock_for (w_id ws) st = (n, st1)"
    by fastforce
  obtain r st2 where res: "ws_resume w cfg ws st1 = (r, st2)"
    by fastforce
  have "st' = st1 \<or> st' = st2"
    using assms(1) lock res by (cases r) (auto simp: ws_exec_enter_def Let_def split: if_splits sum.splits prod.splits)
  then show ?thesis
    using lock_for_ok(1) [OF assms(2) lock] runs_ok_grows [OF _ resume_grows [OF res]] by blast
qed

lemma enter_runs_ok:
  assumes enter: "ws_exec_enter w cfg ws req st = (Inr rn, st')" and ok: "runs_ok cfg permits st runs"
    and ws: "w_id ws \<in> all_ids st" "w_source_dir ws = ws_source cfg (w_id ws)"
  shows "runs_ok cfg permits st' (rn # runs)"
proof -
  obtain n st1 st2 l where lock: "lock_for (w_id ws) st = (n, st1)" and held: "n \<notin> set (ct_held st1)"
    and res: "ws_resume w cfg ws st1 = (Ok (), st2)"
    and rn: "rn_ws rn = ws" "rn_lock rn = n" "jc_source (rn_config rn) = w_source_dir ws" and permit: "0 < ct_permits st2"
    and st': "st' = st2\<lparr>ct_ws := ws_touch (cw_now w) (w_id ws) (ct_ws st2), ct_ledger := l, ct_held := n # ct_held st2,
              ct_permits := ct_permits st2 - 1\<rparr>"
    using enter_Ok [OF enter] by blast
  note one = lock_for_ok [OF ok lock]
  let ?st3 = "st2\<lparr>ct_ws := ws_touch (cw_now w) (w_id ws) (ct_ws st2)\<rparr>"
  have g: "grows cfg st1 ?st3"
    using grows_trans [OF resume_grows [OF res] grows_update [of "\<lambda>w'. w'\<lparr>w_last_exec_at := Some (cw_now w)\<rparr>" cfg st2 "w_id ws"]]
    by (simp add: ws_touch_def ws_live_def)
  note two = runs_ok_grows [OF one(1) g, unfolded runs_ok_def]
  have "w_id ws \<in> all_ids ?st3"
    using g ws(1) one(5) by (auto simp: grows_def all_ids_def)
  moreover have "ct_held ?st3 = ct_held st1" "ct_next_lock ?st3 = ct_next_lock st1" "ct_slots ?st3 = ct_slots st1"
    using g resume_frame [OF res] by (simp_all add: grows_def)
  moreover have "all_ids st' = all_ids ?st3" "live_ids st' = live_ids ?st3" "unique_ids st' = unique_ids ?st3"
    "laid_out cfg st' = laid_out cfg ?st3"
    by (simp_all add: st' all_ids_def live_ids_def unique_ids_def laid_out_def)
  ultimately show ?thesis
    using two one(2,3) held permit rn ws(2) unfolding runs_ok_def by (auto simp: st')
qed

lemma enter_ids: "ws_exec_enter w cfg ws req st = (r, st') \<Longrightarrow> all_ids st \<subseteq> all_ids st'"
proof -
  assume enter: "ws_exec_enter w cfg ws req st = (r, st')"
  obtain n st1 where lock: "lock_for (w_id ws) st = (n, st1)"
    by fastforce
  obtain r2 st2 where res: "ws_resume w cfg ws st1 = (r2, st2)"
    by fastforce
  have "ct_ws st' = ct_ws st1 \<or> ct_ws st' = ct_ws st2 \<or> ct_ws st' = ws_touch (cw_now w) (w_id ws) (ct_ws st2)"
    using enter lock res by (cases r2) (auto simp: ws_exec_enter_def Let_def split: if_splits sum.splits prod.splits)
  moreover have "w_id ` set (ws_touch now i rows) = w_id ` set rows" for now i rows
    unfolding ws_touch_def row_update_def set_map image_image by (rule image_cong) auto
  moreover have "ct_ws st1 = ct_ws st"
    using lock by (auto simp: lock_for_def split: option.splits)
  moreover have "all_ids st1 \<subseteq> all_ids st2"
    using resume_grows [OF res] by (simp add: grows_def)
  ultimately show ?thesis
    by (auto simp: all_ids_def)
qed

definition sys_inv :: "ctl_config \<Rightarrow> nat \<Rightarrow> system \<Rightarrow> bool" where
  "sys_inv cfg permits s =
     (sy_others s \<le> permits \<and> runs_ok cfg (permits - sy_others s) (sy_ctl s) (map fst (sy_running s)) \<and>
      (\<forall>(ws, req) \<in> set (sy_pending s). w_id ws \<in> all_ids (sy_ctl s) \<and> w_source_dir ws = ws_source cfg (w_id ws)))"

lemma sys_inv_init: "sys_inv cfg permits (sys_init permits dk)"
  by (simp add: sys_inv_def runs_ok_def sys_init_def unique_ids_def laid_out_def)

lemma sys_inv_grows: "sys_inv cfg permits s \<Longrightarrow> grows cfg (sy_ctl s) st \<Longrightarrow> sys_inv cfg permits (s\<lparr>sy_ctl := st\<rparr>)"
  using runs_ok_grows by (fastforce simp: sys_inv_def grows_def)

lemma runs_ok_register: "runs_ok cfg permits (ws_exec_register rn cgroup ip st) runs = runs_ok cfg permits st runs"
  "all_ids (ws_exec_register rn cgroup ip st) = all_ids st"
  by (simp_all add: ws_exec_register_def Let_def runs_ok_def unique_ids_def laid_out_def all_ids_def live_ids_def)

lemma runs_ok_permits:
  "unique_ids (st\<lparr>ct_permits := n\<rparr>) = unique_ids st" "laid_out cfg (st\<lparr>ct_permits := n\<rparr>) = laid_out cfg st"
  "all_ids (st\<lparr>ct_permits := n\<rparr>) = all_ids st" "live_ids (st\<lparr>ct_permits := n\<rparr>) = live_ids st"
  by (simp_all add: unique_ids_def laid_out_def all_ids_def live_ids_def)

lemma leave_runs_ok:
  assumes "runs_ok cfg permits st (map fst runs)" "(rn, cgroup, ip) \<in> set runs"
    "ws_exec_leave show_err now rn cgroup ip outcome st = (r, st')"
  shows "runs_ok cfg permits st' (map fst (remove1 (rn, cgroup, ip) runs))" "all_ids st' = all_ids st"
proof -
  note ok = assms(1) [unfolded runs_ok_def]
  have locks: "distinct (map (\<lambda>x. rn_lock (fst x)) runs)"
    using ok by (simp add: comp_def)
  have st': "ct_ws st' = ct_ws st" "ct_snaps st' = ct_snaps st" "ct_slots st' = ct_slots st" "ct_next_lock st' = ct_next_lock st"
    "ct_held st' = removeAll (rn_lock rn) (ct_held st)" "ct_permits st' = ct_permits st + 1"
    using assms(3) by (auto simp: ws_exec_leave_def Let_def split: prod.splits)
  have set: "set (remove1 (rn, cgroup, ip) runs) = set runs - {(rn, cgroup, ip)}"
    using locks by (simp add: set_remove1_eq distinct_map)
  have other: "rn_lock (fst x) \<noteq> rn_lock rn" if "x \<in> set runs" "x \<noteq> (rn, cgroup, ip)" for x
    using locks that assms(2) by (auto simp: distinct_map inj_on_def)
  have "set (ct_held st') = (\<lambda>x. rn_lock (fst x)) ` set (remove1 (rn, cgroup, ip) runs)"
    unfolding st' set using ok other by (auto simp: image_image)
  moreover have "distinct (map (\<lambda>x. rn_lock (fst x)) (remove1 (rn, cgroup, ip) runs))"
    using locks by (simp add: distinct_map inj_on_def set)
  moreover have "length (remove1 (rn, cgroup, ip) runs) + 1 = length runs"
    using assms(2) length_pos_if_in_set [OF assms(2)] by (simp add: length_remove1)
  moreover have "unique_ids st' = unique_ids st" "laid_out cfg st' = laid_out cfg st" "live_ids st' = live_ids st"
    by (simp_all add: st' unique_ids_def laid_out_def live_ids_def)
  moreover show "all_ids st' = all_ids st"
    by (simp add: st' all_ids_def)
  ultimately show "runs_ok cfg permits st' (map fst (remove1 (rn, cgroup, ip) runs))"
    using ok set unfolding runs_ok_def by (auto simp: st' comp_def image_image)
qed

lemma pending_remove:
  assumes "sys_inv cfg permits s" "all_ids (sy_ctl s) \<subseteq> all_ids st"
  shows "\<forall>(ws, req) \<in> set (remove1 x (sy_pending s)). w_id ws \<in> all_ids st \<and> w_source_dir ws = ws_source cfg (w_id ws)"
  using assms set_remove1_subset [of x "sy_pending s"] unfolding sys_inv_def by fastforce

lemma sys_inv_step:
  assumes "sys_inv cfg permits s" "sys_step cfg gc s s'"
  shows "sys_inv cfg permits s'"
  using assms(2,1)
proof (induction rule: sys_step.induct)
  case (Lookup scope i s ws req)
  then have "ws \<in> set (ct_ws (sy_ctl s))"
    using workspaces.get_some [of i "ct_ws (sy_ctl s)" ws]
    by (auto simp: ws_exec_lookup_def ws_visible_def split: if_splits option.splits)
  then show ?case
    using Lookup.prems by (auto simp: sys_inv_def runs_ok_def laid_out_def all_ids_def)
next
  case (Enter ws req s w rn st cgroup ip)
  then have "runs_ok cfg (permits - sy_others s) st (rn # map fst (sy_running s))"
    using enter_runs_ok [OF Enter(2)] by (fastforce simp: sys_inv_def)
  then show ?case
    using Enter.prems pending_remove [OF Enter.prems enter_ids [OF Enter(2)]] by (simp add: sys_inv_def runs_ok_register)
next
  case (Refuse ws req s w e st)
  then show ?case
    using enter_Err [OF Refuse(2)] pending_remove [OF Refuse.prems enter_ids [OF Refuse(2)]] by (simp add: sys_inv_def)
next
  case (Leave rn cgroup ip s show_err now outcome r st)
  then show ?case
    using leave_runs_ok [OF _ Leave(1,2)] by (auto simp: sys_inv_def)
next
  case (Serve w s scope rq r st)
  then show ?case
    using sys_inv_grows serve_grows by blast
next
  case (Write rn cgroup ip s d store)
  then show ?case
    using sys_inv_grows grows_disk unfolding ws_exec_write_def by blast
next
  case (Reap s ws rows w due st)
  then show ?case
    using sys_inv_grows [of cfg permits s st] pause_one_grows by (auto simp: sys_inv_def)
next
  case (Collect now s n st)
  then show ?case
    using sys_inv_grows gc_grows by blast
next
  case (Acquire s)
  then show ?case
    by (auto simp: sys_inv_def runs_ok_permits runs_ok_def)
next
  case (Release s)
  then show ?case
    by (auto simp: sys_inv_def runs_ok_permits runs_ok_def)
qed (simp add: sys_inv_def)

lemma sys_reach_inv: "sys_reach cfg gc permits s \<Longrightarrow> sys_inv cfg permits s"
  by (induction rule: sys_reach.induct) (auto intro: sys_inv_init sys_inv_step)

lemma busy_conflict:
  assumes "runs_ok cfg permits st runs" "rn \<in> set runs" "w_id (rn_ws rn) \<in> live_ids st" "w_id ws = w_id (rn_ws rn)"
  shows "ws_exec_enter w cfg ws req st = (Err (Conflict ''another exec is in flight against this workspace''), st)"
proof -
  have "map_of (ct_slots st) (w_id ws) = Some (rn_lock rn)" "rn_lock rn \<in> set (ct_held st)"
    using assms by (auto simp: runs_ok_def)
  then show ?thesis
    by (simp add: ws_exec_enter_def lock_for_def)
qed

lemma one_run:
  assumes "runs_ok cfg permits st runs" "i \<in> live_ids st"
  shows "length (filter (\<lambda>rn. w_id (rn_ws rn) = i) runs) \<le> 1"
proof -
  let ?rs = "filter (\<lambda>rn. w_id (rn_ws rn) = i) runs"
  define n where "n = the (map_of (ct_slots st) i)"
  have n: "rn_lock rn = n" if "rn \<in> set ?rs" for rn
  proof -
    have "map_of (ct_slots st) i = Some (rn_lock rn)"
      using that assms unfolding runs_ok_def by fastforce
    then show ?thesis
      by (simp add: n_def)
  qed
  have "distinct (map rn_lock ?rs)"
    using assms(1) by (simp add: runs_ok_def distinct_map_filter)
  moreover have "set (map rn_lock ?rs) \<subseteq> {n}"
    using n by auto
  ultimately have "length (map rn_lock ?rs) \<le> card {n}"
    by (metis card_mono distinct_card finite.emptyI finite.insertI)
  then show ?thesis
    by simp
qed

end
