(* ===== verification/Workspace_Races.thy ===== *)
theory Workspace_Races
  imports Workspace_Life
begin

text \<open>
  What holds of the life of a workspace in every interleaving, and what goes wrong in some: exclusive
  executions, pausing and resuming, and the workspaces that cannot be resumed.
\<close>

section \<open>Exclusive executions\<close>

text \<open>C3. Executions exclude each other.  In every interleaving of requests, executions, sweeps of the
  reaper and garbage collection, a workspace that is not deleted has at most one execution running,
  and while it has one every further execution is refused with a conflict; an execution runs in the
  source directory of its own workspace; the running executions, the permits the other routes hold and the
  free permits add up to the configured number; ids are unique, and directories follow from them.\<close>
theorem exec_exclusive:
  assumes "sys_reach cfg gc permits s"
  shows "(\<forall>i \<in> live_ids (sy_ctl s). length (filter (\<lambda>(rn, _). w_id (rn_ws rn) = i) (sy_running s)) \<le> 1) \<and>
    (\<forall>(rn, reg) \<in> set (sy_running s). jc_source (rn_config rn) = ws_source cfg (w_id (rn_ws rn)) \<and>
       (w_id (rn_ws rn) \<in> live_ids (sy_ctl s) \<longrightarrow>
         (\<forall>w ws req. w_id ws = w_id (rn_ws rn) \<longrightarrow>
           ws_exec_enter w cfg ws req (sy_ctl s) =
             (Err (Conflict ''another exec is in flight against this workspace''), sy_ctl s)))) \<and>
    length (sy_running s) + sy_others s + ct_permits (sy_ctl s) = permits \<and>
    unique_ids (sy_ctl s) \<and> laid_out cfg (sy_ctl s)"
proof -
  have ok: "runs_ok cfg (permits - sy_others s) (sy_ctl s) (map fst (sy_running s))" and others: "sy_others s \<le> permits"
    using sys_reach_inv [OF assms] by (simp_all add: sys_inv_def)
  have "length (filter (\<lambda>(rn, _). w_id (rn_ws rn) = i) (sy_running s)) \<le> 1" if "i \<in> live_ids (sy_ctl s)" for i
    using one_run [OF ok that] by (simp add: filter_map comp_def case_prod_unfold)
  moreover have "\<forall>(rn, reg) \<in> set (sy_running s). jc_source (rn_config rn) = ws_source cfg (w_id (rn_ws rn))"
    "length (sy_running s) + sy_others s + ct_permits (sy_ctl s) = permits" "unique_ids (sy_ctl s)" "laid_out cfg (sy_ctl s)"
    using ok others by (auto simp: runs_ok_def)
  moreover have "ws_exec_enter w cfg ws req (sy_ctl s) =
      (Err (Conflict ''another exec is in flight against this workspace''), sy_ctl s)"
    if "(rn, reg) \<in> set (sy_running s)" "w_id (rn_ws rn) \<in> live_ids (sy_ctl s)" "w_id ws = w_id (rn_ws rn)" for rn reg w ws req
    using that by (intro busy_conflict [OF ok, of rn]) (auto intro: rev_image_eqI)
  ultimately show ?thesis
    by blast
qed

text \<open>A concrete run: an operator creates a workspace and executes a command in it.\<close>

definition demo_operator :: tenant_scope where
  "demo_operator = \<lparr>sc_tenant = ''acme'', sc_role = Operator\<rparr>"

definition demo_create_request :: create_request where
  "demo_create_request = \<lparr>cq_git = None, cq_label = Some ''box'', cq_memory_mb = None, cq_timeout_secs = None,
     cq_idle_timeout_secs = Some 60, cq_domains = None, cq_flavors = None,
     cq_options = \<lparr>eo_network = None, eo_seccomp = None, eo_cpu_percent = None, eo_max_pids = None\<rparr>\<rparr>"

definition demo_exec_request :: ws_exec_request where
  "demo_exec_request = \<lparr>wq_cmd = ''ls'', wq_args = [], wq_timeout_secs = None, wq_memory_mb = None, wq_env = []\<rparr>"

definition demo_disk :: disk where
  "demo_disk = \<lparr>dk_dirs = [], dk_manifests = [], dk_ps = \<lparr>ps_pool = [], ps_store = demo_inodes\<rparr>\<rparr>"

definition demo_gc :: gc_config where
  "demo_gc = \<lparr>gc_max_age_secs = None, gc_max_count = None\<rparr>"

definition demo_workspace :: workspace where
  "demo_workspace = new_row demo_ctl_world demo_cfg ''wrk_n'' ''acme''
     (options_to_spec (cq_options demo_create_request) 512 300 60 []) (None, None) (Some ''box'') []"

lemma demo_spec_created:
  "create_spec demo_ctl_world demo_cfg demo_create_request =
     Ok (options_to_spec (cq_options demo_create_request) 512 300 60 [])"
  by (simp add: create_spec_def demo_cfg_def exec_config_default_def check_flavors_def demo_create_request_def
      capped_memory_def clamped_timeout_def clamp_def)

lemma demo_dirs:
  "make_dirs demo_ctl_world demo_cfg i dk = (Ok (), create_dir_all (ws_output demo_cfg i) (create_dir_all (ws_source demo_cfg i) dk))"
  by (simp add: make_dirs_def demo_ctl_world_def)

lemma demo_label: "given_label (Some ''box'') = Some ''box''"
  by code_simp

lemma demo_created:
  "\<exists>st. serve demo_ctl_world demo_cfg demo_operator (CreateWorkspace demo_create_request) (sy_ctl (sys_init 2 demo_disk)) =
      (Ok (AnsWorkspace (redact_for demo_operator demo_workspace)), st) \<and> ct_ws st = [demo_workspace] \<and> ct_snaps st = [] \<and>
      ct_slots st = [] \<and> ct_held st = [] \<and> ct_next_lock st = 0 \<and> ct_permits st = 2 \<and>
      dir_at (ws_source demo_cfg ''wrk_n'') (ct_disk st) = Some [] \<and> dk_ps (ct_disk st) = dk_ps demo_disk \<and> (\<forall>p. manifest_at p (ct_disk st) = None)"
proof -
  have "manifest_at p demo_disk = None" "cw_ids demo_ctl_world 0 = ''wrk_n''" "dir_at p demo_disk = None" for p
    by (simp_all add: demo_ctl_world_def dir_at_def manifest_at_def demo_disk_def)
  then show ?thesis
    by (simp add: serve_def answer_def create_workspace_def demo_spec_created demo_dirs Let_def
        demo_create_request_def [THEN arg_cong [where f = cq_git]] demo_create_request_def [THEN arg_cong [where f = cq_domains]]
        demo_create_request_def [THEN arg_cong [where f = cq_label]] demo_label
        ws_insert_def row_insert_def row_get_def sys_init_def demo_workspace_def demo_operator_def
        create_dir_all_at)
qed

lemma demo_entered:
  assumes "ct_slots st = []" "ct_held st = []" "ct_permits st = 2"
  shows "\<exists>rn st'. ws_exec_enter demo_ctl_world demo_cfg demo_workspace demo_exec_request st = (Ok rn, st') \<and>
     rn_ws rn = demo_workspace \<and> ct_ws st' = ws_touch 7 ''wrk_n'' (ct_ws st) \<and> ct_snaps st' = ct_snaps st \<and> ct_disk st' = ct_disk st"
proof -
  have "exec_jail_config True src out mem secs env \<lparr>eo_network = None, eo_seccomp = Some SpecStandard, eo_cpu_percent = Some 100,
      eo_max_pids = Some 64\<rparr> True [] \<noteq> Inl e" for src out mem secs env e
    by (simp add: exec_jail_config_def network_of_spec_def)
  then obtain config where "ws_exec_plan demo_ctl_world demo_cfg demo_workspace demo_exec_request 2 =
      Ok (config, \<lparr>eo_network = None, eo_seccomp = Some SpecStandard, eo_cpu_percent = Some 100, eo_max_pids = Some 64\<rparr>)"
    by (cases "exec_jail_config True (w_source_dir demo_workspace) (w_output_dir demo_workspace) 512 300 default_path
          \<lparr>eo_network = None, eo_seccomp = Some SpecStandard, eo_cpu_percent = Some 100, eo_max_pids = Some 64\<rparr> True []")
      (auto simp: ws_exec_plan_def demo_workspace_def new_row_def options_to_spec_def spec_to_options_def demo_create_request_def
        check_flavors_def demo_cfg_def demo_exec_request_def demo_ctl_world_def jail_err_def capped_memory_def clamped_timeout_def clamp_def)
  then show ?thesis
    using assms
    by (simp add: ws_exec_enter_def lock_for_def ws_resume_def demo_workspace_def new_row_def Let_def demo_ctl_world_def split: prod.split)
qed

lemma demo_running:
  "\<exists>s rn. sys_reach demo_cfg demo_gc 2 s \<and> sy_running s = [(rn, None, None)] \<and> rn_ws rn = demo_workspace \<and> sy_sweep s = [] \<and> sy_others s = 0 \<and>
     ct_ws (sy_ctl s) = ws_touch 7 ''wrk_n'' [demo_workspace] \<and> ct_snaps (sy_ctl s) = [] \<and>
     dir_at (ws_source demo_cfg ''wrk_n'') (ct_disk (sy_ctl s)) = Some [] \<and> dk_ps (ct_disk (sy_ctl s)) = dk_ps demo_disk \<and>
     (\<forall>p. manifest_at p (ct_disk (sy_ctl s)) = None)"
proof -
  obtain st r where st: "serve demo_ctl_world demo_cfg demo_operator (CreateWorkspace demo_create_request) (sy_ctl (sys_init 2 demo_disk)) = (r, st)"
    "ct_ws st = [demo_workspace]" "ct_snaps st = []" "ct_slots st = []" "ct_held st = []" "ct_permits st = 2"
    "dir_at (ws_source demo_cfg ''wrk_n'') (ct_disk st) = Some []" "dk_ps (ct_disk st) = dk_ps demo_disk"
    "\<forall>p. manifest_at p (ct_disk st) = None"
    using demo_created by blast
  let ?s1 = "(sys_init 2 demo_disk)\<lparr>sy_ctl := st\<rparr>"
  let ?s2 = "?s1\<lparr>sy_pending := [(demo_workspace, demo_exec_request)]\<rparr>"
  have 1: "sys_reach demo_cfg demo_gc 2 ?s1"
    using demo_ctl_ok(5,6) by (intro sys_reach.Step [OF sys_reach.Start Serve [OF _ st(1)]]) (simp add: plain_world_def)
  have "ws_exec_lookup demo_cfg demo_operator ''wrk_n'' (sy_ctl ?s1) = Ok demo_workspace"
    by (simp add: ws_exec_lookup_def demo_cfg_def ws_visible_def ws_get_def row_get_def st demo_workspace_def new_row_def
        ws_live_def can_see_def demo_operator_def)
  from sys_reach.Step [OF 1 Lookup [OF this, of demo_gc demo_exec_request]] have 2: "sys_reach demo_cfg demo_gc 2 ?s2"
    by (simp add: sys_init_def)
  obtain rn st' where e: "ws_exec_enter demo_ctl_world demo_cfg demo_workspace demo_exec_request (sy_ctl ?s2) = (Ok rn, st')"
    "rn_ws rn = demo_workspace" "ct_ws st' = ws_touch 7 ''wrk_n'' [demo_workspace]" "ct_snaps st' = []" "ct_disk st' = ct_disk st"
    using demo_entered [OF st(4-6)] st by auto
  have "ws_exec_register rn None None st' = st'"
    by (simp add: ws_exec_register_def)
  with sys_reach.Step [OF 2 Enter [OF _ e(1), of demo_gc None None]] e st show ?thesis
    by (fastforce simp: sys_init_def)
qed

theorem exec_exclusive_witness:
  "\<exists>s. sys_reach demo_cfg demo_gc 2 s \<and> length (sy_running s) = 1 \<and> ct_permits (sy_ctl s) = 1 \<and>
     live_ids (sy_ctl s) = {''wrk_n''} \<and>
     (\<exists>st. ws_exec_enter demo_ctl_world demo_cfg demo_workspace demo_exec_request (sy_ctl s) =
       (Err (Conflict ''another exec is in flight against this workspace''), st))"
proof -
  obtain s rn where s: "sys_reach demo_cfg demo_gc 2 s" "sy_running s = [(rn, None, None)]" "rn_ws rn = demo_workspace"
    "ct_ws (sy_ctl s) = ws_touch 7 ''wrk_n'' [demo_workspace]" "sy_others s = 0"
    using demo_running by blast
  let ?row = "demo_workspace\<lparr>w_last_exec_at := Some 7\<rparr>"
  have ws: "w_id demo_workspace = ''wrk_n''" "ws_live ?row" "ct_ws (sy_ctl s) = [?row]"
    by (simp_all add: s(4) ws_touch_def row_update_def ws_live_def demo_workspace_def new_row_def)
  then have "{r \<in> set (ct_ws (sy_ctl s)). ws_live r} = {?row}"
    by auto
  then have live: "live_ids (sy_ctl s) = {''wrk_n''}"
    unfolding live_ids_def by (simp add: ws(1))
  note ex = exec_exclusive [OF s(1), unfolded s(2) live]
  have "ws_exec_enter demo_ctl_world demo_cfg demo_workspace demo_exec_request (sy_ctl s) =
       (Err (Conflict ''another exec is in flight against this workspace''), sy_ctl s)"
    using ex [THEN conjunct2, THEN conjunct1] s(3) ws(1) by auto
  moreover have "ct_permits (sy_ctl s) = 1"
    using ex s(5) by simp
  ultimately show ?thesis
    using s(1,2) live by (intro exI [of _ s]) auto
qed

section \<open>Pausing and resuming\<close>

lemma shape_names: "dir_ok st d \<Longrightarrow> no_symlinks d \<Longrightarrow> map fst (shape st d) = map fst d"
  by (induction d rule: dir_induct) auto

lemma map_of_copy:
  assumes "dir_ok st d" "no_symlinks d"
  shows "map_of d n = None \<longleftrightarrow> n \<notin> fst ` set (shape st d)"
    and "map_of d n = Some x \<Longrightarrow> (\<exists>i. x = FsFile i) \<or> (\<exists>sub. x = FsDir sub)"
proof -
  show "map_of d n = None \<longleftrightarrow> n \<notin> fst ` set (shape st d)"
    using arg_cong [OF shape_names [OF assms], of set] by (simp add: map_of_eq_None_iff)
  show "map_of d n = Some x \<Longrightarrow> (\<exists>i. x = FsFile i) \<or> (\<exists>sub. x = FsDir sub)"
    using assms by (induction d rule: dir_induct) (auto split: if_splits)
qed

lemma inodes_bound: "dir_ok st d \<Longrightarrow> store_ok st \<Longrightarrow> j \<in> set (inodes d) \<Longrightarrow> j < is_next st"
  by (induction d rule: dir_induct) (auto simp: store_ok_def not_le [symmetric])

text \<open>What may be paused: a workspace with a source directory, under an id that is new.\<close>

definition pausable :: "ctl_world \<Rightarrow> ctl_config \<Rightarrow> string \<Rightarrow> workspace \<Rightarrow> dir \<Rightarrow> ctl_state \<Rightarrow> bool" where
  "pausable w cfg i ws d st =
     (sf_pool (cc_snap cfg) = None \<and> unique_ids st \<and> ws_get i (ct_ws st) = Some ws \<and>
      dir_at (w_source_dir ws) (ct_disk st) = Some d \<and> store_ok (ps_store (dk_ps (ct_disk st))) \<and>
      dir_ok (ps_store (dk_ps (ct_disk st))) d \<and> cw_snap_id w \<notin> sn_id ` set (ct_snaps st) \<and>
      manifest_at (snap_path cfg (cw_snap_id w)) (ct_disk st) = None \<and> snap_path cfg (cw_snap_id w) \<noteq> w_source_dir ws)"

text \<open>A later state in which the row, the directory and the files of a snapshot are still there; the
  files are those between the two numbers.\<close>

definition keeps_snapshot :: "string \<Rightarrow> string \<Rightarrow> ctl_state \<Rightarrow> ctl_state \<Rightarrow> ctl_state \<Rightarrow> bool" where
  "keeps_snapshot i dir st st1 st2 =
     (sn_get i (ct_snaps st2) = sn_get i (ct_snaps st1) \<and> dir_at dir (ct_disk st2) = dir_at dir (ct_disk st1) \<and>
      manifest_at dir (ct_disk st2) = manifest_at dir (ct_disk st1) \<and> store_ok (ps_store (dk_ps (ct_disk st2))) \<and>
      (\<forall>j. is_next (ps_store (dk_ps (ct_disk st))) \<le> j \<and> j < is_next (ps_store (dk_ps (ct_disk st1))) \<longrightarrow>
         is_data (ps_store (dk_ps (ct_disk st2))) j = is_data (ps_store (dk_ps (ct_disk st1))) j))"

lemma ws_get_update:
  assumes "ws_get i rows = Some ws" "\<And>r. w_id (f r) = w_id r" "\<And>r. w_deleted_at (f r) = w_deleted_at r"
  shows "ws_get i (row_update w_id i f rows) = Some (f ws)"
proof -
  have "find (\<lambda>r. w_id r = i) (map (\<lambda>r. if w_id r = i then f r else r) rows) = map_option f (find (\<lambda>r. w_id r = i) rows)"
    using assms(2) by (induction rows) auto
  then show ?thesis
    using assms(1,3) by (auto simp: ws_get_def row_get_def row_update_def ws_live_def split: option.splits if_splits)
qed

lemma pause_full:
  assumes "pausable w cfg i ws d st"
  obtains snap st1 rec where "pause_one w cfg ws st = (True, st1)"
    "dir_at (w_source_dir ws) (ct_disk st1) = Some []"
    "ws_get i (ct_ws st1) = Some (ws\<lparr>w_paused_at := Some (cw_now w), w_auto_snapshot := Some (cw_snap_id w)\<rparr>)"
    "sn_get (cw_snap_id w) (ct_snaps st1) = Some rec" "sn_path rec = snap_path cfg (cw_snap_id w)"
    "dir_at (snap_path cfg (cw_snap_id w)) (ct_disk st1) = Some snap"
    "manifest_at (snap_path cfg (cw_snap_id w)) (ct_disk st1) = None"
    "shape (ps_store (dk_ps (ct_disk st1))) snap = shape (ps_store (dk_ps (ct_disk st))) d"
    "dir_ok (ps_store (dk_ps (ct_disk st1))) snap" "no_symlinks snap" "store_ok (ps_store (dk_ps (ct_disk st1)))"
    "\<forall>j \<in> set (inodes snap). is_next (ps_store (dk_ps (ct_disk st))) \<le> j"
proof -
  note p = assms [unfolded pausable_def]
  let ?store = "ps_store (dk_ps (ct_disk st))" and ?dir = "snap_path cfg (cw_snap_id w)"
  obtain snap store' where copy: "copy_dir_recursive (cw_mtime w) d ?store = Ok (snap, store')" "extends ?store store'"
    "shape store' snap = shape ?store d" "no_symlinks snap" "dir_ok store' snap" "\<forall>j \<in> set (inodes snap). is_next ?store \<le> j"
    using copy_dir_recursive_ok [of ?store d "cw_mtime w"] p by metis
  let ?rec = "\<lparr>sn_id = cw_snap_id w, sn_tenant = w_tenant ws, sn_workspace = Some (w_id ws), sn_name = Some (''auto:'' @ w_id ws),
    sn_created_at = cw_now w, sn_path = ?dir, sn_size_bytes = dir_size store' snap\<rparr>"
  have insert: "sn_insert ?rec (ct_snaps st) = Ok (ct_snaps st @ [?rec])"
    using p by (simp add: snapshots.insert_ok)
  have "sn_get (cw_snap_id w) (ct_snaps st @ [?rec]) = Some ?rec"
    using snapshots.insert_get [OF insert] p by (simp add: unique_ids_def)
  moreover have "w_id ws = i"
    using p workspaces.get_some [of i "ct_ws st" ws] by simp
  moreover have "ws_get i (row_update w_id i (\<lambda>w'. w'\<lparr>w_paused_at := Some (cw_now w), w_auto_snapshot := Some (cw_snap_id w)\<rparr>) (ct_ws st)) =
      Some (ws\<lparr>w_paused_at := Some (cw_now w), w_auto_snapshot := Some (cw_snap_id w)\<rparr>)"
    using ws_get_update [of i "ct_ws st" ws] p by simp
  ultimately show ?thesis
    using p copy insert extends_store_ok [OF copy(2)]
    by (intro that [of "snd (pause_one w cfg ws st)" ?rec snap])
      (simp_all add: pause_one_def record_snapshot_def capture_snapshot_def snapshot_create_def Let_def ws_mark_paused_def)
qed

text \<open>Resuming from a full snapshot.\<close>

lemma resume_full:
  assumes rec: "sn_get i (ct_snaps st) = Some rec" and ws: "w_paused_at ws \<noteq> None" "w_auto_snapshot ws = Some i"
    and snap: "manifest_at (sn_path rec) (ct_disk st) = None" "dir_at (sn_path rec) (ct_disk st) = Some snap"
      "dir_ok (ps_store (dk_ps (ct_disk st))) snap" "no_symlinks snap" "store_ok (ps_store (dk_ps (ct_disk st)))"
  shows "''manifest.json'' \<in> fst ` set (shape (ps_store (dk_ps (ct_disk st))) snap) \<Longrightarrow> sf_pool (cc_snap cfg) = None \<Longrightarrow>
      ws_resume w cfg ws st =
        (Err (BadRequest ''snapshot is content-addressed but AGENTJAIL_SNAPSHOT_POOL_DIR is not set''), st)"
    "''manifest.json'' \<notin> fst ` set (shape (ps_store (dk_ps (ct_disk st))) snap) \<Longrightarrow>
      \<exists>d' st'. ws_resume w cfg ws st = (Ok (), st') \<and> dir_at (w_source_dir ws) (ct_disk st') = Some d' \<and>
        shape (ps_store (dk_ps (ct_disk st'))) d' = shape (ps_store (dk_ps (ct_disk st))) snap \<and> no_symlinks d' \<and>
        ct_ws st' = snd (ws_mark_resumed (w_id ws) (ct_ws st))"
proof -
  note names = map_of_copy [OF snap(3,4), of "''manifest.json''"]
  {
    assume "''manifest.json'' \<in> fst ` set (shape (ps_store (dk_ps (ct_disk st))) snap)" "sf_pool (cc_snap cfg) = None"
    then obtain m where "manifest_file (cc_snap cfg) (sn_path rec) (ct_disk st) = Some m"
      using names snap(1,2) by (cases "map_of snap ''manifest.json''") (auto simp: manifest_file_def)
    with \<open>sf_pool (cc_snap cfg) = None\<close> show "ws_resume w cfg ws st =
        (Err (BadRequest ''snapshot is content-addressed but AGENTJAIL_SNAPSHOT_POOL_DIR is not set''), st)"
      using rec ws by (auto simp: ws_resume_def restore_snapshot_def)
  }
  assume "''manifest.json'' \<notin> fst ` set (shape (ps_store (dk_ps (ct_disk st))) snap)"
  then have none: "manifest_file (cc_snap cfg) (sn_path rec) (ct_disk st) = None"
    using names snap(1,2) by (simp add: manifest_file_def)
  obtain d' store' where "copy_dir_recursive (cw_mtime w) snap (ps_store (dk_ps (ct_disk st))) = Ok (d', store')"
    "shape store' d' = shape (ps_store (dk_ps (ct_disk st))) snap" "no_symlinks d'"
    using copy_dir_recursive_ok [OF snap(5,3)] by metis
  then show "\<exists>d' st'. ws_resume w cfg ws st = (Ok (), st') \<and> dir_at (w_source_dir ws) (ct_disk st') = Some d' \<and>
        shape (ps_store (dk_ps (ct_disk st'))) d' = shape (ps_store (dk_ps (ct_disk st))) snap \<and> no_symlinks d' \<and>
        ct_ws st' = snd (ws_mark_resumed (w_id ws) (ct_ws st))"
    using rec ws none snap(2)
    by (auto simp: ws_resume_def restore_snapshot_def restore_to_def clear_dir_empty split: option.split)
qed

text \<open>The snapshot of a pause in a later state that keeps it.\<close>

lemma pause_kept:
  assumes "pausable w cfg i ws d st"
  obtains st1 ws1 where "pause_one w cfg ws st = (True, st1)" "dir_at (w_source_dir ws) (ct_disk st1) = Some []"
    "ws_get i (ct_ws st1) = Some ws1" "ws1 = ws\<lparr>w_paused_at := Some (cw_now w), w_auto_snapshot := Some (cw_snap_id w)\<rparr>"
    "\<And>st2. keeps_snapshot (cw_snap_id w) (snap_path cfg (cw_snap_id w)) st st1 st2 \<Longrightarrow>
       \<exists>rec snap. sn_get (cw_snap_id w) (ct_snaps st2) = Some rec \<and> manifest_at (sn_path rec) (ct_disk st2) = None \<and>
         dir_at (sn_path rec) (ct_disk st2) = Some snap \<and> dir_ok (ps_store (dk_ps (ct_disk st2))) snap \<and> no_symlinks snap \<and>
         store_ok (ps_store (dk_ps (ct_disk st2))) \<and>
         shape (ps_store (dk_ps (ct_disk st2))) snap = shape (ps_store (dk_ps (ct_disk st))) d"
proof -
  obtain snap st1 rec where p: "pause_one w cfg ws st = (True, st1)" "dir_at (w_source_dir ws) (ct_disk st1) = Some []"
    "ws_get i (ct_ws st1) = Some (ws\<lparr>w_paused_at := Some (cw_now w), w_auto_snapshot := Some (cw_snap_id w)\<rparr>)"
    and rec: "sn_get (cw_snap_id w) (ct_snaps st1) = Some rec" "sn_path rec = snap_path cfg (cw_snap_id w)"
    "dir_at (snap_path cfg (cw_snap_id w)) (ct_disk st1) = Some snap"
    "manifest_at (snap_path cfg (cw_snap_id w)) (ct_disk st1) = None"
    and shape: "shape (ps_store (dk_ps (ct_disk st1))) snap = shape (ps_store (dk_ps (ct_disk st))) d"
    "dir_ok (ps_store (dk_ps (ct_disk st1))) snap" "no_symlinks snap" "store_ok (ps_store (dk_ps (ct_disk st1)))"
    "\<forall>j \<in> set (inodes snap). is_next (ps_store (dk_ps (ct_disk st))) \<le> j"
    using pause_full [OF assms] by metis
  have "shape (ps_store (dk_ps (ct_disk st2))) snap = shape (ps_store (dk_ps (ct_disk st1))) snap \<and>
      dir_ok (ps_store (dk_ps (ct_disk st2))) snap"
    if "keeps_snapshot (cw_snap_id w) (snap_path cfg (cw_snap_id w)) st st1 st2" for st2
  proof -
    have "\<forall>j \<in> set (inodes snap). is_data (ps_store (dk_ps (ct_disk st2))) j = is_data (ps_store (dk_ps (ct_disk st1))) j"
      using that shape(5) inodes_bound [OF shape(2,4)] unfolding keeps_snapshot_def by blast
    then show ?thesis
      using shape_cong [of snap "ps_store (dk_ps (ct_disk st2))" "ps_store (dk_ps (ct_disk st1))"] shape(2) by simp
  qed
  then show ?thesis
    using rec shape by (intro that [OF p(1,2,3) refl]) (fastforce simp: keeps_snapshot_def)
qed

text \<open>C10. A paused workspace comes back.  Pausing a workspace that has a source directory, under a new
  snapshot id and without a pool, succeeds, empties the directory and marks the row.  In every later
  state that still has the snapshot's row, directory and files, whatever else has happened and whatever
  the source directory holds by then, resuming succeeds, the source directory has the directories,
  file names, contents and modes from before the pause and no symbolic link, and the row is no longer
  paused.  The tree must have no entry \<open>manifest.json\<close> at its top.\<close>
theorem pause_resume:
  assumes p: "pausable w cfg i ws d st"
    and top_level: "''manifest.json'' \<notin> fst ` set (shape (ps_store (dk_ps (ct_disk st))) d)"
  shows "\<exists>st1 ws1. pause_one w cfg ws st = (True, st1) \<and> dir_at (w_source_dir ws) (ct_disk st1) = Some [] \<and>
    ws_get i (ct_ws st1) = Some ws1 \<and> w_paused_at ws1 = Some (cw_now w) \<and>
    (\<forall>st2 w2. keeps_snapshot (cw_snap_id w) (snap_path cfg (cw_snap_id w)) st st1 st2 \<longrightarrow>
       (\<exists>st3 d'. ws_resume w2 cfg ws1 st2 = (Ok (), st3) \<and> dir_at (w_source_dir ws) (ct_disk st3) = Some d' \<and>
          shape (ps_store (dk_ps (ct_disk st3))) d' = shape (ps_store (dk_ps (ct_disk st))) d \<and> no_symlinks d' \<and>
          (\<forall>r. ws_get i (ct_ws st2) = Some r \<longrightarrow>
             ws_get i (ct_ws st3) = Some (r\<lparr>w_paused_at := None, w_auto_snapshot := None\<rparr>))))"
proof -
  obtain st1 ws1 where st1: "pause_one w cfg ws st = (True, st1)" "dir_at (w_source_dir ws) (ct_disk st1) = Some []"
    "ws_get i (ct_ws st1) = Some ws1"
    and ws1: "ws1 = ws\<lparr>w_paused_at := Some (cw_now w), w_auto_snapshot := Some (cw_snap_id w)\<rparr>"
    and kept: "\<And>st2. keeps_snapshot (cw_snap_id w) (snap_path cfg (cw_snap_id w)) st st1 st2 \<Longrightarrow>
       \<exists>rec snap. sn_get (cw_snap_id w) (ct_snaps st2) = Some rec \<and> manifest_at (sn_path rec) (ct_disk st2) = None \<and>
         dir_at (sn_path rec) (ct_disk st2) = Some snap \<and> dir_ok (ps_store (dk_ps (ct_disk st2))) snap \<and> no_symlinks snap \<and>
         store_ok (ps_store (dk_ps (ct_disk st2))) \<and>
         shape (ps_store (dk_ps (ct_disk st2))) snap = shape (ps_store (dk_ps (ct_disk st))) d"
    using pause_kept [OF p] by metis
  have paused: "w_paused_at ws1 \<noteq> None" "w_auto_snapshot ws1 = Some (cw_snap_id w)" "w_source_dir ws1 = w_source_dir ws" "w_id ws1 = i"
    using p workspaces.get_some [of i "ct_ws st" ws] by (simp_all add: ws1 pausable_def)
  have "\<exists>st3 d'. ws_resume w2 cfg ws1 st2 = (Ok (), st3) \<and> dir_at (w_source_dir ws) (ct_disk st3) = Some d' \<and>
          shape (ps_store (dk_ps (ct_disk st3))) d' = shape (ps_store (dk_ps (ct_disk st))) d \<and> no_symlinks d' \<and>
          (\<forall>r. ws_get i (ct_ws st2) = Some r \<longrightarrow>
             ws_get i (ct_ws st3) = Some (r\<lparr>w_paused_at := None, w_auto_snapshot := None\<rparr>))"
    if keeps: "keeps_snapshot (cw_snap_id w) (snap_path cfg (cw_snap_id w)) st st1 st2" for st2 w2
  proof -
    obtain rec snap where k: "sn_get (cw_snap_id w) (ct_snaps st2) = Some rec" "manifest_at (sn_path rec) (ct_disk st2) = None"
      "dir_at (sn_path rec) (ct_disk st2) = Some snap" "dir_ok (ps_store (dk_ps (ct_disk st2))) snap" "no_symlinks snap"
      "store_ok (ps_store (dk_ps (ct_disk st2)))"
      "shape (ps_store (dk_ps (ct_disk st2))) snap = shape (ps_store (dk_ps (ct_disk st))) d"
      using kept [OF keeps] by blast
    have resumed: "ws_get i (snd (ws_mark_resumed i (ct_ws st2))) = Some (r\<lparr>w_paused_at := None, w_auto_snapshot := None\<rparr>)"
      if "ws_get i (ct_ws st2) = Some r" for r
      using ws_get_update [OF that, of "\<lambda>w'. w'\<lparr>w_paused_at := None, w_auto_snapshot := None\<rparr>"] that
      by (auto simp: ws_mark_resumed_def ws_get_def split: option.splits if_splits)
    show ?thesis
      using resume_full(2) [OF k(1) paused(1,2) k(2-6)] top_level k(7) paused(3,4) resumed by metis
  qed
  with st1 show ?thesis
    by (intro exI [of _ st1] exI [of _ ws1]) (simp add: ws1)
qed

definition demo_named :: "string \<Rightarrow> ctl_state" where
  "demo_named n = demo_ctl\<lparr>ct_disk := (ct_disk demo_ctl)\<lparr>dk_dirs := [(''/s/workspaces/wrk_a/source'', [(n, FsFile 0)])]\<rparr>\<rparr>"

lemma demo_pausable:
  "pausable demo_ctl_world demo_cfg ''wrk_a'' (demo_row ''wrk_a'' ''acme'') [(n, FsFile 0)] (demo_named n)"
proof -
  have src: "ws_source demo_cfg ''wrk_a'' = ''/s/workspaces/wrk_a/source''" and dir: "snap_path demo_cfg ''snap_n'' = ''/s/snapshots/snap_n''"
    by code_simp+
  have cfg: "sf_pool (cc_snap demo_cfg) = None" "cw_snap_id demo_ctl_world = ''snap_n''"
    by (simp_all add: demo_cfg_def demo_ctl_world_def)
  have store: "store_ok demo_inodes" "is_data demo_inodes 0 \<noteq> None"
    by (simp_all add: store_ok_def demo_inodes_def)
  have row: "w_source_dir (demo_row i t) = ws_source demo_cfg i" "w_id (demo_row i t) = i" "ws_live (demo_row i t)" for i t
    by (simp_all add: demo_row_def new_row_def ws_live_def)
  show ?thesis
    unfolding pausable_def cfg row src dir
    using store
    by (simp add: demo_named_def demo_ctl_def dir_at_def manifest_at_def unique_ids_def ws_get_def row_get_def row)
qed

lemma demo_named_shape: "shape (ps_store (dk_ps (ct_disk (demo_named n)))) [(n, FsFile 0)] = [(n, ShFile ''hi'' 420)]"
  by (simp add: demo_named_def demo_ctl_def demo_inodes_def)

theorem pause_resume_witness:
  "\<exists>st1 ws1 st3 d'. pause_one demo_ctl_world demo_cfg (demo_row ''wrk_a'' ''acme'') (demo_named ''f'') = (True, st1) \<and>
     dir_at ''/s/workspaces/wrk_a/source'' (ct_disk st1) = Some [] \<and> ws_get ''wrk_a'' (ct_ws st1) = Some ws1 \<and>
     ws_resume demo_ctl_world demo_cfg ws1 st1 = (Ok (), st3) \<and>
     dir_at ''/s/workspaces/wrk_a/source'' (ct_disk st3) = Some d' \<and>
     shape (ps_store (dk_ps (ct_disk st3))) d' = [(''f'', ShFile ''hi'' 420)]"
proof -
  have src: "w_source_dir (demo_row ''wrk_a'' ''acme'') = ''/s/workspaces/wrk_a/source''"
    by code_simp
  obtain st1 where "pause_one demo_ctl_world demo_cfg (demo_row ''wrk_a'' ''acme'') (demo_named ''f'') = (True, st1)"
    "store_ok (ps_store (dk_ps (ct_disk st1)))"
    using pause_full [OF demo_pausable] by metis
  moreover from this(2) have "keeps_snapshot a b (demo_named ''f'') st1 st1" for a b
    by (simp add: keeps_snapshot_def)
  ultimately show ?thesis
    using pause_resume [OF demo_pausable, of "''f''", unfolded demo_named_shape src] by fastforce
qed

text \<open>C39. A paused workspace that does not come back.  When the tree has an entry \<open>manifest.json\<close> at
  its top, its full snapshot is taken for an incremental one: without a pool every attempt to resume
  is refused and changes nothing, and the source directory stays empty.  When the row of the snapshot
  is gone, deleted by its owner or by the garbage collection, resuming does nothing and reports
  success: the command runs in the empty directory, and the workspace remains marked as paused.\<close>
theorem resume_failures:
  assumes p: "pausable w cfg i ws d st"
  shows "\<exists>st1 ws1. pause_one w cfg ws st = (True, st1) \<and> dir_at (w_source_dir ws) (ct_disk st1) = Some [] \<and>
    ws_get i (ct_ws st1) = Some ws1 \<and>
    (''manifest.json'' \<in> fst ` set (shape (ps_store (dk_ps (ct_disk st))) d) \<longrightarrow>
      (\<forall>st2 w2. keeps_snapshot (cw_snap_id w) (snap_path cfg (cw_snap_id w)) st st1 st2 \<longrightarrow>
         ws_resume w2 cfg ws1 st2 =
           (Err (BadRequest ''snapshot is content-addressed but AGENTJAIL_SNAPSHOT_POOL_DIR is not set''), st2))) \<and>
    (\<forall>st2 w2. sn_get (cw_snap_id w) (ct_snaps st2) = None \<longrightarrow> ws_resume w2 cfg ws1 st2 = (Ok (), st2))"
proof -
  obtain st1 ws1 where st1: "pause_one w cfg ws st = (True, st1)" "dir_at (w_source_dir ws) (ct_disk st1) = Some []"
    "ws_get i (ct_ws st1) = Some ws1"
    and ws1: "ws1 = ws\<lparr>w_paused_at := Some (cw_now w), w_auto_snapshot := Some (cw_snap_id w)\<rparr>"
    and kept: "\<And>st2. keeps_snapshot (cw_snap_id w) (snap_path cfg (cw_snap_id w)) st st1 st2 \<Longrightarrow>
       \<exists>rec snap. sn_get (cw_snap_id w) (ct_snaps st2) = Some rec \<and> manifest_at (sn_path rec) (ct_disk st2) = None \<and>
         dir_at (sn_path rec) (ct_disk st2) = Some snap \<and> dir_ok (ps_store (dk_ps (ct_disk st2))) snap \<and> no_symlinks snap \<and>
         store_ok (ps_store (dk_ps (ct_disk st2))) \<and>
         shape (ps_store (dk_ps (ct_disk st2))) snap = shape (ps_store (dk_ps (ct_disk st))) d"
    using pause_kept [OF p] by metis
  have paused: "w_paused_at ws1 \<noteq> None" "w_auto_snapshot ws1 = Some (cw_snap_id w)"
    by (simp_all add: ws1)
  have pool: "sf_pool (cc_snap cfg) = None"
    using p by (simp add: pausable_def)
  have "ws_resume w2 cfg ws1 st2 =
           (Err (BadRequest ''snapshot is content-addressed but AGENTJAIL_SNAPSHOT_POOL_DIR is not set''), st2)"
    if top_level: "''manifest.json'' \<in> fst ` set (shape (ps_store (dk_ps (ct_disk st))) d)"
      and keeps: "keeps_snapshot (cw_snap_id w) (snap_path cfg (cw_snap_id w)) st st1 st2" for st2 w2
  proof -
    obtain rec snap where k: "sn_get (cw_snap_id w) (ct_snaps st2) = Some rec" "manifest_at (sn_path rec) (ct_disk st2) = None"
      "dir_at (sn_path rec) (ct_disk st2) = Some snap" "dir_ok (ps_store (dk_ps (ct_disk st2))) snap" "no_symlinks snap"
      "store_ok (ps_store (dk_ps (ct_disk st2)))"
      "shape (ps_store (dk_ps (ct_disk st2))) snap = shape (ps_store (dk_ps (ct_disk st))) d"
      using kept [OF keeps] by blast
    show ?thesis
      using resume_full(1) [OF k(1) paused k(2-6) _ pool] top_level k(7) by simp
  qed
  moreover have "ws_resume w2 cfg ws1 st2 = (Ok (), st2)" if "sn_get (cw_snap_id w) (ct_snaps st2) = None" for st2 w2
    using that by (simp add: ws_resume_def paused(2) split: option.split)
  ultimately show ?thesis
    using st1 by blast
qed

theorem resume_failures_witness:
  "\<exists>st1 ws1. pause_one demo_ctl_world demo_cfg (demo_row ''wrk_a'' ''acme'') (demo_named ''manifest.json'') = (True, st1) \<and>
     ws_get ''wrk_a'' (ct_ws st1) = Some ws1 \<and>
     ws_resume demo_ctl_world demo_cfg ws1 st1 =
       (Err (BadRequest ''snapshot is content-addressed but AGENTJAIL_SNAPSHOT_POOL_DIR is not set''), st1) \<and>
     ws_resume demo_ctl_world demo_cfg ws1 (st1\<lparr>ct_snaps := []\<rparr>) = (Ok (), st1\<lparr>ct_snaps := []\<rparr>)"
proof -
  obtain st1 where "pause_one demo_ctl_world demo_cfg (demo_row ''wrk_a'' ''acme'') (demo_named ''manifest.json'') = (True, st1)"
    "store_ok (ps_store (dk_ps (ct_disk st1)))"
    using pause_full [OF demo_pausable] by metis
  moreover from this(2) have "keeps_snapshot a b (demo_named ''manifest.json'') st1 st1" for a b
    by (simp add: keeps_snapshot_def)
  moreover have "sn_get a (ct_snaps (st1\<lparr>ct_snaps := []\<rparr>)) = None" for a
    by (simp add: sn_get_def row_get_def)
  ultimately show ?thesis
    using resume_failures [OF demo_pausable, of "''manifest.json''", unfolded demo_named_shape] by fastforce
qed

end
