(* ===== verification/Workspace_Types.thy ===== *)
theory Workspace_Types
  imports Workspace_Races
begin

text \<open>
  Well-formed workspaces: what every row of the store satisfies in every interleaving, and what follows
  for the jails that executions start.
\<close>

section \<open>Well-formed rows\<close>

definition spec_typed :: "workspace_spec \<Rightarrow> bool" where
  "spec_typed spec =
     (wsp_memory_mb spec \<le> 8192 \<and> 1 \<le> wsp_timeout_secs spec \<and> wsp_timeout_secs spec \<le> 3600 \<and>
      1 \<le> wsp_cpu_percent spec \<and> wsp_cpu_percent spec \<le> 800 \<and> 1 \<le> wsp_max_pids spec \<and> wsp_max_pids spec \<le> 1024 \<and>
      (wsp_network_mode spec = ''allowlist'' \<or>
         (wsp_network_mode spec = ''none'' \<or> wsp_network_mode spec = ''loopback'') \<and> wsp_network_domains spec = []) \<and>
      (wsp_seccomp spec = ''standard'' \<or> wsp_seccomp spec = ''strict''))"

definition row_typed :: "workspace \<Rightarrow> bool" where
  "row_typed ws =
     (spec_typed (w_config ws) \<and> w_label ws \<noteq> None \<and> domains_ok (\<lambda>s. s) (w_domains ws) = Ok () \<and>
      (w_paused_at ws = None) = (w_auto_snapshot ws = None))"

definition config_typed :: "ctl_config \<Rightarrow> jail_config \<Rightarrow> bool" where
  "config_typed cfg c =
     (jc_memory_mb c \<le> 8192 \<and> 1 \<le> jc_timeout_secs c \<and> jc_timeout_secs c \<le> 3600 \<and>
      1 \<le> jc_cpu_percent c \<and> jc_cpu_percent c \<le> 800 \<and> 1 \<le> jc_max_pids c \<and> jc_max_pids c \<le> 1024 \<and>
      jc_seccomp c \<noteq> Disabled \<and> jc_source_rw c \<and> jc_pid_namespace c \<and> jc_user_namespace c = (\<not> cc_is_root cfg))"

definition typed :: "ctl_state \<Rightarrow> bool" where
  "typed st = list_all row_typed (ct_ws st)"

lemma options_typed:
  "mem \<le> 8192 \<Longrightarrow> 1 \<le> secs \<Longrightarrow> secs \<le> 3600 \<Longrightarrow> spec_typed (options_to_spec options mem secs idle flavors)"
  by (auto simp: spec_typed_def options_to_spec_def Let_def clamp_def split: option.split network_spec.split seccomp_spec.split)

text \<open>A well-formed specification is what its options give back.\<close>

lemma spec_roundtrip:
  assumes "spec_typed spec"
  obtains options where "spec_to_options spec = Ok options"
    "options_to_spec options (wsp_memory_mb spec) (wsp_timeout_secs spec) (wsp_idle_timeout_secs spec) (wsp_flavors spec) = spec"
proof -
  have "\<exists>options. spec_to_options spec = Ok options \<and>
    options_to_spec options (wsp_memory_mb spec) (wsp_timeout_secs spec) (wsp_idle_timeout_secs spec) (wsp_flavors spec) = spec"
    using assms by (cases spec) (auto simp: spec_typed_def spec_to_options_def options_to_spec_def clamp_def)
  with that show ?thesis
    by blast
qed

lemma create_spec_typed: "create_spec w cfg req = Ok spec \<Longrightarrow> spec_typed spec"
  by (auto simp: create_spec_def and_then_Ok_iff capped_memory_def clamped_timeout_def clamp_def intro!: options_typed split: if_splits)

lemma exec_config_typed:
  assumes "exec_jail_config (cc_is_root cfg) source output mem secs env options True overlays = Ok c"
    "mem \<le> 8192" "1 \<le> secs" "secs \<le> 3600"
  shows "config_typed cfg c"
proof -
  have "(case eo_seccomp options of Some SpecStrict \<Rightarrow> Strict | _ \<Rightarrow> Standard) \<noteq> Disabled"
    by (auto split: option.split seccomp_spec.split)
  then show ?thesis
    using assms by (auto simp: exec_jail_config_def config_typed_def clamp_def and_then_Ok_iff)
qed

lemma plan_typed: "ws_exec_plan w cfg ws req permits = Ok (config, options) \<Longrightarrow> config_typed cfg config"
  unfolding ws_exec_plan_def and_then_Ok_iff
  by (elim exE conjE) (auto simp: capped_memory_def clamped_timeout_def clamp_def elim: exec_config_typed)

section \<open>Every step keeps rows well-formed\<close>

lemma typed_update:
  assumes "list_all row_typed rows" "\<And>r. row_typed r \<Longrightarrow> row_typed (f r)"
  shows "list_all row_typed (row_update w_id i f rows)"
  using assms by (auto simp: list_all_iff row_update_def)

lemma typed_label: "list_all row_typed rows \<Longrightarrow> list_all row_typed (snd (ws_set_label i (Some l) rows))"
  by (auto simp: ws_set_label_def row_typed_def intro!: typed_update split: option.split)

lemma typed_deleted: "list_all row_typed rows \<Longrightarrow> list_all row_typed (snd (ws_mark_deleted now i rows))"
  by (auto simp: ws_mark_deleted_def row_typed_def intro!: typed_update split: option.split)

lemma typed_touch: "list_all row_typed rows \<Longrightarrow> list_all row_typed (ws_touch now i rows)"
  by (auto simp: ws_touch_def row_typed_def intro!: typed_update)

lemma typed_paused: "list_all row_typed rows \<Longrightarrow> list_all row_typed (ws_mark_paused now i snap rows)"
  by (auto simp: ws_mark_paused_def row_typed_def intro!: typed_update)

lemma typed_resumed: "list_all row_typed rows \<Longrightarrow> list_all row_typed (snd (ws_mark_resumed i rows))"
  by (auto simp: ws_mark_resumed_def row_typed_def intro!: typed_update split: option.split)

lemma typed_insert: "ws_insert ws rows = Ok rows' \<Longrightarrow> list_all row_typed rows \<Longrightarrow> row_typed ws \<Longrightarrow> list_all row_typed rows'"
  by (auto simp: ws_insert_def row_insert_def split: if_splits)

lemma domains_ok_any: "domains_ok dbg ds = Ok () \<Longrightarrow> domains_ok dbg' ds = Ok ()"
  by (induction ds) (auto simp: and_then_Ok_iff domain_target_of_def split: option.splits if_splits)

lemma typed_new_row: "spec_typed spec \<Longrightarrow> domains_ok dbg domains = Ok () \<Longrightarrow> row_typed (new_row w cfg i t spec git (Some l) domains)"
  using domains_ok_any [of dbg domains] by (simp add: row_typed_def new_row_def)

lemma ws_visible_row: "ws_visible scope i rows = Some ws \<Longrightarrow> ws \<in> set rows"
  using workspaces.get_some [of i rows ws] by (auto simp: ws_visible_def split: option.splits if_splits)

lemma record_snapshot_rows: "record_snapshot w cfg ws name st = (r, st') \<Longrightarrow> ct_ws st' = ct_ws st"
  by (auto simp: record_snapshot_def Let_def split: sum.splits)

lemma typed_create: "typed st \<Longrightarrow> create_workspace w cfg scope req st = (r, st') \<Longrightarrow> typed st'"
  by (auto simp: create_workspace_def typed_def Let_def and_then_Ok_iff split: sum.splits prod.splits
      elim: typed_insert [OF _ _ typed_new_row [OF create_spec_typed]])

lemma typed_rehydrate:
  assumes "typed st" "row_typed parent" "rehydrate w cfg dir parent i label st = (r, st')"
  shows "typed st'"
proof -
  have "row_typed (new_row w cfg i (w_tenant parent) (w_config parent) (w_git_repo parent, w_git_ref parent) (Some label) [])"
    using assms(2) by (intro typed_new_row [of _ "\<lambda>s. s"]) (simp_all add: row_typed_def)
  then show ?thesis
    using assms(1,3)
    by (auto simp: rehydrate_def typed_def Let_def and_then_Ok_iff split: sum.splits prod.splits elim: typed_insert)
qed

lemma typed_forks:
  "typed st \<Longrightarrow> row_typed parent \<Longrightarrow> fork_workspaces w cfg dir parent label k n st = (r, st') \<Longrightarrow> typed st'"
proof (induction n arbitrary: k r st st')
  case (Suc n)
  obtain r1 st1 r2 st2 where 1: "rehydrate w cfg dir parent (cw_ids w k) (fork_label label parent k) st = (r1, st1)"
    and 2: "fork_workspaces w cfg dir parent label (Suc k) n st1 = (r2, st2)"
    by fastforce
  then show ?case
    using Suc.prems(3) typed_rehydrate [OF Suc.prems(1,2) 1] Suc.IH [OF _ Suc.prems(2) 2] by (cases r1) auto
qed simp

lemma typed_fork:
  assumes "typed st" "fork_workspace w cfg scope i n label st = (r, st')"
  shows "typed st'"
proof -
  have parent: "row_typed ws" if "ws_visible scope i (ct_ws st) = Some ws" for ws
    using ws_visible_row [OF that] assms(1) by (simp add: typed_def list_all_iff)
  have rows: "typed st1" if "record_snapshot w cfg ws name st = (r1, st1)" for ws name r1 st1
    using record_snapshot_rows [OF that] assms(1) by (simp add: typed_def)
  show ?thesis
    using assms by (auto simp: fork_workspace_def split: if_splits option.splits sum.splits prod.splits intro: rows typed_forks [OF rows parent])
qed

lemma typed_serve:
  assumes "typed st" "serve w cfg scope rq st = (r, st')"
  shows "typed st'"
proof (cases rq)
  case (CreateWorkspace req)
  with assms typed_create show ?thesis
    by (auto simp: serve_def answer_eq)
next
  case (ForkWorkspace i n label)
  with assms typed_fork show ?thesis
    by (auto simp: serve_def answer_eq)
next
  case (PatchWorkspace i label)
  with assms typed_label [of "ct_ws st" i] show ?thesis
    by (auto simp: serve_def answer_eq patch_workspace_def typed_def split: if_splits prod.splits) (metis snd_conv)
next
  case (DeleteWorkspace i)
  with assms typed_deleted [of "ct_ws st" "cw_now w" i] show ?thesis
    by (auto simp: serve_def answer_eq delete_workspace_def forget_lock_def typed_def split: if_splits prod.splits option.splits)
next
  case (CreateSnapshot i name)
  with assms record_snapshot_rows show ?thesis
    by (fastforce simp: serve_def answer_eq create_snapshot_def typed_def split: option.splits)
next
  case (DeleteSnapshot i)
  with assms show ?thesis
    by (auto simp: serve_def answer_eq delete_snapshot_def typed_def split: if_splits option.splits prod.splits)
next
  case (FromSnapshot sn p label)
  have "st' = st \<or> (\<exists>dir parent r'. ws_visible scope (trim p) (ct_ws st) = Some parent \<and>
      rehydrate w cfg dir parent (cw_ids w 0) (unwrap_or (cw_slug w) (given_label label)) st = (r', st'))"
    using assms(2) FromSnapshot unfolding serve_def create_workspace_from_snapshot_def
    by (auto simp: answer_eq and_then_Ok_iff ok_or_def split: sum.splits prod.splits option.splits if_splits)
  moreover have "row_typed parent" if "ws_visible scope (trim p) (ct_ws st) = Some parent" for parent
    using ws_visible_row [OF that] assms(1) by (simp add: typed_def list_all_iff)
  ultimately show ?thesis
    using typed_rehydrate [OF assms(1)] assms(1) by metis
qed (use assms in \<open>auto simp: serve_def answer_eq\<close>)

lemma typed_resume: "typed st \<Longrightarrow> ws_resume w cfg ws st = (r, st') \<Longrightarrow> typed st'"
  by (auto simp: ws_resume_def typed_def intro: typed_resumed split: option.splits prod.splits sum.splits)

lemma typed_enter:
  assumes "typed st" "ws_exec_enter w cfg ws req st = (r, st')"
  shows "typed st'" "r = Ok rn \<Longrightarrow> config_typed cfg (rn_config rn)"
proof -
  obtain n st1 where lock: "lock_for (w_id ws) st = (n, st1)"
    by fastforce
  obtain r2 st2 where res: "ws_resume w cfg ws st1 = (r2, st2)"
    by fastforce
  have st1: "typed st1"
    using assms(1) lock by (auto simp: lock_for_def typed_def split: option.splits)
  note st2 = typed_resume [OF st1 res]
  show "typed st'"
    using assms(2) lock res st1 st2
    by (auto simp: ws_exec_enter_def typed_def Let_def intro: typed_touch split: if_splits sum.splits prod.splits)
  show "config_typed cfg (rn_config rn)" if "r = Ok rn"
    using assms(2) that lock res
    by (auto simp: ws_exec_enter_def Let_def intro: plan_typed split: if_splits sum.splits prod.splits)
qed

lemma typed_pause:
  assumes "typed st"
  shows "typed (snd (pause_one w cfg ws st))"
proof -
  obtain r1 st1 where snap: "record_snapshot w cfg ws (Some (''auto:'' @ w_id ws)) st = (r1, st1)"
    by fastforce
  have "list_all row_typed (ct_ws st1)"
    using assms by (simp add: record_snapshot_rows [OF snap] typed_def)
  then show ?thesis
    unfolding pause_one_def snap by (cases r1) (simp_all add: typed_def typed_paused)
qed

lemma gc_keeps_rows: "gc_run_once cfg now gc st = (n, st') \<Longrightarrow> ct_ws st' = ct_ws st"
proof -
  have "ct_ws (snd (fold gc_remove rs (k, st))) = ct_ws st" for rs k st
    by (induction rs arbitrary: k st) (auto simp: gc_remove_def split: prod.splits)
  moreover assume "gc_run_once cfg now gc st = (n, st')"
  ultimately show ?thesis
    by (auto simp: gc_run_once_def split: if_splits option.splits prod.splits) (metis snd_conv)
qed

definition sys_typed :: "ctl_config \<Rightarrow> system \<Rightarrow> bool" where
  "sys_typed cfg s = (typed (sy_ctl s) \<and> list_all (\<lambda>(rn, _). config_typed cfg (rn_config rn)) (sy_running s))"

lemma sys_typed_step:
  assumes "sys_typed cfg s" "sys_step cfg gc s s'"
  shows "sys_typed cfg s'"
  using assms(2,1)
proof (induction rule: sys_step.induct)
  case (Serve w s scope rq r st)
  then show ?case
    using typed_serve by (auto simp: sys_typed_def)
next
  case (Enter ws req s w rn st cgroup ip)
  then show ?case
    using typed_enter [OF _ Enter(2)] by (auto simp: sys_typed_def ws_exec_register_def Let_def typed_def)
next
  case (Refuse ws req s w e st)
  then show ?case
    using typed_enter(1) [OF _ Refuse(2)] by (simp add: sys_typed_def)
next
  case (Leave rn cgroup ip s show_err now outcome r st)
  then have "ct_ws st = ct_ws (sy_ctl s)"
    by (auto simp: ws_exec_leave_def Let_def split: prod.splits)
  with Leave.prems show ?case
    by (auto simp: sys_typed_def typed_def list_all_iff dest: notin_set_remove1)
next
  case (Reap s ws rows w due st)
  then show ?case
    using typed_pause by (auto simp: sys_typed_def)
next
  case (Collect now s n st)
  then show ?case
    using gc_keeps_rows [OF Collect(1)] by (simp add: sys_typed_def typed_def)
qed (auto simp: sys_typed_def typed_def ws_exec_write_def)

lemma sys_reach_typed: "sys_reach cfg gc permits s \<Longrightarrow> sys_typed cfg s"
proof (induction rule: sys_reach.induct)
  case (Start dk)
  show ?case
    by (simp add: sys_typed_def sys_init_def typed_def)
qed (rule sys_typed_step)

text \<open>C17. Workspaces are well-formed.  In every interleaving every row of the workspace store has limits
  within their ranges, a known network mode and system-call filter, a label and valid domains, and is
  marked as paused exactly when it names a snapshot to resume from; so its specification turns back
  into the options it came from, and no execution fails for an unknown mode.  The jail of every running
  execution has limits within the same ranges, a system-call filter, a process namespace, and a user
  namespace unless the server runs as root.\<close>
theorem workspaces_typed:
  assumes "sys_reach cfg gc permits s"
  shows "(\<forall>ws \<in> set (ct_ws (sy_ctl s)). row_typed ws \<and>
      (\<exists>options. spec_to_options (w_config ws) = Ok options \<and>
         options_to_spec options (wsp_memory_mb (w_config ws)) (wsp_timeout_secs (w_config ws))
           (wsp_idle_timeout_secs (w_config ws)) (wsp_flavors (w_config ws)) = w_config ws)) \<and>
    (\<forall>(rn, _) \<in> set (sy_running s). config_typed cfg (rn_config rn))"
  using sys_reach_typed [OF assms] spec_roundtrip
  by (auto simp: sys_typed_def typed_def list_all_iff row_typed_def) metis

theorem workspaces_typed_witness:
  "\<exists>s rn. sys_reach demo_cfg demo_gc 2 s \<and> sy_running s = [(rn, None, None)] \<and> config_typed demo_cfg (rn_config rn) \<and>
     ct_ws (sy_ctl s) = ws_touch 7 ''wrk_n'' [demo_workspace] \<and> list_all row_typed (ct_ws (sy_ctl s))"
proof -
  obtain s rn where s: "sys_reach demo_cfg demo_gc 2 s" "sy_running s = [(rn, None, None)]"
    "ct_ws (sy_ctl s) = ws_touch 7 ''wrk_n'' [demo_workspace]"
    using demo_running by blast
  then show ?thesis
    using workspaces_typed [OF s(1)] by (auto simp: list_all_iff)
qed

end
