(* ===== verification/Gateway.thy ===== *)
theory Gateway
  imports Phantom_Proxy Workspace_Types
begin

text \<open>
  The host-routed gateway (\<open>agentjail-server/src/gateway.rs\<close>): which workspace a host name belongs to,
  where a request for it is forwarded, and what is passed on in both directions.  The \<open>http\<close>, \<open>axum\<close> and
  \<open>reqwest\<close> crates are arguments.
\<close>

section \<open>Requests\<close>

record gw_request =
  gr_method :: string
  gr_target :: "string option"
  gr_headers :: headers
  gr_body :: string

text \<open>What the gateway uses of the crates: reading a header value as text and back, the check of a
  header on its way, method names, reading a body up to a limit, sending, reading the answer, and the debug
  format of a string.\<close>

record gateway =
  gw_to_str :: "string \<Rightarrow> string option"
  gw_value_ok :: "string \<Rightarrow> bool"
  gw_header_ok :: "string \<Rightarrow> string \<Rightarrow> bool"
  gw_method :: "string \<Rightarrow> string option"
  gw_to_bytes :: "string \<Rightarrow> nat \<Rightarrow> (string, string) result"
  gw_send :: "upstream_request \<Rightarrow> (string, upstream_response) result"
  gw_bytes :: "upstream_response \<Rightarrow> (string, string) result"
  gw_debug :: "string \<Rightarrow> string"

definition MAX_BODY_BYTES :: nat where
  "MAX_BODY_BYTES = 10 * 1024 * 1024"

definition extract_host :: "gateway \<Rightarrow> headers \<Rightarrow> string option" where
  "extract_host gw h =
     Option.bind (Option.bind (hm_get ''host'' h) (gw_to_str gw)) (\<lambda>raw.
       let host = trim (hd (split_on CHR '':'' raw))
       in if host = [] then None else Some (map ascii_lower host))"

definition gw_hop_by_hop :: "string \<Rightarrow> bool" where
  "gw_hop_by_hop name =
     (map ascii_lower name \<in> set
       [''connection'', ''keep-alive'', ''proxy-authenticate'', ''proxy-authorization'', ''te'', ''trailers'',
        ''transfer-encoding'', ''upgrade'', ''host''])"

definition gw_bad_request :: "string \<Rightarrow> response" where
  "gw_bad_request msg = plain_response 400 (''gateway: bad request: '' @ msg @ [CHR 0x0A])"

definition gw_not_found :: "string \<Rightarrow> response" where
  "gw_not_found host = plain_response 404 (''gateway: no workspace declares host '' @ host @ [CHR 0x0A])"

definition gw_bad_gateway :: "string \<Rightarrow> response" where
  "gw_bad_gateway msg = plain_response 502 (''gateway: upstream failed: '' @ msg @ [CHR 0x0A])"

definition no_live_jail :: "string \<Rightarrow> nat \<Rightarrow> response" where
  "no_live_jail i port =
     plain_response 503 (''gateway: no live jail for workspace '' @ i @ '' on vm_port '' @ show_nat port @ [CHR 0x0A] @
       ''start a workspace exec that binds :'' @ show_nat port @ '' before retrying'' @ [CHR 0x0A])"

section \<open>Forwarding\<close>

definition trim_end_slashes :: "string \<Rightarrow> string" where
  "trim_end_slashes s = rev (dropWhile (\<lambda>c. c = CHR ''/'') (rev s))"

fun jail_error_display :: "jail_error \<Rightarrow> string" where
  "jail_error_display (NamespaceError e) = ''namespace setup failed: '' @ e"
| "jail_error_display (UidMapError e) = ''namespace uid/gid map failed: '' @ e"
| "jail_error_display (MountError e) = ''mount failed: '' @ e"
| "jail_error_display (IoError e) = ''filesystem setup failed: '' @ e"
| "jail_error_display (SeccompError e) = ''seccomp filter failed: '' @ e"
| "jail_error_display (CgroupError e) = ''cgroup setup failed: '' @ e"
| "jail_error_display (SnapshotError e) = ''snapshot failed: '' @ e"
| "jail_error_display (GpuError e) = ''GPU setup failed: '' @ e"
| "jail_error_display (LandlockError e) = ''landlock setup failed: '' @ e"
| "jail_error_display (NetworkError e) = ''network setup failed: '' @ e"
| "jail_error_display (ExecError e) = ''failed to execute command: '' @ e"
| "jail_error_display (ForkError e) = ''fork failed: '' @ e"
| "jail_error_display (PipeError e) = ''pipe creation failed: '' @ e"
| "jail_error_display (PathNotFound e) = ''path does not exist: '' @ e"
| "jail_error_display (BadConfig e) = ''bad config: '' @ e"

fun ctl_error_display :: "ctl_error \<Rightarrow> string" where
  "ctl_error_display (BadRequest m) = ''bad request: '' @ m"
| "ctl_error_display (NotFound m) = ''not found: '' @ m"
| "ctl_error_display Unauthorized = ''unauthorized''"
| "ctl_error_display (Conflict m) = ''conflict: '' @ m"
| "ctl_error_display (CtlJail e) = ''jail: '' @ jail_error_display e"
| "ctl_error_display (CtlPhantom e) = ''phantom: '' @ phantom_error_display e"
| "ctl_error_display (CtlIo m) = ''io: '' @ m"
| "ctl_error_display (CtlInternal m) = ''internal: '' @ m"
| "ctl_error_display (CtlConfig m) = ''config: '' @ m"

text \<open>Where a request goes, or the answer that refuses it.\<close>

definition forward_url :: "(string \<Rightarrow> string) \<Rightarrow> (string \<times> string) list \<Rightarrow> workspace \<Rightarrow> workspace_domain \<Rightarrow> string \<Rightarrow> (response, string) result" where
  "forward_url dbg ips ws d path_and_query =
     (case domain_target_of dbg d of
        Inr (BackendUrl url) \<Rightarrow> Ok (trim_end_slashes url @ path_and_query)
      | Inr (VmPort port) \<Rightarrow>
          (case map_of ips (w_id ws) of
             None \<Rightarrow> Err (no_live_jail (w_id ws) port)
           | Some ip \<Rightarrow> Ok (''http://'' @ ip @ '':'' @ show_nat port @ path_and_query))
      | Inl e \<Rightarrow> Err (gw_bad_gateway (''invalid workspace domain: '' @ ctl_error_display e)))"

definition gw_forwarded_headers :: "gateway \<Rightarrow> headers \<Rightarrow> headers" where
  "gw_forwarded_headers gw h = filter (\<lambda>(n, v). \<not> gw_hop_by_hop n \<and> gw_header_ok gw n v) h"

definition gw_copy_headers :: "gateway \<Rightarrow> headers \<Rightarrow> headers" where
  "gw_copy_headers gw h = fold (\<lambda>(n, v). hm_insert n v) (gw_forwarded_headers gw h) []"

text \<open>The answer of the upstream as the client gets it.\<close>

definition gw_respond :: "gateway \<Rightarrow> (string, upstream_response) result \<Rightarrow> response" where
  "gw_respond gw res =
     (case res of
        Inl e \<Rightarrow> gw_bad_gateway e
      | Inr resp \<Rightarrow>
          (case gw_bytes gw resp of
             Inl e \<Rightarrow> gw_bad_gateway (''upstream read: '' @ e)
           | Inr body \<Rightarrow>
               \<lparr>rs_status = (if 100 \<le> us_status resp \<and> us_status resp < 1000 then us_status resp else 500),
                rs_headers = gw_copy_headers gw (us_headers resp), rs_body = body\<rparr>))"

text \<open>The handler: the answer, \<open>None\<close> if it panics, and the requests it has sent.\<close>

definition gw_proxy ::
  "gateway \<Rightarrow> workspace list \<Rightarrow> (string \<times> string) list \<Rightarrow> gw_request \<Rightarrow> response option \<times> upstream_request list" where
  "gw_proxy gw rows ips req =
     (case extract_host gw (gr_headers req) of
        None \<Rightarrow> (Some (gw_bad_request ''missing Host header''), [])
      | Some host \<Rightarrow>
          (case ws_by_domain host rows of
             None \<Rightarrow> (Some (gw_not_found host), [])
           | Some (ws, d) \<Rightarrow>
               (case forward_url (gw_debug gw) ips ws d (unwrap_or ''/'' (gr_target req)) of
                  Inl r \<Rightarrow> (Some r, [])
                | Inr url \<Rightarrow>
                    (case gw_to_bytes gw (gr_body req) MAX_BODY_BYTES of
                       Inl e \<Rightarrow> (Some (gw_bad_request (''body read: '' @ e)), [])
                     | Inr body \<Rightarrow>
                         if \<not> gw_value_ok gw host then (None, [])
                         else
                           (let u = \<lparr>ur_method = unwrap_or ''GET'' (gw_method gw (gr_method req)), ur_url = url,
                                     ur_headers = gw_forwarded_headers gw (gr_headers req) @ [(''x-forwarded-host'', host)],
                                     ur_body = body\<rparr>
                            in (Some (gw_respond gw (gw_send gw u)), [u]))))))"

section \<open>Addresses of running jails\<close>

text \<open>Nothing but the start and the end of an execution changes the registered addresses.\<close>

lemma record_snapshot_ips: "record_snapshot w cfg ws name st = (r, st') \<Longrightarrow> ct_ips st' = ct_ips st"
  by (auto simp: record_snapshot_def Let_def split: sum.splits)

lemma rehydrate_ips: "rehydrate w cfg dir parent i label st = (r, st') \<Longrightarrow> ct_ips st' = ct_ips st"
  by (auto simp: rehydrate_def Let_def split: sum.splits prod.splits)

lemma forks_ips: "fork_workspaces w cfg dir parent label k n st = (r, st') \<Longrightarrow> ct_ips st' = ct_ips st"
proof (induction n arbitrary: k r st st')
  case (Suc n)
  obtain r1 st1 r2 st2 where 1: "rehydrate w cfg dir parent (cw_ids w k) (fork_label label parent k) st = (r1, st1)"
    and 2: "fork_workspaces w cfg dir parent label (Suc k) n st1 = (r2, st2)"
    by fastforce
  then show ?case
    using Suc.prems rehydrate_ips [OF 1] Suc.IH [OF 2] by (cases r1) auto
qed simp

lemma fork_ips:
  assumes "fork_workspace w cfg scope i n label st = (r, st')"
  shows "ct_ips st' = ct_ips st"
proof -
  have "ct_ips st2 = ct_ips st" if "record_snapshot w cfg ws name st = (r1, st1)"
    "fork_workspaces w cfg dir parent label 0 n st1 = (r2, st2)" for ws name dir parent r1 r2 st1 st2
    using record_snapshot_ips [OF that(1)] forks_ips [OF that(2)] by simp
  then show ?thesis
    using assms record_snapshot_ips
    by (auto simp: fork_workspace_def split: if_splits option.splits sum.splits prod.splits)
qed

lemma serve_ips:
  assumes "serve w cfg scope rq st = (r, st')"
  shows "ct_ips st' = ct_ips st"
proof (cases rq)
  case (CreateWorkspace req)
  with assms show ?thesis
    by (auto simp: serve_def answer_eq create_workspace_def Let_def split: sum.splits prod.splits)
next
  case (ForkWorkspace i n label)
  with assms fork_ips show ?thesis
    by (auto simp: serve_def answer_eq)
next
  case (PatchWorkspace i label)
  with assms show ?thesis
    by (auto simp: serve_def answer_eq patch_workspace_def split: if_splits prod.splits)
next
  case (DeleteWorkspace i)
  with assms show ?thesis
    by (auto simp: serve_def answer_eq delete_workspace_def forget_lock_def split: if_splits prod.splits option.splits)
next
  case (CreateSnapshot i name)
  with assms record_snapshot_ips show ?thesis
    by (fastforce simp: serve_def answer_eq create_snapshot_def split: option.splits)
next
  case (DeleteSnapshot i)
  with assms show ?thesis
    by (auto simp: serve_def answer_eq delete_snapshot_def split: if_splits option.splits prod.splits)
next
  case (FromSnapshot sn p label)
  have "st' = st \<or> (\<exists>dir parent r'. rehydrate w cfg dir parent (cw_ids w 0)
      (unwrap_or (cw_slug w) (given_label label)) st = (r', st'))"
    using assms FromSnapshot unfolding serve_def create_workspace_from_snapshot_def
    by (simp add: answer_eq split: sum.splits prod.splits) blast
  then show ?thesis
    using rehydrate_ips by blast
qed (use assms in \<open>auto simp: serve_def answer_eq\<close>)

lemma pause_ips: "ct_ips (snd (pause_one w cfg ws st)) = ct_ips st"
proof -
  obtain r1 st1 where snap: "record_snapshot w cfg ws (Some (''auto:'' @ w_id ws)) st = (r1, st1)"
    by fastforce
  then show ?thesis
    using record_snapshot_ips [OF snap] unfolding pause_one_def snap by (cases r1) simp_all
qed

lemma gc_ips: "gc_run_once cfg now gc st = (n, st') \<Longrightarrow> ct_ips st' = ct_ips st"
proof -
  have "ct_ips (snd (fold gc_remove rs (k, st))) = ct_ips st" for rs k st
    by (induction rs arbitrary: k st) (auto simp: gc_remove_def split: prod.splits)
  moreover assume "gc_run_once cfg now gc st = (n, st')"
  ultimately show ?thesis
    by (auto simp: gc_run_once_def split: if_splits option.splits prod.splits) (metis snd_conv)
qed

text \<open>An execution keeps which rows there are and which are live.\<close>

definition row_keys :: "ctl_state \<Rightarrow> (string \<times> int option) list" where
  "row_keys st = map (\<lambda>r. (w_id r, w_deleted_at r)) (ct_ws st)"

lemma row_keys_ids:
  assumes "row_keys st' = row_keys st"
  shows "all_ids st' = all_ids st" "live_ids st' = live_ids st"
proof -
  have "all_ids st = fst ` set (row_keys st)" "live_ids st = fst ` {k \<in> set (row_keys st). snd k = None}" for st
    unfolding all_ids_def live_ids_def row_keys_def ws_live_def by force+
  with assms show "all_ids st' = all_ids st" "live_ids st' = live_ids st"
    by simp_all
qed

lemma resume_keys: "ws_resume w cfg ws st = (r, st') \<Longrightarrow> row_keys st' = row_keys st \<and> ct_ips st' = ct_ips st"
  by (auto simp: ws_resume_def ws_mark_resumed_def row_keys_def row_update_def split: option.splits prod.splits sum.splits)

lemma enter_keys:
  assumes "ws_exec_enter w cfg ws req st = (r, st')"
  shows "row_keys st' = row_keys st" "ct_ips st' = ct_ips st" "r = Ok rn \<Longrightarrow> rn_ws rn = ws"
proof -
  obtain n st1 where lock: "lock_for (w_id ws) st = (n, st1)"
    by fastforce
  obtain r2 st2 where res: "ws_resume w cfg ws st1 = (r2, st2)"
    by fastforce
  have st1: "row_keys st1 = row_keys st" "ct_ips st1 = ct_ips st"
    using lock by (auto simp: lock_for_def row_keys_def split: option.splits)
  have touched: "map (\<lambda>r. (w_id r, w_deleted_at r)) (ws_touch now i rows) = map (\<lambda>r. (w_id r, w_deleted_at r)) rows" for now i rows
    by (simp add: ws_touch_def row_update_def)
  show "row_keys st' = row_keys st" "ct_ips st' = ct_ips st" "r = Ok rn \<Longrightarrow> rn_ws rn = ws"
    using assms lock res st1 resume_keys [OF res]
    by (auto simp: ws_exec_enter_def row_keys_def Let_def touched split: if_splits sum.splits prod.splits)
qed

definition ips_ok :: "ctl_state \<Rightarrow> (running \<times> string option \<times> string option) list \<Rightarrow> bool" where
  "ips_ok st runs =
     (\<forall>i ip. map_of (ct_ips st) i = Some ip \<longrightarrow>
        i \<in> all_ids st \<and> (i \<in> live_ids st \<longrightarrow> (\<exists>rn cgroup. (rn, cgroup, Some ip) \<in> set runs \<and> w_id (rn_ws rn) = i)))"

lemma ips_ok_mono:
  assumes "ips_ok st runs" "ct_ips st' = ct_ips st" "all_ids st \<subseteq> all_ids st'" "live_ids st' \<inter> all_ids st \<subseteq> live_ids st"
  shows "ips_ok st' runs"
  using assms unfolding ips_ok_def by (metis IntI subsetD)

lemma ips_ok_grows: "ips_ok st runs \<Longrightarrow> ct_ips st' = ct_ips st \<Longrightarrow> grows cfg st st' \<Longrightarrow> ips_ok st' runs"
  unfolding grows_def by (elim conjE) (rule ips_ok_mono)

lemma ips_ok_enter:
  assumes "ips_ok st runs" "ws_exec_enter w cfg ws req st = (Ok rn, st')" "w_id ws \<in> all_ids st"
  shows "ips_ok (ws_exec_register rn cgroup ip st') ((rn, cgroup, ip) # runs)"
proof -
  note keys = enter_keys [OF assms(2)]
  let ?st = "ws_exec_register rn cgroup ip st'"
  have ids: "all_ids ?st = all_ids st" "live_ids ?st = live_ids st"
    using row_keys_ids [OF keys(1)] by (simp_all add: ws_exec_register_def Let_def all_ids_def live_ids_def)
  have ips: "map_of (ct_ips ?st) i = (if i = w_id ws \<and> ip \<noteq> None then ip else map_of (ct_ips st) i)" for i
    using keys(2,3) by (auto simp: ws_exec_register_def Let_def update_conv split: option.split)
  have "i \<in> all_ids st \<and>
      (i \<in> live_ids st \<longrightarrow> (\<exists>rn' c. (rn', c, Some a) \<in> set ((rn, cgroup, ip) # runs) \<and> w_id (rn_ws rn') = i))"
    if "map_of (ct_ips ?st) i = Some a" for i a
  proof (cases "i = w_id ws \<and> ip \<noteq> None")
    case True
    with that ips [of i] have "ip = Some a"
      by simp
    with True assms(3) keys(3) show ?thesis
      by auto
  next
    case False
    then have "map_of (ct_ips st) i = Some a"
      using that ips [of i] by (simp del: de_Morgan_conj)
    then show ?thesis
      using assms(1) unfolding ips_ok_def by (metis list.set_intros(2))
  qed
  then show ?thesis
    unfolding ips_ok_def ids by blast
qed

lemma ips_ok_leave:
  assumes "ips_ok st runs" "ws_exec_leave show_err now rn cgroup ip outcome st = (r, st')"
  shows "ips_ok st' (remove1 (rn, cgroup, ip) runs)"
proof -
  let ?i = "w_id (rn_ws rn)"
  have st': "ct_ws st' = ct_ws st" "ct_ips st' = (if ip = None then ct_ips st else AList.delete ?i (ct_ips st))"
    using assms(2) by (auto simp: ws_exec_leave_def Let_def split: prod.splits)
  have ids: "all_ids st' = all_ids st" "live_ids st' = live_ids st"
    by (simp_all add: all_ids_def live_ids_def st')
  have "\<exists>rn' cgroup'. (rn', cgroup', Some a) \<in> set (remove1 (rn, cgroup, ip) runs) \<and> w_id (rn_ws rn') = j"
    if j: "map_of (ct_ips st') j = Some a" "j \<in> live_ids st" for j a
  proof -
    have kept: "map_of (ct_ips st) j = Some a" "ip = None \<or> j \<noteq> ?i"
      using j(1) by (auto simp: st' delete_conv' split: if_splits)
    then obtain rn' cgroup' where "(rn', cgroup', Some a) \<in> set runs" "w_id (rn_ws rn') = j"
      using assms(1) j(2) unfolding ips_ok_def by blast
    moreover from this kept(2) have "(rn', cgroup', Some a) \<noteq> (rn, cgroup, ip)"
      by auto
    ultimately show ?thesis
      using in_set_remove1 by metis
  qed
  moreover have "j \<in> all_ids st" if "map_of (ct_ips st') j = Some a" for j a
    using that assms(1) by (auto simp: st' delete_conv' ips_ok_def split: if_splits)
  ultimately show ?thesis
    unfolding ips_ok_def ids by blast
qed

lemma sys_reach_ips: "sys_reach cfg gc permits s \<Longrightarrow> ips_ok (sy_ctl s) (sy_running s)"
proof (induction rule: sys_reach.induct)
  case (Start dk)
  show ?case
    by (simp add: ips_ok_def sys_init_def)
next
  case (Step s s')
  have inv: "sys_inv cfg permits s"
    using sys_reach_inv [OF Step(1)] .
  from Step(2,3) inv show ?case
  proof (induction rule: sys_step.induct)
    case (Serve w s scope rq r st)
    then show ?case
      using ips_ok_grows [OF _ serve_ips [OF Serve(2)] serve_grows [OF Serve(1,2)]] by simp
  next
    case (Enter ws req s w rn st cgroup ip)
    then show ?case
      using ips_ok_enter [OF _ Enter(2)] by (fastforce simp: sys_inv_def)
  next
    case (Refuse ws req s w e st)
    then show ?case
      using ips_ok_mono [of "sy_ctl s" "sy_running s" st] enter_keys(2) [OF Refuse(2)] row_keys_ids [OF enter_keys(1) [OF Refuse(2)]] by simp
  next
    case (Leave rn cgroup ip s show_err now outcome r st)
    then show ?case
      using ips_ok_leave [OF _ Leave(2)] by simp
  next
    case (Reap s ws rows w due st)
    then show ?case
      using ips_ok_grows [of "sy_ctl s" "sy_running s" "snd (pause_one w cfg ws (sy_ctl s))" cfg] pause_ips pause_one_grows by auto
  next
    case (Collect now s n st)
    then show ?case
      using ips_ok_grows [OF _ gc_ips [OF Collect(1)] gc_grows [OF Collect(1)]] by simp
  qed (auto simp: ips_ok_def ws_exec_write_def all_ids_def live_ids_def)
qed

section \<open>Where requests go\<close>

text \<open>The documented behaviour of header values: read as text they are unchanged and visible characters,
  and a text of visible characters is a header value.\<close>

definition visible :: "string \<Rightarrow> bool" where
  "visible s = list_all (\<lambda>c. (of_char c :: nat) = 9 \<or> 32 \<le> (of_char c :: nat) \<and> (of_char c :: nat) < 127) s"

definition header_values :: "gateway \<Rightarrow> bool" where
  "header_values gw =
     (\<forall>v. (\<forall>s. gw_to_str gw v = Some s \<longrightarrow> s = v \<and> visible v) \<and> (visible v \<longrightarrow> gw_value_ok gw v))"

lemma strip_all_set: "set (strip_all ws s) \<subseteq> set s"
proof (induction ws s rule: strip_all.induct)
  case (1 ws s)
  have "set r \<subseteq> set s" if "first_strip ws s = Some r" for r
    using that by (induction ws) (auto simp: strip_prefix_Some_iff split: option.splits if_splits)
  then show ?case
    using 1 by (subst strip_all.simps) (auto split: option.split)
qed

lemma trim_set: "set (trim s) \<subseteq> set s"
  using strip_all_set [of "map rev ws_seqs" "rev (strip_all ws_seqs s)"] strip_all_set [of ws_seqs s]
  by (auto simp: trim_def)

lemma split_on_hd_set: "set (hd (split_on d s)) \<subseteq> set s"
  by (induction s) (auto split: list.split)

lemma ascii_lower_twice: "map ascii_lower (map ascii_lower s) = map ascii_lower s"
proof -
  have "(of_char (ascii_lower (ascii_lower c)) :: nat) = of_char (ascii_lower c)" for c
    unfolding ascii_lower_code by simp
  then have "ascii_lower (ascii_lower c) = ascii_lower c" for c
    by (metis char_of_char)
  then show ?thesis
    by simp
qed

lemma visible_lower: "visible s \<Longrightarrow> visible (map ascii_lower s)"
proof -
  have "(of_char (ascii_lower c) :: nat) = 9 \<or> 32 \<le> (of_char (ascii_lower c) :: nat) \<and> (of_char (ascii_lower c) :: nat) < 127"
    if "(of_char c :: nat) = 9 \<or> 32 \<le> (of_char c :: nat) \<and> (of_char c :: nat) < 127" for c
    using that unfolding ascii_lower_code by (simp split: if_split)
  then show "visible s \<Longrightarrow> visible (map ascii_lower s)"
    unfolding visible_def list_all_iff set_map by blast
qed

text \<open>The host is a visible lower-case text, so it can be sent as a header.\<close>

lemma extract_host_visible:
  assumes "header_values gw" "extract_host gw h = Some host"
  shows "visible host" "gw_value_ok gw host" "map ascii_lower host = host"
proof -
  obtain raw where raw: "visible raw" "host = map ascii_lower (trim (hd (split_on CHR '':'' raw)))"
    using assms by (auto simp: extract_host_def header_values_def Let_def split: bind_splits if_splits)
  have "visible (trim (hd (split_on CHR '':'' raw)))"
    using raw(1) trim_set [of "hd (split_on CHR '':'' raw)"] split_on_hd_set [of "CHR '':''" raw]
    unfolding visible_def list_all_iff by blast
  then show "visible host"
    unfolding raw(2) by (rule visible_lower)
  then show "gw_value_ok gw host"
    using assms(1) by (simp add: header_values_def)
  show "map ascii_lower host = host"
    unfolding raw(2) by (rule ascii_lower_twice)
qed

lemma first_domain_Some: "first_domain host ds = Some d \<Longrightarrow> d \<in> set ds \<and> str_lower (wd_domain d) = str_lower host"
  by (induction ds) (auto split: if_splits)

lemma ws_by_domain_Some:
  "ws_by_domain host rows = Some (ws, d) \<Longrightarrow>
     ws \<in> set rows \<and> ws_live ws \<and> d \<in> set (w_domains ws) \<and> str_lower (wd_domain d) = str_lower (str_lower host)"
  by (induction rows) (auto split: if_splits option.splits dest: first_domain_Some)

lemma ws_by_domain_None:
  "ws_by_domain host rows = None \<longleftrightarrow>
     (\<forall>ws \<in> set rows. ws_live ws \<longrightarrow> (\<forall>d \<in> set (w_domains ws). str_lower (wd_domain d) \<noteq> str_lower (str_lower host)))"
proof -
  have "first_domain h ds = None \<longleftrightarrow> (\<forall>d \<in> set ds. str_lower (wd_domain d) \<noteq> str_lower h)" for h ds
    by (induction ds) auto
  then show ?thesis
    by (induction rows) (auto split: option.split dest: first_domain_Some)
qed

lemma domains_ok_target: "domains_ok dbg ds = Ok () \<Longrightarrow> d \<in> set ds \<Longrightarrow> \<exists>t. domain_target_of dbg d = Ok t"
  by (induction ds) (auto simp: and_then_Ok_iff)

text \<open>The address a request for a domain may be forwarded to: the backend the workspace declares, or the
  declared port at the address of a jail that runs in this workspace.\<close>

definition routed :: "system \<Rightarrow> workspace \<Rightarrow> workspace_domain \<Rightarrow> string \<Rightarrow> string \<Rightarrow> bool" where
  "routed s ws d target url =
     ((\<exists>base. wd_backend_url d = Some base \<and> url = trim_end_slashes base @ target) \<or>
      (\<exists>port rn cgroup ip. wd_vm_port d = Some port \<and> (rn, cgroup, Some ip) \<in> set (sy_running s) \<and>
         w_id (rn_ws rn) = w_id ws \<and> url = ''http://'' @ ip @ '':'' @ show_nat port @ target))"

lemma domain_target_cases:
  assumes "domain_target_of dbg d = Ok t"
  obtains (backend) url where "t = BackendUrl url" "wd_backend_url d = Some url" "wd_vm_port d = None"
  | (port) p where "t = VmPort p" "wd_backend_url d = None" "wd_vm_port d = Some p"
  using assms by (auto simp: domain_target_of_def split: option.splits if_splits)

lemma forward_url_routed:
  assumes s: "sys_reach cfg gc permits s" and ws: "ws \<in> set (ct_ws (sy_ctl s))" "ws_live ws" "d \<in> set (w_domains ws)"
  shows "(\<exists>url. forward_url dbg (ct_ips (sy_ctl s)) ws d target = Ok url \<and> routed s ws d target url \<and>
        (wd_vm_port d = None \<or> map_of (ct_ips (sy_ctl s)) (w_id ws) \<noteq> None)) \<or>
    (\<exists>port. forward_url dbg (ct_ips (sy_ctl s)) ws d target = Err (no_live_jail (w_id ws) port) \<and> wd_vm_port d = Some port \<and>
        map_of (ct_ips (sy_ctl s)) (w_id ws) = None)"
proof -
  have "domains_ok dbg (w_domains ws) = Ok ()"
    using sys_reach_typed [OF s] ws(1) domains_ok_any [of "\<lambda>s. s" "w_domains ws" dbg]
    by (simp add: sys_typed_def typed_def list_all_iff row_typed_def)
  then obtain t where t: "domain_target_of dbg d = Ok t"
    using domains_ok_target ws(3) by blast
  then show ?thesis
  proof (cases rule: domain_target_cases)
    case (backend url)
    then show ?thesis
      by (simp add: forward_url_def t routed_def)
  next
    case (port p)
    show ?thesis
    proof (cases "map_of (ct_ips (sy_ctl s)) (w_id ws)")
      case None
      then show ?thesis
        by (simp add: forward_url_def t port)
    next
      case (Some ip)
      have "w_id ws \<in> live_ids (sy_ctl s)"
        using ws(1,2) unfolding live_ids_def by blast
      then have "\<exists>rn cgroup. (rn, cgroup, Some ip) \<in> set (sy_running s) \<and> w_id (rn_ws rn) = w_id ws"
        using sys_reach_ips [OF s] Some unfolding ips_ok_def by blast
      then show ?thesis
        by (simp add: forward_url_def t port Some routed_def)
    qed
  qed
qed

text \<open>C19. The gateway.  In every interleaving a request to the gateway is answered and forwarded at most
  once, and then only for a host that a live workspace declares: to the backend that workspace declares,
  or to the declared port at the address of a jail that runs in that very workspace at that time, with
  the host name as the last header and none that belongs to the connection.  A request that is not
  forwarded gets 404 exactly when no live workspace declares its host, 503 exactly when its host is
  served from a jail and none is registered, and 400 otherwise.\<close>
theorem gateway_routes:
  assumes s: "sys_reach cfg gc permits s" and gw: "header_values gw"
    and run: "gw_proxy gw (ct_ws (sy_ctl s)) (ct_ips (sy_ctl s)) req = (r, sent)"
  shows "\<exists>a. r = Some a \<and> length sent \<le> 1 \<and>
    (\<forall>u \<in> set sent. \<exists>host ws d. extract_host gw (gr_headers req) = Some host \<and> ws \<in> set (ct_ws (sy_ctl s)) \<and> ws_live ws \<and>
       d \<in> set (w_domains ws) \<and> str_lower (wd_domain d) = host \<and> routed s ws d (unwrap_or ''/'' (gr_target req)) (ur_url u) \<and>
       (\<forall>(n, v) \<in> set (ur_headers u). \<not> gw_hop_by_hop n) \<and> last (ur_headers u) = (''x-forwarded-host'', host)) \<and>
    (sent = [] \<longrightarrow> rs_status a \<in> {400, 404, 503} \<and>
       (rs_status a = 404 \<longleftrightarrow> (\<exists>host. extract_host gw (gr_headers req) = Some host \<and>
          (\<forall>ws \<in> set (ct_ws (sy_ctl s)). ws_live ws \<longrightarrow> (\<forall>d \<in> set (w_domains ws). str_lower (wd_domain d) \<noteq> host)))) \<and>
       (rs_status a = 503 \<longleftrightarrow> (\<exists>host ws d port. extract_host gw (gr_headers req) = Some host \<and>
          ws_by_domain host (ct_ws (sy_ctl s)) = Some (ws, d) \<and> wd_vm_port d = Some port \<and>
          map_of (ct_ips (sy_ctl s)) (w_id ws) = None)))"
proof (cases "extract_host gw (gr_headers req)")
  case None
  then show ?thesis
    using run by (auto simp: gw_proxy_def gw_bad_request_def)
next
  case host: (Some host)
  note safe = extract_host_visible [OF gw host]
  have lower: "str_lower (str_lower host) = host"
    using safe(3) by (simp add: str_lower_def)
  show ?thesis
  proof (cases "ws_by_domain host (ct_ws (sy_ctl s))")
    case None
    then show ?thesis
      using run host ws_by_domain_None [of host "ct_ws (sy_ctl s)"] lower by (auto simp: gw_proxy_def gw_not_found_def)
  next
    case (Some found)
    obtain ws d where found: "found = (ws, d)"
      by fastforce
    have ws: "ws \<in> set (ct_ws (sy_ctl s))" "ws_live ws" "d \<in> set (w_domains ws)" "str_lower (wd_domain d) = host"
      using ws_by_domain_Some [OF Some [unfolded found]] lower by auto
    have hop: "\<not> gw_hop_by_hop ''x-forwarded-host''"
      by code_simp
    let ?target = "unwrap_or ''/'' (gr_target req)"
    consider (go) url where "forward_url (gw_debug gw) (ct_ips (sy_ctl s)) ws d ?target = Ok url" "routed s ws d ?target url"
        "wd_vm_port d = None \<or> map_of (ct_ips (sy_ctl s)) (w_id ws) \<noteq> None"
      | (stop) port where "forward_url (gw_debug gw) (ct_ips (sy_ctl s)) ws d ?target = Err (no_live_jail (w_id ws) port)"
        "wd_vm_port d = Some port" "map_of (ct_ips (sy_ctl s)) (w_id ws) = None"
      using forward_url_routed [OF s ws(1-3)] by blast
    then show ?thesis
    proof cases
      case go
      show ?thesis
      proof (cases "gw_to_bytes gw (gr_body req) MAX_BODY_BYTES")
        case (Inl e)
        then have "r = Some (gw_bad_request (''body read: '' @ e))" "sent = []"
          using run host Some found go(1) by (simp_all add: gw_proxy_def)
        then show ?thesis
          using ws host Some found go(3) by (auto simp: gw_bad_request_def)
      next
        case (Inr body)
        then obtain u where u: "sent = [u]" "ur_url u = url"
            "ur_headers u = gw_forwarded_headers gw (gr_headers req) @ [(''x-forwarded-host'', host)]"
          and "r = Some (gw_respond gw (gw_send gw u))"
          using run host Some found go(1) safe(2) by (auto simp: gw_proxy_def Let_def)
        moreover have "\<forall>(n, v) \<in> set (ur_headers u). \<not> gw_hop_by_hop n" "last (ur_headers u) = (''x-forwarded-host'', host)"
          using hop by (auto simp: u(3) gw_forwarded_headers_def)
        ultimately show ?thesis
          using ws host go(2) by auto
      qed
    next
      case stop
      then have "r = Some (no_live_jail (w_id ws) port)" "sent = []"
        using run host Some found by (simp_all add: gw_proxy_def)
      then show ?thesis
        using ws host Some found stop(2,3) by (auto simp: no_live_jail_def)
    qed
  qed
qed

text \<open>A workspace that declares a domain, and a request for it.\<close>

definition demo_domain :: workspace_domain where
  "demo_domain = \<lparr>wd_domain = ''App.example'', wd_backend_url = Some ''http://10.0.0.9:3000/'', wd_vm_port = None\<rparr>"

definition demo_domain_request :: create_request where
  "demo_domain_request = demo_create_request\<lparr>cq_domains := Some [demo_domain]\<rparr>"

definition demo_domain_row :: workspace where
  "demo_domain_row = demo_workspace\<lparr>w_domains := [demo_domain]\<rparr>"

definition demo_gw :: gateway where
  "demo_gw = \<lparr>gw_to_str = (\<lambda>v. if visible v then Some v else None), gw_value_ok = visible, gw_header_ok = (\<lambda>_ _. True),
     gw_method = Some, gw_to_bytes = (\<lambda>b n. if length b \<le> n then Ok b else Err ''length limit exceeded''),
     gw_send = (\<lambda>u. Ok \<lparr>us_status = 200, us_headers = [], us_body = ''hello'', us_latency = 1\<rparr>), gw_bytes = (\<lambda>r. Ok (us_body r)),
     gw_debug = (\<lambda>s. s)\<rparr>"

definition demo_gw_request :: gw_request where
  "demo_gw_request = \<lparr>gr_method = ''GET'', gr_target = Some ''/x'', gr_headers = [(''host'', ''app.Example:8080'')], gr_body = []\<rparr>"

lemma demo_domain_created:
  "\<exists>r st. serve demo_ctl_world demo_cfg demo_operator (CreateWorkspace demo_domain_request) (sy_ctl (sys_init 2 demo_disk)) = (r, st) \<and>
     ct_ws st = [demo_domain_row] \<and> ct_ips st = []"
proof -
  have spec: "create_spec demo_ctl_world demo_cfg demo_domain_request =
      Ok (options_to_spec (cq_options demo_create_request) 512 300 60 [])"
    using demo_spec_created by (simp add: create_spec_def demo_domain_request_def)
  have ok: "domains_ok dbg [demo_domain] = Ok ()" for dbg
    by (simp add: demo_domain_def domain_target_of_def starts_with_def)
  have "cw_ids demo_ctl_world 0 = ''wrk_n''" "cq_git demo_domain_request = None"
    "cq_domains demo_domain_request = Some [demo_domain]" "cq_label demo_domain_request = Some ''box''"
    by (simp_all add: demo_ctl_world_def demo_domain_request_def demo_create_request_def)
  then show ?thesis
    using ok demo_label
    by (simp add: serve_def answer_def create_workspace_def spec demo_dirs Let_def
        ws_insert_def row_insert_def row_get_def sys_init_def demo_domain_row_def demo_workspace_def new_row_def demo_operator_def)
qed

theorem gateway_routes_witness:
  "\<exists>s a u. sys_reach demo_cfg demo_gc 2 s \<and>
     gw_proxy demo_gw (ct_ws (sy_ctl s)) (ct_ips (sy_ctl s)) demo_gw_request = (Some a, [u]) \<and>
     routed s demo_domain_row demo_domain ''/x'' (ur_url u) \<and> ur_url u = ''http://10.0.0.9:3000/x'' \<and> rs_status a = 200"
proof -
  obtain r st where st: "serve demo_ctl_world demo_cfg demo_operator (CreateWorkspace demo_domain_request) (sy_ctl (sys_init 2 demo_disk)) = (r, st)"
    "ct_ws st = [demo_domain_row]" "ct_ips st = []"
    using demo_domain_created by blast
  let ?s = "(sys_init 2 demo_disk)\<lparr>sy_ctl := st\<rparr>"
  have reach: "sys_reach demo_cfg demo_gc 2 ?s"
    using demo_ctl_ok(5,6) by (intro sys_reach.Step [OF sys_reach.Start Serve [OF _ st(1)]]) (simp add: plain_world_def)
  have gw: "header_values demo_gw"
    by (simp add: header_values_def demo_gw_def)
  have host: "extract_host demo_gw (gr_headers demo_gw_request) = Some ''app.example''" "str_lower ''App.example'' = ''app.example''"
    "trim_end_slashes ''http://10.0.0.9:3000/'' = ''http://10.0.0.9:3000''"
    by code_simp+
  have row: "ws_live demo_domain_row" "w_domains demo_domain_row = [demo_domain]"
    by (simp_all add: demo_domain_row_def ws_live_def demo_workspace_def new_row_def)
  then have found: "ws_by_domain ''app.example'' [demo_domain_row] = Some (demo_domain_row, demo_domain)"
    using host(2) by (simp add: demo_domain_def str_lower_def)
  have url: "forward_url (gw_debug demo_gw) [] demo_domain_row demo_domain ''/x'' = Ok ''http://10.0.0.9:3000/x''"
    using host(3) by (simp add: forward_url_def demo_domain_def domain_target_of_def starts_with_def)
  have req: "gr_target demo_gw_request = Some ''/x''" "gw_to_bytes demo_gw (gr_body demo_gw_request) MAX_BODY_BYTES = Ok []"
    "gw_value_ok demo_gw ''app.example''"
    by (simp_all add: demo_gw_request_def demo_gw_def) code_simp
  have ok: "rs_status (gw_respond demo_gw (gw_send demo_gw u)) = 200" for u
    by (simp add: gw_respond_def demo_gw_def)
  have "gw_proxy demo_gw (ct_ws (sy_ctl ?s)) (ct_ips (sy_ctl ?s)) demo_gw_request =
      (let u = \<lparr>ur_method = unwrap_or ''GET'' (gw_method demo_gw (gr_method demo_gw_request)), ur_url = ''http://10.0.0.9:3000/x'',
         ur_headers = gw_forwarded_headers demo_gw (gr_headers demo_gw_request) @ [(''x-forwarded-host'', ''app.example'')], ur_body = []\<rparr>
       in (Some (gw_respond demo_gw (gw_send demo_gw u)), [u]))"
    using st(2,3) host(1) found url req by (simp add: gw_proxy_def)
  then obtain a u where run: "gw_proxy demo_gw (ct_ws (sy_ctl ?s)) (ct_ips (sy_ctl ?s)) demo_gw_request = (Some a, [u])"
    "ur_url u = ''http://10.0.0.9:3000/x''" "rs_status a = 200"
    using ok by (auto simp: Let_def)
  have "routed ?s demo_domain_row demo_domain ''/x'' (ur_url u)"
    using gateway_routes [OF reach gw run(1)] st(2) row(2) req(1) by auto
  with reach run show ?thesis
    by blast
qed

end
