(* ===== verification/Workspace_Sweep.thy ===== *)
theory Workspace_Sweep
  imports Workspace_Races
begin

text \<open>
  What the background sweeps do to workspaces: the reaper under running executions, its idle limits,
  and the policy of the garbage collection of snapshots.
\<close>

section \<open>The reaper and running executions\<close>

text \<open>C40. The reaper does not see a running execution.  It asks only when an execution was last started:
  when one runs for longer than the idle limit of its workspace, a sweep that has reached the row can
  capture the tree, empty the source directory under the running command and mark the workspace as
  paused, so that the next execution replaces whatever the command writes afterwards.\<close>
theorem reaper_wipes_running:
  assumes s: "sys_reach cfg gc permits s" "(rn, cgroup, ip) \<in> set (sy_running s)" "sy_sweep s = ws # rows"
    and same: "w_id ws = w_id (rn_ws rn)" and due: "idle_due (cw_now w) ws = Some True"
    and p: "pausable w cfg (w_id ws) ws d (sy_ctl s)" "plain_world w"
  shows "\<exists>s' ws1. sys_step cfg gc s s' \<and> (rn, cgroup, ip) \<in> set (sy_running s') \<and>
    dir_at (jc_source (rn_config rn)) (ct_disk (sy_ctl s)) = Some d \<and>
    dir_at (jc_source (rn_config rn)) (ct_disk (sy_ctl s')) = Some [] \<and>
    ws_get (w_id ws) (ct_ws (sy_ctl s')) = Some ws1 \<and> w_auto_snapshot ws1 = Some (cw_snap_id w)"
proof -
  have ok: "runs_ok cfg (permits - sy_others s) (sy_ctl s) (map fst (sy_running s))"
    using sys_reach_inv [OF s(1)] by (simp add: sys_inv_def)
  have "ws \<in> set (ct_ws (sy_ctl s))"
    using p(1) workspaces.get_some [of "w_id ws" "ct_ws (sy_ctl s)" ws] by (simp add: pausable_def)
  then have src: "jc_source (rn_config rn) = w_source_dir ws"
    using ok s(2) same by (auto simp: runs_ok_def laid_out_def)
  obtain st1 ws1 where st1: "pause_one w cfg ws (sy_ctl s) = (True, st1)" "dir_at (w_source_dir ws) (ct_disk st1) = Some []"
    "ws_get (w_id ws) (ct_ws st1) = Some ws1"
    and ws1: "ws1 = ws\<lparr>w_paused_at := Some (cw_now w), w_auto_snapshot := Some (cw_snap_id w)\<rparr>"
    using pause_kept [OF p(1)] by metis
  have "sys_step cfg gc s (s\<lparr>sy_ctl := st1, sy_sweep := rows\<rparr>)"
    using Reap [OF s(3) due p(2), of st1 cfg gc] st1(1) by simp
  then show ?thesis
    using st1 s(2) p(1) unfolding src
    by (intro exI [of _ "s\<lparr>sy_ctl := st1, sy_sweep := rows\<rparr>"] exI [of _ ws1]) (simp add: pausable_def ws1)
qed

text \<open>The demonstration run, a sweep that reads the row, and a clock a hundred seconds later.\<close>

definition demo_later :: ctl_world where
  "demo_later = demo_ctl_world\<lparr>cw_now := 100000000000\<rparr>"

theorem reaper_wipes_running_witness:
  "\<exists>s s' rn ws1. sys_reach demo_cfg demo_gc 2 s \<and> sys_step demo_cfg demo_gc s s' \<and> sy_running s = [(rn, None, None)] \<and>
     (rn, None, None) \<in> set (sy_running s') \<and> dir_at (jc_source (rn_config rn)) (ct_disk (sy_ctl s')) = Some [] \<and>
     ws_get ''wrk_n'' (ct_ws (sy_ctl s')) = Some ws1 \<and> w_auto_snapshot ws1 = Some ''snap_n''"
proof -
  obtain s rn where s: "sys_reach demo_cfg demo_gc 2 s" "sy_running s = [(rn, None, None)]" "rn_ws rn = demo_workspace" "sy_sweep s = []"
     "ct_ws (sy_ctl s) = ws_touch 7 ''wrk_n'' [demo_workspace]" "ct_snaps (sy_ctl s) = []"
     "dir_at (ws_source demo_cfg ''wrk_n'') (ct_disk (sy_ctl s)) = Some []" "dk_ps (ct_disk (sy_ctl s)) = dk_ps demo_disk"
     "\<forall>p. manifest_at p (ct_disk (sy_ctl s)) = None"
    using demo_running by blast
  let ?row = "demo_workspace\<lparr>w_last_exec_at := Some 7\<rparr>" and ?s = "s\<lparr>sy_sweep := [demo_workspace\<lparr>w_last_exec_at := Some 7\<rparr>]\<rparr>"
  have row: "w_id demo_workspace = ''wrk_n''" "ws_live ?row" "w_source_dir demo_workspace = ws_source demo_cfg ''wrk_n''"
    "w_paused_at demo_workspace = None" "wsp_idle_timeout_secs (w_config demo_workspace) = 60" "ct_ws (sy_ctl s) = [?row]"
    by (simp_all add: s(5) ws_touch_def row_update_def ws_live_def demo_workspace_def new_row_def options_to_spec_def demo_create_request_def)
  have later: "cw_now demo_later = 100000000000" "cw_snap_id demo_later = ''snap_n''" "plain_world demo_later"
    using demo_ctl_ok(5,6) by (simp_all add: demo_later_def plain_world_def demo_ctl_world_def)
  have "fst (ws_list (cc_lower demo_cfg) None 500 0 None [?row]) = [?row]"
    using row(2) by (simp add: ws_list_def page_of_def newest_first_def needle_of_def hay_matches_def in_tenant_def Let_def)
  with sys_reach.Step [OF s(1) Sweep [OF s(4), of demo_cfg demo_gc]] have reach: "sys_reach demo_cfg demo_gc 2 ?s"
    by (simp add: row(6))
  have due: "idle_due (cw_now demo_later) ?row = Some True"
    by (simp add: idle_due_def row later offset_add_def offset_min_def offset_max_def as_i64_def NANOS_def)
  have paths: "snap_path demo_cfg ''snap_n'' = ''/s/snapshots/snap_n''" "ws_source demo_cfg ''wrk_n'' = ''/s/workspaces/wrk_n/source''"
    by code_simp+
  have "sf_pool (cc_snap demo_cfg) = None"
    by (simp add: demo_cfg_def)
  then have p: "pausable demo_later demo_cfg (w_id ?row) ?row [] (sy_ctl ?s)"
    using s(6-9) row(1,2,3) demo_ctl_ok(3)
    by (simp add: pausable_def row(6) later unique_ids_def ws_get_def row_get_def paths demo_disk_def demo_ctl_def)
  obtain s' ws1 where "sys_step demo_cfg demo_gc ?s s'" "(rn, None, None) \<in> set (sy_running s')"
    "dir_at (jc_source (rn_config rn)) (ct_disk (sy_ctl s')) = Some []"
    "ws_get ''wrk_n'' (ct_ws (sy_ctl s')) = Some ws1" "w_auto_snapshot ws1 = Some ''snap_n''"
    using reaper_wipes_running [OF reach _ _ _ due p later(3), of rn None None "[]"] s(2,3) row(1) later(2) by auto
  moreover have "sy_running ?s = [(rn, None, None)]"
    using s(2) by simp
  ultimately show ?thesis
    using reach by blast
qed

section \<open>Idle limits\<close>

text \<open>A row whose check panics ends the sweep: the rows before it have been handled, those after it are
  not looked at.\<close>

lemma reap_rows_panic:
  assumes "idle_due (cw_now w) ws = None" "\<forall>r \<in> set before. idle_due (cw_now w) r \<noteq> None"
  shows "reap_rows w cfg ids k (before @ ws # after) st = (None, snd (reap_rows w cfg ids k before st))"
  using assms(2)
proof (induction before arbitrary: k st)
  case Nil
  then show ?case
    using assms(1) by simp
next
  case (Cons r before)
  then obtain due where due: "idle_due (cw_now w) r = Some due"
    by auto
  show ?case
    using Cons.IH Cons.prems due by (cases due) (auto split: prod.splits simp del: split_paired_All)
qed

text \<open>C38. Idle limits.  With the clock inside the range of the dates, a workspace with a limit that is
  not paused is found idle exactly when its last execution, or its creation, is more than the limit
  ago, as long as the limit reaches back no further than the first date.  A longer limit makes the
  subtraction panic, and with it the sweep: no workspace behind it in the list is paused, of whatever
  tenant.  A limit of \<open>2 ^ 63\<close> seconds or more is read as a negative number.  Nearly all of these make the
  sweep panic too, \<open>2 ^ 63\<close> itself among them; only for those so near to \<open>2 ^ 64\<close> that the difference in
  seconds still leads to a date from the clock, the workspace is idle at once.\<close>
theorem idle_limits:
  assumes clock: "offset_min \<le> cw_now w" "cw_now w \<le> offset_max"
    and ws: "w_paused_at ws = None" "wsp_idle_timeout_secs (w_config ws) = secs" "0 < secs" "secs < 2 ^ 64"
    and used: "unwrap_or (w_created_at ws) (w_last_exec_at ws) = used" "used \<le> cw_now w"
    and before: "\<forall>r \<in> set before. idle_due (cw_now w) r \<noteq> None"
  shows "(int secs * NANOS \<le> cw_now w - offset_min \<longrightarrow>
       idle_due (cw_now w) ws = Some (int secs * NANOS < cw_now w - used)) \<and>
    (cw_now w - offset_min < int secs * NANOS \<and> secs < 2 ^ 63 \<longrightarrow>
       reap_rows w cfg ids k (before @ ws # after) st = (None, snd (reap_rows w cfg ids k before st))) \<and>
    (2 ^ 63 \<le> secs \<longrightarrow>
       (if (2 ^ 64 - int secs) * NANOS \<le> offset_max - cw_now w then idle_due (cw_now w) ws = Some True
        else reap_rows w cfg ids k (before @ ws # after) st = (None, snd (reap_rows w cfg ids k before st))))"
proof -
  have due: "idle_due (cw_now w) ws = map_option (\<lambda>cutoff. used < cutoff) (offset_add (cw_now w) (- as_i64 secs * NANOS))"
    using ws used by (simp add: idle_due_def)
  note panic = reap_rows_panic [OF _ before, of ws cfg ids k after st]
  have range: "secs < 2 ^ 63" if "int secs * NANOS \<le> cw_now w - offset_min"
    using that clock by (simp add: NANOS_def offset_min_def offset_max_def)
  show ?thesis
  proof (cases "secs < 2 ^ 63")
    case True
    then have "offset_add (cw_now w) (- as_i64 secs * NANOS) =
        (if int secs * NANOS \<le> cw_now w - offset_min then Some (cw_now w - int secs * NANOS) else None)"
      using clock by (auto simp: offset_add_def as_i64_def NANOS_def)
    with True show ?thesis
      by (auto simp: due intro: panic)
  next
    case False
    then have "offset_add (cw_now w) (- as_i64 secs * NANOS) =
        (if (2 ^ 64 - int secs) * NANOS \<le> offset_max - cw_now w then Some (cw_now w + (2 ^ 64 - int secs) * NANOS) else None)"
      using clock ws(4) by (auto simp: offset_add_def as_i64_def NANOS_def)
    with False range show ?thesis
      using used(2) ws(4) by (auto simp: due NANOS_def intro: panic)
  qed
qed

definition demo_limit :: "nat \<Rightarrow> workspace" where
  "demo_limit secs = demo_workspace\<lparr>w_config := (w_config demo_workspace)\<lparr>wsp_idle_timeout_secs := secs\<rparr>\<rparr>"

theorem idle_limits_witness:
  "idle_due 100000000000 (demo_limit 60) = Some True \<and> idle_due 100000000000 (demo_limit 100) = Some False \<and>
   idle_due 100000000000 (demo_limit (2 ^ 64 - 1)) = Some True \<and>
   reap_rows demo_later demo_cfg (cw_ids demo_later) 0 ([] @ demo_limit (10 ^ 15) # [demo_limit 60]) demo_ctl = (None, demo_ctl) \<and>
   reap_rows demo_later demo_cfg (cw_ids demo_later) 0 ([] @ demo_limit (2 ^ 63) # [demo_limit 60]) demo_ctl = (None, demo_ctl)"
proof -
  have now: "cw_now demo_later = 100000000000"
    by (simp add: demo_later_def)
  have ws: "w_paused_at (demo_limit secs) = None" "wsp_idle_timeout_secs (w_config (demo_limit secs)) = secs"
    "unwrap_or (w_created_at (demo_limit secs)) (w_last_exec_at (demo_limit secs)) = 7" for secs
    by (simp_all add: demo_limit_def demo_workspace_def new_row_def demo_ctl_world_def)
  have clock: "offset_min \<le> cw_now demo_later" "cw_now demo_later \<le> offset_max" "7 \<le> cw_now demo_later"
    by (simp_all add: now offset_min_def offset_max_def NANOS_def)
  note limits = idle_limits [OF clock(1,2) ws(1,2) _ _ ws(3) clock(3), of _ "[]", unfolded now NANOS_def offset_min_def offset_max_def]
  show ?thesis
    using limits [of 60] limits [of 100] limits [of "2 ^ 64 - 1"]
      limits [of "10 ^ 15" demo_cfg "cw_ids demo_later" 0 "[demo_limit 60]" demo_ctl]
      limits [of "2 ^ 63" demo_cfg "cw_ids demo_later" 0 "[demo_limit 60]" demo_ctl] by simp
qed

section \<open>The retention policy\<close>

lemma str_le_refl [simp]: "str_le s s"
  by (induction s) auto

lemma str_le_Nil [simp]: "str_le s [] = (s = [])"
  by (cases s) auto

lemma str_le_antisym: "str_le s t \<Longrightarrow> str_le t s \<Longrightarrow> s = t"
  by (induction s t rule: str_le.induct) auto

lemma str_le_Cons:
  "str_le (a # s) u \<longleftrightarrow> (\<exists>b t. u = b # t \<and> ((of_char a :: nat) < of_char b \<or> a = b \<and> str_le s t))"
  by (cases u) auto

lemma str_le_trans: "str_le s t \<Longrightarrow> str_le t u \<Longrightarrow> str_le s u"
  by (induction s t arbitrary: u rule: str_le.induct) (auto simp: str_le_Cons)

lemma str_le_linear: "str_le s t \<or> str_le t s"
  by (induction s t rule: str_le.induct) auto

lemma set_insort_by [simp]: "set (insort_by le x xs) = insert x (set xs)"
  by (induction xs) auto

lemma sorted_insort_by:
  assumes "\<And>a b c. le a b \<Longrightarrow> le b c \<Longrightarrow> le a c" "\<And>a b. le a b \<or> le b a"
  shows "sorted_wrt le xs \<Longrightarrow> sorted_wrt le (insort_by le x xs)"
  using assms by (induction xs) (auto, blast+)

lemma sorted_foldr_insort_by:
  assumes "\<And>a b c. le a b \<Longrightarrow> le b c \<Longrightarrow> le a c" "\<And>a b. le a b \<or> le b a"
  shows "sorted_wrt le (foldr (insort_by le) xs [])" "set (foldr (insort_by le) xs []) = set xs"
  by (induction xs) (simp_all add: sorted_insort_by [OF assms])

lemma set_dedup_by:
  assumes "inj_on key (set xs)"
  shows "set (dedup_by key xs) = set xs"
  using assms by (induction key xs rule: dedup_by.induct) (auto simp: inj_on_def)

lemma dedup_by_subset: "set (dedup_by key xs) \<subseteq> set xs"
  by (induction key xs rule: dedup_by.induct) auto

lemma distinct_dedup_by:
  assumes "sorted_wrt (\<lambda>a b. str_le (key a) (key b)) xs"
  shows "distinct (map key (dedup_by key xs))"
  using assms
proof (induction key xs rule: dedup_by.induct)
  case (1 key x y xs)
  have "key x \<notin> key ` set (dedup_by key (y # xs))" if "key x \<noteq> key y"
    using that 1(3) dedup_by_subset [of key "y # xs"] by (fastforce dest: str_le_antisym)
  with 1 show ?case
    by auto
qed auto

text \<open>Removing the victims one by one.\<close>

lemma gc_remove_fold:
  assumes "distinct (map sn_id rs)" "sn_id ` set rs \<subseteq> sn_id ` set (ct_snaps st)"
  shows "fold gc_remove rs (n, st) =
    (n + length rs, st\<lparr>ct_snaps := filter (\<lambda>r. sn_id r \<notin> sn_id ` set rs) (ct_snaps st),
       ct_disk := fold (\<lambda>r. remove_dir_all (sn_path r)) rs (ct_disk st)\<rparr>)"
  using assms
proof (induction rs arbitrary: n st)
  case (Cons r rs)
  have "sn_get (sn_id r) (ct_snaps st) \<noteq> None"
    using Cons.prems(2) unfolding sn_get_def row_get_def find_None_iff by (metis image_iff list.set_intros(1) subsetD)
  then have one: "gc_remove r (n, st) = (Suc n, st\<lparr>ct_snaps := filter (\<lambda>x. sn_id x \<noteq> sn_id r) (ct_snaps st),
      ct_disk := remove_dir_all (sn_path r) (ct_disk st)\<rparr>)"
    by (simp add: gc_remove_def sn_remove_def row_remove_def)
  have "sn_id ` set rs \<subseteq> sn_id ` set (filter (\<lambda>x. sn_id x \<noteq> sn_id r) (ct_snaps st))"
  proof
    fix i
    assume i: "i \<in> sn_id ` set rs"
    with Cons.prems(1) have "i \<noteq> sn_id r"
      by (metis distinct.simps(2) list.set_map list.simps(9))
    moreover have "i \<in> sn_id ` set (ct_snaps st)"
      using i Cons.prems(2) by auto
    ultimately show "i \<in> sn_id ` set (filter (\<lambda>x. sn_id x \<noteq> sn_id r) (ct_snaps st))"
      by auto
  qed
  then show ?case
    using Cons.IH [of "st\<lparr>ct_snaps := filter (\<lambda>x. sn_id x \<noteq> sn_id r) (ct_snaps st),
      ct_disk := remove_dir_all (sn_path r) (ct_disk st)\<rparr>" "Suc n"] Cons.prems(1)
    by (simp add: one conj_commute)
qed simp

text \<open>What the policy means to remove of a list with the newest first: what is older than the age limit,
  and what lies beyond the count.\<close>

definition evicted :: "int \<Rightarrow> gc_config \<Rightarrow> snapshot_record list \<Rightarrow> snapshot_record set" where
  "evicted now gc rows =
     {r \<in> set rows. case gc_max_age_secs gc of None \<Rightarrow> False | Some secs \<Rightarrow> sn_created_at r < now - as_i64 secs * NANOS} \<union>
     (case gc_max_count gc of None \<Rightarrow> {} | Some n \<Rightarrow> set (drop n rows))"

lemma gc_victims_evicted:
  assumes "distinct (map sn_id rows)" "gc_victims now gc rows = Some victims"
  shows "set victims = evicted now gc rows" "distinct (map sn_id victims)"
proof -
  let ?le = "\<lambda>a b. str_le (sn_id a) (sn_id b)"
  have sorted: "sorted_wrt ?le (foldr (insort_by ?le) xs [])" "set (foldr (insort_by ?le) xs []) = set xs" for xs
    using sorted_foldr_insort_by [of ?le] str_le_trans str_le_linear by blast+
  obtain old where old: "(case gc_max_age_secs gc of None \<Rightarrow> Some []
        | Some secs \<Rightarrow> map_option (\<lambda>cutoff. filter (\<lambda>r. sn_created_at r < cutoff) rows) (offset_add now (- as_i64 secs * NANOS))) = Some old"
    and victims: "victims = dedup_by sn_id (foldr (insort_by ?le)
           (old @ (case gc_max_count gc of Some n \<Rightarrow> if n < length rows then take (length rows - n) (rev rows) else [] | None \<Rightarrow> [])) [])"
    using assms(2) by (auto simp: gc_victims_def)
  have surplus: "set (if n < length rows then take (length rows - n) (rev rows) else []) = set (drop n rows)" for n
    by (cases "n < length rows") (simp_all add: take_rev)
  have "set old = {r \<in> set rows. case gc_max_age_secs gc of None \<Rightarrow> False | Some secs \<Rightarrow> sn_created_at r < now - as_i64 secs * NANOS}"
    using old by (auto simp: offset_add_def split: option.splits if_splits)
  moreover have "set (case gc_max_count gc of Some n \<Rightarrow> if n < length rows then take (length rows - n) (rev rows) else [] | None \<Rightarrow> []) =
      (case gc_max_count gc of None \<Rightarrow> {} | Some n \<Rightarrow> set (drop n rows))"
    using surplus by (cases "gc_max_count gc") simp_all
  ultimately have all: "set (old @ (case gc_max_count gc of Some n \<Rightarrow> if n < length rows then take (length rows - n) (rev rows) else []
        | None \<Rightarrow> [])) = evicted now gc rows"
    by (simp add: evicted_def)
  moreover have "evicted now gc rows \<subseteq> set rows"
    by (auto simp: evicted_def dest: in_set_dropD split: option.splits)
  moreover have "inj_on sn_id (set rows)"
    using assms(1) by (simp add: distinct_map)
  ultimately show "set victims = evicted now gc rows"
    unfolding victims by (subst set_dedup_by, unfold sorted(2)) (auto intro: inj_on_subset)
  show "distinct (map sn_id victims)"
    unfolding victims by (rule distinct_dedup_by [OF sorted(1)])
qed

lemma fold_remove_dir_all:
  "dir_at p (fold (\<lambda>r. remove_dir_all (sn_path r)) rs dk) = (if \<exists>r \<in> set rs. below (sn_path r) p then None else dir_at p dk)"
  by (induction rs arbitrary: dk) auto

lemma gc_rows: "fst (sn_list lower_case None None 10000 0 None rows) = take 500 (newest_first sn_created_at rows)"
  by (simp add: sn_list_def page_of_def needle_of_def hay_matches_def in_tenant_def clamp_def)

text \<open>C37. The retention policy.  A pass of the garbage collection that does not panic removes exactly the
  snapshots that are too old or beyond the count, of whatever tenant and whether or not a paused
  workspace needs them, with their directories, and reports how many; it changes nothing else.  But it
  sees only the five hundred newest, although it asks for ten thousand: a snapshot behind them stays
  however old it is, and with only a count \<open>m\<close> configured at most \<open>500 - m\<close> snapshots go, so that a
  count of five hundred or more never removes any.\<close>
theorem gc_policy:
  assumes ids: "unique_ids st" and run: "gc_run_once cfg now gc st = (Some n, st')"
    and seen: "seen = take 500 (newest_first sn_created_at (ct_snaps st))"
  shows "ct_snaps st' = filter (\<lambda>r. r \<notin> evicted now gc seen) (ct_snaps st) \<and> n = card (evicted now gc seen) \<and>
    (\<forall>p. dir_at p (ct_disk st') = (if \<exists>r \<in> evicted now gc seen. below (sn_path r) p then None else dir_at p (ct_disk st))) \<and>
    st' = st\<lparr>ct_snaps := ct_snaps st', ct_disk := ct_disk st'\<rparr> \<and>
    set (ct_snaps st) - set seen \<subseteq> set (ct_snaps st') \<and>
    (\<forall>m. gc_max_age_secs gc = None \<and> gc_max_count gc = Some m \<longrightarrow>
       length (ct_snaps st') = length (ct_snaps st) - (min 500 (length (ct_snaps st)) - m))"
proof -
  have sorted: "set (newest_first sn_created_at (ct_snaps st)) = set (ct_snaps st)"
    "distinct (map sn_id (newest_first sn_created_at (ct_snaps st)))"
    "length (newest_first sn_created_at (ct_snaps st)) = length (ct_snaps st)"
    using ids by (simp_all add: unique_ids_def newest_first_def distinct_map)
  then have rows: "distinct (map sn_id seen)" "set seen \<subseteq> set (ct_snaps st)" "length seen = min 500 (length (ct_snaps st))"
    by (auto simp: seen take_map [symmetric] dest: in_set_takeD)
  have inj: "inj_on sn_id (set (ct_snaps st))"
    using ids by (simp add: unique_ids_def distinct_map)
  have "\<exists>victims. set victims = evicted now gc seen \<and> distinct (map sn_id victims) \<and> (n, st') = fold gc_remove victims (0, st)"
  proof (cases "gc_enabled gc")
    case True
    with run obtain victims where "gc_victims now gc seen = Some victims" "(n, st') = fold gc_remove victims (0, st)"
      by (auto simp: gc_run_once_def gc_rows seen split: option.splits prod.splits)
    with gc_victims_evicted [OF rows(1)] show ?thesis
      by metis
  next
    case False
    with run show ?thesis
      by (intro exI [of _ "[]"]) (simp add: gc_run_once_def gc_enabled_def evicted_def)
  qed
  then obtain victims where v: "set victims = evicted now gc seen" "distinct (map sn_id victims)"
    and st': "(n, st') = fold gc_remove victims (0, st)"
    by blast
  have sub: "evicted now gc seen \<subseteq> set seen"
    by (auto simp: evicted_def dest: in_set_dropD split: option.splits)
  have "(n, st') = (length victims, st\<lparr>ct_snaps := filter (\<lambda>r. sn_id r \<notin> sn_id ` set victims) (ct_snaps st),
       ct_disk := fold (\<lambda>r. remove_dir_all (sn_path r)) victims (ct_disk st)\<rparr>)"
    unfolding st' using sub rows(2) by (subst gc_remove_fold [OF v(2)]) (auto simp: v(1))
  moreover have "filter (\<lambda>r. sn_id r \<notin> sn_id ` set victims) (ct_snaps st) = filter (\<lambda>r. r \<notin> evicted now gc seen) (ct_snaps st)"
    using sub rows(2) inj by (intro filter_cong) (auto simp: v(1) inj_on_def)
  moreover have "length victims = card (evicted now gc seen)"
    using v by (metis distinct_card distinct_map)
  ultimately have eqs: "ct_snaps st' = filter (\<lambda>r. r \<notin> evicted now gc seen) (ct_snaps st)" "n = card (evicted now gc seen)"
      "ct_disk st' = fold (\<lambda>r. remove_dir_all (sn_path r)) victims (ct_disk st)"
      "st' = st\<lparr>ct_snaps := ct_snaps st', ct_disk := ct_disk st'\<rparr>"
    by simp_all
  have "length (ct_snaps st') = length (ct_snaps st) - (min 500 (length (ct_snaps st)) - m)"
    if "gc_max_age_secs gc = None" "gc_max_count gc = Some m" for m
  proof -
    have ev: "evicted now gc seen = set (drop m seen)"
      using that by (simp add: evicted_def)
    have d: "distinct seen" "distinct (ct_snaps st)"
      using rows(1) ids by (auto simp: unique_ids_def distinct_map)
    have "card (set (ct_snaps st')) = card (set (ct_snaps st)) - card (set (drop m seen))"
      using rows(2) by (subst card_Diff_subset [symmetric]) (auto simp: eqs(1) ev dest: in_set_dropD intro!: arg_cong [where f = card])
    moreover have "distinct (ct_snaps st')"
      using d(2) by (simp add: eqs(1))
    ultimately show ?thesis
      using d by (simp add: distinct_card rows(3))
  qed
  with eqs sub show ?thesis
    by (auto simp: fold_remove_dir_all v(1))
qed

definition demo_snapshot :: "string \<Rightarrow> int \<Rightarrow> snapshot_record" where
  "demo_snapshot i created = \<lparr>sn_id = i, sn_tenant = ''acme'', sn_workspace = Some ''wrk_a'', sn_name = None,
     sn_created_at = created, sn_path = ''/s/snapshots/'' @ i, sn_size_bytes = 2\<rparr>"

definition demo_snapshots :: ctl_state where
  "demo_snapshots = demo_ctl\<lparr>ct_snaps := [demo_snapshot ''s1'' 5, demo_snapshot ''s2'' 9, demo_snapshot ''s3'' 3]\<rparr>"

theorem gc_policy_witness:
  "\<exists>st'. gc_run_once demo_cfg 10 \<lparr>gc_max_age_secs = None, gc_max_count = Some 1\<rparr> demo_snapshots = (Some 2, st') \<and>
     ct_snaps st' = [demo_snapshot ''s2'' 9] \<and> length (ct_snaps st') = 3 - (3 - 1)"
proof -
  let ?gc = "\<lparr>gc_max_age_secs = None, gc_max_count = Some 1\<rparr>" and ?seen = "[demo_snapshot ''s2'' 9, demo_snapshot ''s1'' 5, demo_snapshot ''s3'' 3]"
  have ids: "unique_ids demo_snapshots"
    using demo_ctl_ok(1) by (simp add: unique_ids_def demo_snapshots_def demo_snapshot_def)
  have snaps: "ct_snaps demo_snapshots = [demo_snapshot ''s1'' 5, demo_snapshot ''s2'' 9, demo_snapshot ''s3'' 3]"
    by (simp add: demo_snapshots_def)
  have seen: "?seen = take 500 (newest_first sn_created_at (ct_snaps demo_snapshots))"
    by (simp add: snaps newest_first_def demo_snapshot_def)
  have "fst (gc_run_once demo_cfg 10 ?gc demo_snapshots) \<noteq> None"
    by (simp add: gc_run_once_def gc_enabled_def gc_victims_def split_beta)
  then obtain n st' where run: "gc_run_once demo_cfg 10 ?gc demo_snapshots = (Some n, st')"
    by (cases "gc_run_once demo_cfg 10 ?gc demo_snapshots") auto
  have ev: "evicted 10 ?gc ?seen = {demo_snapshot ''s1'' 5, demo_snapshot ''s3'' 3}"
    by (simp add: evicted_def)
  have apart: "demo_snapshot i a = demo_snapshot j b \<longleftrightarrow> i = j \<and> a = b" for i j a b
    by (auto simp: demo_snapshot_def)
  have "n = 2" "ct_snaps st' = [demo_snapshot ''s2'' 9]" "length (ct_snaps st') = 3 - (3 - 1)"
    using gc_policy [OF ids run seen, unfolded ev snaps] apart by simp_all
  with run show ?thesis
    by blast
qed

end
