(* ===== verification/Server_Config.thy ===== *)
theory Server_Config
  imports Gateway Session_Routes Workspace_Sweep
begin

text \<open>
  The start of the server (\<open>agentjail-server/src/main.rs\<close>) and the construction of the control plane
  (\<open>agentjail-ctl/src/lib.rs\<close>): from the environment to the first state.  The machine is an argument:
  parsing and printing of socket addresses, listening on one, the temporary directory, creating
  directories, building HTTP clients, and connecting to a database and reading its credentials
  (\<open>Postgres\<close> in \<open>lib.rs\<close>, \<open>rehydrate_keystore\<close> in \<open>db/credentials_pg.rs\<close>).  With a database the
  rows are in stores that are not modelled, so the first state of the system is given only without one.
\<close>

section \<open>The environment\<close>

type_synonym environ = "string \<Rightarrow> string option"

definition non_blank :: "environ \<Rightarrow> string \<Rightarrow> string option" where
  "non_blank env var = (case env var of Some s \<Rightarrow> if trim s = [] then None else Some s | None \<Rightarrow> None)"

definition U64_MAX :: nat where
  "U64_MAX = 18446744073709551615"

definition parse_env_u64 :: "environ \<Rightarrow> string \<Rightarrow> nat option" where
  "parse_env_u64 env var = Option.bind (non_blank env var) (\<lambda>s. parse_unsigned U64_MAX (trim s))"

definition token_cache_capacity :: "environ \<Rightarrow> nat" where
  "token_cache_capacity env =
     (case Option.bind (env ''AGENTJAIL_TOKEN_CACHE_SIZE'') (\<lambda>s. parse_unsigned U64_MAX (trim s)) of
        Some n \<Rightarrow> if 0 < n then n else 10000
      | None \<Rightarrow> 10000)"

definition api_key_lines :: "environ \<Rightarrow> string list" where
  "api_key_lines env =
     filter (\<lambda>s. s \<noteq> []) (map trim (split_on CHR '','' (unwrap_or [] (env ''AGENTJAIL_API_KEY''))))"

record 'a server_config =
  vc_ctl_addr :: 'a
  vc_proxy_addr :: 'a
  vc_proxy_base_url :: string
  vc_api_keys :: "string list"
  vc_state_dir :: "string option"
  vc_snapshot_pool_dir :: "string option"
  vc_snapshot_gc :: gc_config
  vc_gc_tick_secs :: nat
  vc_idle_check_interval_secs :: nat
  vc_gateway_addr :: "'a option"

definition config_from_env ::
  "(string \<Rightarrow> 'a option) \<Rightarrow> ('a \<Rightarrow> string) \<Rightarrow> environ \<Rightarrow> (string, 'a server_config) result" where
  "config_from_env parse_addr show_addr env =
     and_then (ok_or ''parsing CTL_ADDR'' (parse_addr (unwrap_or ''127.0.0.1:7000'' (env ''CTL_ADDR'')))) (\<lambda>ctl_addr.
     and_then (ok_or ''parsing PROXY_ADDR'' (parse_addr (unwrap_or ''127.0.0.1:8443'' (env ''PROXY_ADDR'')))) (\<lambda>proxy_addr.
       Ok \<lparr>vc_ctl_addr = ctl_addr, vc_proxy_addr = proxy_addr,
           vc_proxy_base_url = unwrap_or (''http://'' @ show_addr proxy_addr) (env ''PROXY_BASE_URL''),
           vc_api_keys = api_key_lines env,
           vc_state_dir = non_blank env ''AGENTJAIL_STATE_DIR'',
           vc_snapshot_pool_dir = non_blank env ''AGENTJAIL_SNAPSHOT_POOL_DIR'',
           vc_snapshot_gc = \<lparr>gc_max_age_secs = parse_env_u64 env ''AGENTJAIL_SNAPSHOT_MAX_AGE_SECS'',
                             gc_max_count = parse_env_u64 env ''AGENTJAIL_SNAPSHOT_MAX_COUNT''\<rparr>,
           vc_gc_tick_secs = unwrap_or 60 (parse_env_u64 env ''AGENTJAIL_SNAPSHOT_GC_TICK_SECS''),
           vc_idle_check_interval_secs = unwrap_or 30 (parse_env_u64 env ''AGENTJAIL_IDLE_CHECK_INTERVAL_SECS''),
           vc_gateway_addr = Option.bind (non_blank env ''AGENTJAIL_GATEWAY_ADDR'') parse_addr\<rparr>))"

text \<open>The keys of the environment belong to the tenant \<open>dev\<close>.\<close>

definition seed_if_set :: "environ \<Rightarrow> service_id \<Rightarrow> string \<Rightarrow> key_map \<Rightarrow> key_map" where
  "seed_if_set env service var keys =
     (case env var of Some v \<Rightarrow> if trim v = [] then keys else ks_set ''dev'' service v keys | None \<Rightarrow> keys)"

definition stores_new_from_env :: "environ \<Rightarrow> key_map" where
  "stores_new_from_env env =
     seed_if_set env Stripe ''STRIPE_API_KEY'' (seed_if_set env GitHub ''GITHUB_TOKEN''
       (seed_if_set env Anthropic ''ANTHROPIC_API_KEY'' (seed_if_set env OpenAi ''OPENAI_API_KEY'' Map.empty)))"

section \<open>The control plane\<close>

definition validate_base_url :: "string \<Rightarrow> (ctl_error, unit) result" where
  "validate_base_url url =
     (if url = [] then Err (CtlConfig ''proxy_base_url must not be empty'')
      else if \<not> (starts_with url ''http://'' \<or> starts_with url ''https://'')
      then Err (CtlConfig ''proxy_base_url must start with http:// or https://'')
      else if ends_with url ''/'' then Err (CtlConfig ''proxy_base_url must not end with `/`'')
      else Ok ())"

text \<open>What the machine gives.  A row of credentials may lack its tenant.\<close>

datatype listener = CtlListener | ProxyListener | GatewayListener

type_synonym credential_row = "string option \<times> string \<times> string"

record 'a machine =
  mc_temp_dir :: string
  mc_mkdir :: "string \<Rightarrow> bool"
  mc_pool :: "string \<Rightarrow> pool_env"
  mc_parse :: "string \<Rightarrow> manifest option"
  mc_is_root :: bool
  mc_lower :: "string \<Rightarrow> string"
  mc_debug :: "string \<Rightarrow> string"
  mc_valid :: "string \<Rightarrow> bool"
  mc_connect :: "string \<Rightarrow> (string, (string, credential_row list) result) result"
  mc_client :: "listener \<Rightarrow> (string, unit) result"
  mc_bind :: "listener \<Rightarrow> 'a \<Rightarrow> (string, unit) result"

text \<open>Directories that cannot be created are only warned about.\<close>

definition mkdir_or_warn :: "'a machine \<Rightarrow> string \<Rightarrow> disk \<Rightarrow> disk" where
  "mkdir_or_warn mc p dk = (if mc_mkdir mc p then create_dir_all p dk else dk)"

definition ensure_state_dir :: "'a machine \<Rightarrow> string option \<Rightarrow> disk \<Rightarrow> string \<times> disk" where
  "ensure_state_dir mc state_dir dk =
     (let root = (case state_dir of Some dir \<Rightarrow> dir | None \<Rightarrow> path_join (mc_temp_dir mc) ''agentjail-state'')
      in (root, mkdir_or_warn mc (path_join root ''snapshots'') (mkdir_or_warn mc (path_join root ''workspaces'') dk)))"

record control_plane =
  cp_config :: ctl_config
  cp_base_url :: string
  cp_keys :: "api_key list"
  cp_disk :: disk

definition with_all_stores :: "'a machine \<Rightarrow> environ \<Rightarrow> 'a server_config \<Rightarrow> disk \<Rightarrow> control_plane" where
  "with_all_stores mc env c dk =
     (let (root, dk) = ensure_state_dir mc (vc_state_dir c) dk;
          dk = (case vc_snapshot_pool_dir c of Some p \<Rightarrow> mkdir_or_warn mc p dk | None \<Rightarrow> dk)
      in \<lparr>cp_config = \<lparr>cc_state_dir = root, cc_exec = Some exec_config_default,
             cc_snap = \<lparr>sf_pool = map_option (mc_pool mc) (vc_snapshot_pool_dir c), sf_parse = mc_parse mc\<rparr>,
             cc_is_root = mc_is_root mc,
             cc_host_clone = (case env ''AGENTJAIL_CLONE_MODE'' of Some v \<Rightarrow> map ascii_lower v = ''host'' | None \<Rightarrow> False),
             cc_lower = mc_lower mc, cc_debug = mc_debug mc\<rparr>,
          cp_base_url = trim_end_slashes (vc_proxy_base_url c),
          cp_keys = from_config_strings (vc_api_keys c),
          cp_disk = dk\<rparr>)"

section \<open>The database and the proxy\<close>

definition pg_parse_service :: "string \<Rightarrow> service_id option" where
  "pg_parse_service s =
     (if s = ''openai'' then Some OpenAi else if s = ''anthropic'' then Some Anthropic
      else if s = ''github'' then Some GitHub else if s = ''stripe'' then Some Stripe else None)"

fun rehydrate_keystore :: "credential_row list \<Rightarrow> key_map \<Rightarrow> key_map" where
  "rehydrate_keystore [] keys = keys"
| "rehydrate_keystore ((tenant, svc_str, secret) # rows) keys =
     rehydrate_keystore rows
       (case pg_parse_service svc_str of
          Some svc \<Rightarrow> ks_set (case tenant of Some t \<Rightarrow> t | None \<Rightarrow> ''dev'') svc secret keys
        | None \<Rightarrow> keys)"

text \<open>With a database the keys of its credentials are added, and the tokens have a cache in front.\<close>

definition attach_postgres ::
  "'a machine \<Rightarrow> environ \<Rightarrow> key_map \<Rightarrow> (string, nat option \<times> key_map) result" where
  "attach_postgres mc env keys =
     (case non_blank env ''DATABASE_URL'' of
        None \<Rightarrow> Ok (None, keys)
      | Some url \<Rightarrow>
          (case mc_connect mc url of
             Inl e \<Rightarrow> Err (''connecting to '' @ url)
           | Inr query \<Rightarrow> and_then query (\<lambda>rows. Ok (Some (token_cache_capacity env), rehydrate_keystore rows keys))))"

definition default_providers :: "(string \<Rightarrow> bool) \<Rightarrow> provider list" where
  "default_providers valid =
     [openai_provider valid ''https://api.openai.com'', anthropic_provider valid ''https://api.anthropic.com'' ''2023-06-01'',
      github_provider valid ''https://api.github.com'', stripe_provider valid ''https://api.stripe.com'']"

fun register_all :: "provider list \<Rightarrow> registry \<Rightarrow> (phantom_error, registry) result" where
  "register_all [] reg = Ok reg"
| "register_all (p # ps) reg = and_then (registry_register p reg) (register_all ps)"

definition build_proxy :: "'a machine \<Rightarrow> (string, registry) result" where
  "build_proxy mc =
     (case register_all (default_providers (mc_valid mc)) [] of
        Inl e \<Rightarrow> Err (phantom_error_display e)
      | Inr reg \<Rightarrow>
          (case mc_client mc ProxyListener of
             Inl e \<Rightarrow> Err (phantom_error_display (Config (''reqwest: '' @ e)))
           | Inr _ \<Rightarrow> Ok reg))"

section \<open>The start\<close>

text \<open>A server that has started.  The listeners of the proxy and of the gateway run in tasks of their own:
  when they cannot listen, the start goes on.\<close>

record 'a server =
  sr_config :: "'a server_config"
  sr_plane :: control_plane
  sr_keys :: key_map
  sr_registry :: registry
  sr_token_cache :: "nat option"
  sr_system :: "system option"
  sr_proxy_up :: bool
  sr_gateway_up :: bool

definition first_system :: "ctl_world \<Rightarrow> control_plane \<Rightarrow> (string \<Rightarrow> string) \<Rightarrow> system" where
  "first_system w cp slugs =
     (let s = sys_init (ec_max_concurrent exec_config_default) (cp_disk cp)
      in s\<lparr>sy_ctl := reconcile_on_startup w (cp_config cp) slugs (sy_ctl s)\<rparr>)"

definition start_gateway :: "'a machine \<Rightarrow> 'a option \<Rightarrow> (string, bool) result" where
  "start_gateway mc gateway_addr =
     (case gateway_addr of
        None \<Rightarrow> Ok False
      | Some addr \<Rightarrow>
          (case mc_client mc GatewayListener of
             Inl e \<Rightarrow> Err ''build gateway HTTP client''
           | Inr _ \<Rightarrow> Ok (mc_bind mc GatewayListener addr = Ok ())))"

definition server_boot ::
  "(string \<Rightarrow> 'a option) \<Rightarrow> ('a \<Rightarrow> string) \<Rightarrow> 'a machine \<Rightarrow> environ \<Rightarrow> ctl_world \<Rightarrow> (string \<Rightarrow> string) \<Rightarrow> disk
   \<Rightarrow> (string, 'a server) result" where
  "server_boot parse_addr show_addr mc env w slugs dk =
     and_then (config_from_env parse_addr show_addr env) (\<lambda>c.
     and_then (attach_postgres mc env (stores_new_from_env env)) (\<lambda>(cache, keys).
     and_then (build_proxy mc) (\<lambda>reg.
       let cp = with_all_stores mc env c dk;
           system = (if cache = None then Some (first_system w cp slugs) else None)
       in
     and_then (start_gateway mc (vc_gateway_addr c)) (\<lambda>gateway_up.
       case mc_bind mc CtlListener (vc_ctl_addr c) of
         Inl e \<Rightarrow> Err (''bind control plane to '' @ show_addr (vc_ctl_addr c))
       | Inr _ \<Rightarrow>
           Ok \<lparr>sr_config = c, sr_plane = cp, sr_keys = keys, sr_registry = reg, sr_token_cache = cache,
               sr_system = system, sr_proxy_up = (mc_bind mc ProxyListener (vc_proxy_addr c) = Ok ()),
               sr_gateway_up = gateway_up\<rparr>))))"

definition reaper_state_dir :: "'a machine \<Rightarrow> 'a server_config \<Rightarrow> string" where
  "reaper_state_dir mc c =
     (if vc_state_dir c = None then path_join (mc_temp_dir mc) ''agentjail-state'' else the (vc_state_dir c))"

section \<open>The first state\<close>

lemma api_key_lines_keys:
  "from_config_strings (api_key_lines env) =
     from_config_strings (map trim (split_on CHR '','' (unwrap_or [] (env ''AGENTJAIL_API_KEY''))))"
proof -
  have blank: "parse_key [] = Err EmptyKey"
    by (simp add: parse_key_def)
  have "from_config_strings (filter (\<lambda>s. s \<noteq> []) ls) = from_config_strings ls" for ls
    by (induction ls) (auto simp: blank split: sum.split)
  then show ?thesis
    by (simp add: api_key_lines_def)
qed

lemma api_key_required:
  "require_api_key (from_config_strings ls) h = Ok scope \<longleftrightarrow>
     (if list_all malformed ls then scope = dev_admin
      else \<exists>raw key. hm_get ''authorization'' h = Some raw \<and> header_to_str raw = Some raw \<and>
             find (\<lambda>key. ak_token key = trim (case strip_prefix ''Bearer '' raw of Some t \<Rightarrow> t | None \<Rightarrow> raw))
               (from_config_strings ls) = Some key \<and> scope = key_scope key)"
  unfolding require_api_key_def is_enforced_def from_config_strings_Nil [symmetric]
  by (auto simp: and_then_Ok_iff Let_def match_scope_find header_to_str_def bind_eq_Some_conv split: if_splits)

definition seed_var :: "service_id \<Rightarrow> string" where
  "seed_var s = (case s of OpenAi \<Rightarrow> ''OPENAI_API_KEY'' | Anthropic \<Rightarrow> ''ANTHROPIC_API_KEY'' | GitHub \<Rightarrow> ''GITHUB_TOKEN''
     | Stripe \<Rightarrow> ''STRIPE_API_KEY'')"

definition seeded :: "environ \<Rightarrow> string \<times> service_id \<Rightarrow> string option" where
  "seeded env ts = (if fst ts = ''dev'' then non_blank env (seed_var (snd ts)) else None)"

lemma stores_seeded: "stores_new_from_env env = seeded env"
proof
  fix ts
  show "stores_new_from_env env ts = seeded env ts"
    by (cases ts; cases "snd ts")
      (auto simp: stores_new_from_env_def seed_if_set_def ks_set_def non_blank_def seed_var_def seeded_def split: option.splits if_splits)
qed

lemma pg_parse_service_Some: "pg_parse_service s = Some svc \<longleftrightarrow> s = service_name svc"
  by (cases svc) (auto simp: pg_parse_service_def)

lemma pg_parse_service_name: "pg_parse_service (service_name svc) = Some svc"
  by (simp add: pg_parse_service_Some)

text \<open>The last credential of a tenant for a service is the one that counts.\<close>

definition credential_for :: "string \<times> service_id \<Rightarrow> credential_row \<Rightarrow> bool" where
  "credential_for ts row =
     (case row of (tenant, svc_str, secret) \<Rightarrow>
        (case tenant of Some t \<Rightarrow> t | None \<Rightarrow> ''dev'') = fst ts \<and> svc_str = service_name (snd ts))"

lemma rehydrated:
  "rehydrate_keystore rows keys ts =
     (case filter (credential_for ts) rows of [] \<Rightarrow> keys ts | found \<Rightarrow> Some (snd (snd (last found))))"
proof (induction rows keys rule: rehydrate_keystore.induct)
  case (2 tenant svc_str secret rows keys)
  have "(case pg_parse_service svc_str of Some svc \<Rightarrow> ks_set (case tenant of Some t \<Rightarrow> t | None \<Rightarrow> ''dev'') svc secret keys
        | None \<Rightarrow> keys) ts = (if credential_for ts (tenant, svc_str, secret) then Some secret else keys ts)"
    by (cases ts; cases "pg_parse_service svc_str")
      (auto simp: credential_for_def ks_set_def pg_parse_service_Some pg_parse_service_name split: option.splits)
  then show ?case
    using "2.IH" by (auto split: list.split)
qed simp

lemma default_registry:
  "\<exists>reg. register_all (default_providers valid) [] = Ok reg \<and>
     map (\<lambda>(i, p). (i, pv_id p, pv_upstream_base p)) reg =
       [(OpenAi, OpenAi, ''https://api.openai.com''), (Anthropic, Anthropic, ''https://api.anthropic.com''),
        (GitHub, GitHub, ''https://api.github.com''), (Stripe, Stripe, ''https://api.stripe.com'')]"
  by (simp add: default_providers_def registry_register_def openai_provider_def anthropic_provider_def github_provider_def
      stripe_provider_def)

lemma first_system_init: "first_system w cp slugs = sys_init 16 (cp_disk cp)"
  by (simp add: first_system_def reconcile_on_startup_def sys_init_def ws_list_def page_of_def newest_first_def Let_def
      exec_config_default_def split: prod.split)

text \<open>What the start needs of the environment and the machine.\<close>

definition startable :: "(string \<Rightarrow> 'a option) \<Rightarrow> 'a machine \<Rightarrow> environ \<Rightarrow> bool" where
  "startable parse_addr mc env =
     ((case parse_addr (unwrap_or ''127.0.0.1:7000'' (env ''CTL_ADDR'')) of
         Some ctl \<Rightarrow> mc_bind mc CtlListener ctl = Ok ()
       | None \<Rightarrow> False) \<and>
      parse_addr (unwrap_or ''127.0.0.1:8443'' (env ''PROXY_ADDR'')) \<noteq> None \<and>
      (case non_blank env ''DATABASE_URL'' of
         Some url \<Rightarrow> (\<exists>rows. mc_connect mc url = Ok (Ok rows))
       | None \<Rightarrow> True) \<and>
      mc_client mc ProxyListener = Ok () \<and>
      (Option.bind (non_blank env ''AGENTJAIL_GATEWAY_ADDR'') parse_addr \<noteq> None \<longrightarrow> mc_client mc GatewayListener = Ok ()))"

lemma attach_Ok: "(\<exists>r. attach_postgres mc env keys = Ok r) \<longleftrightarrow>
    (case non_blank env ''DATABASE_URL'' of Some url \<Rightarrow> (\<exists>rows. mc_connect mc url = Ok (Ok rows)) | None \<Rightarrow> True)"
  by (auto simp: attach_postgres_def and_then_Ok_iff split: option.splits sum.splits)

lemma build_proxy_Ok: "(\<exists>reg. build_proxy mc = Ok reg) \<longleftrightarrow> mc_client mc ProxyListener = Ok ()"
  using default_registry [of "mc_valid mc"] by (auto simp: build_proxy_def split: sum.splits)

lemma config_Ok:
  "(\<exists>c. config_from_env parse_addr show_addr env = Ok c \<and> P (vc_ctl_addr c) (vc_gateway_addr c)) \<longleftrightarrow>
     (\<exists>ctl. parse_addr (unwrap_or ''127.0.0.1:7000'' (env ''CTL_ADDR'')) = Some ctl \<and>
        P ctl (Option.bind (non_blank env ''AGENTJAIL_GATEWAY_ADDR'') parse_addr)) \<and>
     parse_addr (unwrap_or ''127.0.0.1:8443'' (env ''PROXY_ADDR'')) \<noteq> None"
  by (auto simp: config_from_env_def and_then_Ok_iff ok_or_Ok_iff)

lemma start_gateway_Ok: "(\<exists>up. start_gateway mc gateway = Ok up) \<longleftrightarrow> (gateway \<noteq> None \<longrightarrow> mc_client mc GatewayListener = Ok ())"
  by (auto simp: start_gateway_def split: option.splits sum.splits)

lemma boot_Ok:
  "server_boot parse_addr show_addr mc env w slugs dk = Ok r \<longleftrightarrow>
     (\<exists>c cache keys reg up. config_from_env parse_addr show_addr env = Ok c \<and>
        attach_postgres mc env (stores_new_from_env env) = Ok (cache, keys) \<and> build_proxy mc = Ok reg \<and>
        start_gateway mc (vc_gateway_addr c) = Ok up \<and> mc_bind mc CtlListener (vc_ctl_addr c) = Ok () \<and>
        r = \<lparr>sr_config = c, sr_plane = with_all_stores mc env c dk, sr_keys = keys, sr_registry = reg, sr_token_cache = cache,
             sr_system = if cache = None then Some (first_system w (with_all_stores mc env c dk) slugs) else None,
             sr_proxy_up = (mc_bind mc ProxyListener (vc_proxy_addr c) = Ok ()), sr_gateway_up = up\<rparr>)"
proof -
  have bind: "(case b of Inl e \<Rightarrow> Err x | Inr _ \<Rightarrow> Ok y) = Ok r \<longleftrightarrow> b = Ok () \<and> r = y" for b :: "(string, unit) result" and x y
    by (auto split: sum.split)
  show ?thesis
    unfolding server_boot_def Let_def and_then_Ok_iff bind split_paired_Ex prod.case by blast
qed

lemma boot_Ok_iff: "(\<exists>r. server_boot parse_addr show_addr mc env w slugs dk = Ok r) \<longleftrightarrow> startable parse_addr mc env"
proof -
  let ?P = "\<lambda>ctl gateway. mc_bind mc CtlListener ctl = Ok () \<and> (gateway \<noteq> None \<longrightarrow> mc_client mc GatewayListener = Ok ())"
  have "(\<exists>r. server_boot parse_addr show_addr mc env w slugs dk = Ok r) \<longleftrightarrow>
      (\<exists>c. config_from_env parse_addr show_addr env = Ok c \<and> ?P (vc_ctl_addr c) (vc_gateway_addr c)) \<and>
      (\<exists>r. attach_postgres mc env (stores_new_from_env env) = Ok r) \<and> (\<exists>reg. build_proxy mc = Ok reg)"
    unfolding boot_Ok start_gateway_Ok [symmetric] split_paired_Ex by blast
  also have "\<dots> \<longleftrightarrow> startable parse_addr mc env"
    unfolding config_Ok [where P = ?P] attach_Ok build_proxy_Ok startable_def
    by (cases "parse_addr (unwrap_or ''127.0.0.1:7000'' (env ''CTL_ADDR''))"; simp; blast)
  finally show ?thesis .
qed

lemma boot_parts:
  assumes "server_boot parse_addr show_addr mc env w slugs dk = Ok r"
  shows "config_from_env parse_addr show_addr env = Ok (sr_config r)"
    "attach_postgres mc env (stores_new_from_env env) = Ok (sr_token_cache r, sr_keys r)"
    "build_proxy mc = Ok (sr_registry r)"
    "sr_plane r = with_all_stores mc env (sr_config r) dk"
    "sr_system r = (if sr_token_cache r = None then Some (first_system w (sr_plane r) slugs) else None)"
  using assms unfolding boot_Ok by auto

lemma config_keys: "config_from_env parse_addr show_addr env = Ok c \<Longrightarrow> vc_api_keys c = api_key_lines env"
  by (cases c) (auto simp: config_from_env_def and_then_Ok_iff)

text \<open>The credentials of the database, none without one.\<close>

definition db_rows :: "'a machine \<Rightarrow> environ \<Rightarrow> credential_row list" where
  "db_rows mc env =
     (case non_blank env ''DATABASE_URL'' of
        Some url \<Rightarrow> (case mc_connect mc url of Inr (Inr rows) \<Rightarrow> rows | _ \<Rightarrow> [])
      | None \<Rightarrow> [])"

lemma attach_result:
  assumes "attach_postgres mc env keys = Ok (cache, keys')"
  shows "keys' = rehydrate_keystore (db_rows mc env) keys"
    "cache = map_option (\<lambda>_. token_cache_capacity env) (non_blank env ''DATABASE_URL'')"
  using assms by (auto simp: attach_postgres_def db_rows_def and_then_Ok_iff split: option.splits sum.splits)

lemma token_cache_room: "0 < token_cache_capacity env"
  by (simp add: token_cache_capacity_def split: option.split)

lemma plane_parts:
  "cp_keys (with_all_stores mc env c dk) = from_config_strings (vc_api_keys c)"
  "cc_state_dir (cp_config (with_all_stores mc env c dk)) = reaper_state_dir mc c"
  by (auto simp: with_all_stores_def ensure_state_dir_def reaper_state_dir_def Let_def split: option.split)


text \<open>A machine whose proxy cannot listen and whose database has two credentials of one tenant; an
  environment with a well-formed and a malformed entry, and one with a malformed entry only.\<close>

definition demo_machine :: "string machine" where
  "demo_machine = \<lparr>mc_temp_dir = ''/tmp'', mc_mkdir = (\<lambda>_. True), mc_pool = (\<lambda>_. demo_env), mc_parse = (\<lambda>_. None),
     mc_is_root = True, mc_lower = str_lower, mc_debug = (\<lambda>s. s), mc_valid = (\<lambda>_. True),
     mc_connect = (\<lambda>_. Ok (Ok [(Some ''acme'', ''github'', ''g2''), (None, ''stripe'', ''s1''), (Some ''acme'', ''github'', ''g3'')])),
     mc_client = (\<lambda>_. Ok ()), mc_bind = (\<lambda>l _. if l = ProxyListener then Err ''in use'' else Ok ())\<rparr>"

definition demo_environ :: "string \<Rightarrow> string option \<Rightarrow> environ" where
  "demo_environ line url var =
     (if var = ''AGENTJAIL_API_KEY'' then Some line else if var = ''GITHUB_TOKEN'' then Some ''g1''
      else if var = ''DATABASE_URL'' then url else None)"

lemma demo_startable: "startable Some demo_machine (demo_environ line url)"
  by (simp add: startable_def demo_machine_def demo_environ_def non_blank_def split: option.split)

lemma demo_entries:
  "map trim (split_on CHR '','' ''k1@acme:operator, k2'') = [''k1@acme:operator'', ''k2'']"
  "map trim (split_on CHR '','' ''k2'') = [''k2'']" "malformed ''k2''" "\<not> malformed ''k1@acme:operator''"
  "trim ''g1'' = ''g1''" "trim ''pg://db'' = ''pg://db''"
  by code_simp+


end
