(* ===== verification/Spec2Isabelle.thy ===== *)
theory Spec2Isabelle
  imports Phantom_Proxy Connect_Proxy Seccomp Snapshot_Pool Cgroup Netlink Jail_Spawn Jail_Setup Server_Config
begin

text \<open>
  Verification of agentjail, a sandbox for the commands of agents (\<open>src/crates\<close>).

  \<^bold>\<open>The system.\<close>  The crate \<open>agentjail\<close> runs a command in a jail: it creates namespaces, a root file
  system of bind mounts, a system-call filter, limits and, for an allowlist of domains, a network that
  ends at a CONNECT proxy; it also copies directory trees into snapshots.  \<open>agentjail-phantom\<close> is a
  second proxy: jails hold phantom tokens, and the proxy replaces a token by the real key of its tenant
  when it forwards a request to a provider.  \<open>agentjail-ctl\<close> is the control plane: tenants, sessions,
  runs, workspaces that outlive a run, their snapshots, a reaper that pauses idle workspaces and a
  garbage collection.  \<open>agentjail-server\<close> starts all of it and adds a gateway that routes host names to
  workspaces.  Tokens issued by the control plane are looked up by the phantom proxy; jails started by
  the control plane are those of the first crate; the gateway reads the rows and the addresses that
  executions register.

  \<^bold>\<open>Conventions.\<close>  A text is the list of its UTF-8 bytes.  A fallible function returns \<open>Err\<close> or \<open>Ok\<close>; a
  panic is \<open>None\<close>.  A handler takes the state and returns its answer with the new state.  Structures are
  records, enumerations datatypes, traits records of operations with their contract as a locale, hash
  maps association lists or lists of rows.  Times are counts of nanoseconds within the range of
  \<open>OffsetDateTime\<close>; 64-bit arithmetic that can wrap is on words or written out.  The kernel, git, the
  network and third-party crates are arguments; what a theorem needs of them is a named hypothesis
  (\<open>hex_decodes\<close>, \<open>seccomp_documented\<close>, \<open>header_values\<close> and others), and its witness has an instance.

  \<^bold>\<open>The theories.\<close>
  \<^item> \<open>Prelude\<close>, \<open>Paths\<close>: results, the functions of \<open>str\<close>, numbers and paths that the sources use.
  \<^item> \<open>Phantom_Token\<close>, \<open>Token_Store\<close>, \<open>Phantom_Proxy\<close> (\<open>agentjail-phantom/src\<close>): syntax and scopes of
    tokens; the contract of token stores (locales \<open>token_store\<close>, \<open>strict_token_store\<close>), interpreted by the
    store in memory and by the cache around it, which refines it; the handler of the proxy.  A request
    is sent only with a token that authorises it, and with the tenant's own key in place of the client's
    credential headers; every header that is not in the list of the providers is passed on.
  \<^item> \<open>Connect_Proxy\<close> (\<open>agentjail/src/proxy.rs\<close>): what the allowlist admits, which addresses are routable,
    that a connection reaches only routable addresses of allowed names, and how every connection ends.
  \<^item> \<open>Jail_Config\<close>, \<open>Seccomp\<close>, \<open>Sys_Program\<close>, \<open>Jail_Mounts\<close>, \<open>Jail_Setup\<close> (\<open>config.rs\<close>, \<open>seccomp.rs\<close>,
    \<open>exec.rs\<close>, \<open>mount.rs\<close>, \<open>gpu.rs\<close>, \<open>namespace.rs\<close>, \<open>landlock.rs\<close>): the child as a list of system calls
    that the kernel may refuse; if the command runs, everything that hardens the jail has happened
    before, in order.  With landlock it runs only where the kernel enforces none of it.
  \<^item> \<open>Jail_Spawn\<close>, \<open>Cgroup\<close>, \<open>Netlink\<close> (\<open>run.rs\<close>, \<open>run_internal.rs\<close>, \<open>cgroup.rs\<close>, \<open>netlink.rs\<close>, \<open>veth.rs\<close>):
    the handshake of parent and child as a step relation, failures before and after the guard of the
    child is disarmed included, with its invariant, its termination and its deadlocks; the wait for a
    jail; limits, statistics and freezing; messages byte by byte.
  \<^item> \<open>Snapshot_Tree\<close>, \<open>Snapshot_Pool\<close> (\<open>snapshot.rs\<close>, \<open>fork.rs\<close>): trees over a store of inodes, copies
    (locale \<open>tree_copier\<close>, interpreted by both ways of copying), the pool of blobs with hard links, its
    round trip, its fast path and its garbage collection.
  \<^item> \<open>Tenancy\<close>, \<open>Control_Stores\<close>, \<open>Exec_Options\<close>, \<open>Git_Clone\<close>, \<open>Session_Routes\<close>, \<open>Jail_Ledger\<close>
    (\<open>agentjail-ctl/src\<close>): authentication, the stores (locale \<open>row_store\<close>, interpreted by three of them),
    options and limits, the loop that drains the output of a run, clones (locale \<open>repo_cloner\<close>, interpreted by the clone of the host and in a jail),
    sessions and their tokens, runs and their ledger.  \<open>session_authority\<close> joins sessions, token store
    and proxy.
  \<^item> \<open>Workspace_Disk\<close>, \<open>Workspace_Routes\<close> (\<open>routes/workspaces.rs\<close>, \<open>routes/workspaces_exec.rs\<close>,
    \<open>routes/snapshots.rs\<close>, \<open>flavors.rs\<close>): every handler of workspaces and snapshots over rows, disk, locks,
    permits and ledger (\<open>ctl_state\<close> is the \<open>AppState\<close> of \<open>routes/mod.rs\<close>).
  \<^item> \<open>Workspace_Isolation\<close>: the handlers as one service (\<open>serve\<close>), and that an operator neither sees nor
    changes what belongs to other tenants, rows and directories.
  \<^item> \<open>Workspace_Life\<close>: the reaper (\<open>workspaces/idle.rs\<close>), the garbage collection (\<open>snapshots.rs\<close>), and the
    step relation \<open>sys_step\<close> of everything that interleaves: requests, the lookup, start, writes and end of
    executions, single steps of a sweep, collections, and permits taken and given back by the other routes
    that run jails.  \<open>sys_reach\<close> are the states it reaches from an empty
    store.
  \<^item> \<open>Workspace_Races\<close>, \<open>Workspace_Sweep\<close>, \<open>Workspace_Types\<close>: exclusive executions, pausing and resuming
    with its failures, what a sweep does under a running execution, idle limits, retention, and the
    well-formedness of all rows and running jails, in every reachable state.
  \<^item> \<open>Gateway\<close> (\<open>agentjail-server/src/gateway.rs\<close>): in every reachable state requests go only to what the
    workspace of the host declares, or to a jail that runs in it.
  \<^item> \<open>Server_Config\<close> (\<open>main.rs\<close>, \<open>lib.rs\<close>, \<open>db/credentials_pg.rs\<close>): the start, from the environment and the
    credentials of a database to the keys, the providers, the authentication and, without a database, a
    first state from which the step relation starts; which failures end it and which do not.

  \<^bold>\<open>Bounds and loops.\<close>  No definition uses fuel.  Loops recurse on their data or have a termination proof
  (trimming and decimal numbers on the length of the text or the number, waiting for the freezer on the
  time until the deadline, the drain loop on the lines and streams left).  The steps of the handshake without a user namespace decrease a
  rank; it blocks only where \<open>userns_deadlock\<close> and \<open>spawn_terminates\<close> say so.

  \<^bold>\<open>Not modelled.\<close>  The stores in a database (each method is an SQL statement); listeners, routing of HTTP,
  signals, logging and timers; the pipes that carry output (the lines and their times are arguments) and
  the sampler of statistics; the settings and health pages; the word lists of generated labels; the client libraries,
  the web interface and the benchmarks.  A poisoned lock does not occur.  A handler runs without
  interruption except where \<open>sys_step\<close> cuts it; in particular a snapshot of a workspace sees one state of
  its tree, as the freezer is meant to ensure, and the requests to freeze and thaw are modelled in
  \<open>Cgroup\<close> only.  What a failed capture leaves in its new directory is not kept; a failed
  restore leaves what it had copied until then.  A directory that cannot be created leaves the disk as it
  was.  Writes of a proxy to its own client succeed.  Error messages are without the quotes and escapes of
  the debug format where it is not an argument.  The iteration order of a
  hash map is that of its list.
\<close>

end
